(* ===== verification/Prelude.thy ===== *)
theory Prelude
  imports Main "HOL-Library.Word" "HOL-Library.Multiset"
begin

text \<open>
  Shared vocabulary of the development: the types that name Go's values, the panics
  the modelled code can raise, and generic lemmas on lists and association lists that
  the component theories use.  Go strings are byte sequences; HOL's \<open>char\<close> is a byte,
  so a Go \<open>string\<close> is modelled as \<open>string\<close> and \<open>length\<close> counts bytes, as
  \<open>len\<close> does in Go.
\<close>

section \<open>Types\<close>

type_synonym bytes = string
type_synonym u32 = "32 word"
type_synonym i8 = "8 word"

text \<open>
  A Go panic.  \<open>Panic msg\<close> is \<open>panic(msg)\<close> with a string argument (the
  assertions of \<open>assert1\<close> and the duplicate-route check); \<open>IndexOutOfRange\<close> is the
  runtime panic of an index or slice expression out of range.
\<close>

datatype go_panic = Panic string | IndexOutOfRange

text \<open>
  A Go value of static type \<open>any\<close>, as the context stores them under its keys: its
  dynamic type and value.  \<open>int\<close> and \<open>uint\<close> are 64 bits wide; a \<open>float64\<close> is
  kept as its bit pattern and a \<open>time.Time\<close> as its nanoseconds, since the code only
  stores and returns them; a map is an association list.  \<open>VOther\<close> is a value of any
  other type, named by the type.
\<close>

datatype anyval =
    VNil
  | VString string
  | VBool bool
  | VInt "64 word"
  | VInt64 "64 word"
  | VUint "64 word"
  | VUint64 "64 word"
  | VFloat64 "64 word"
  | VTime int
  | VDuration "64 word"
  | VStringSlice "string list"
  | VStringMap "(string \<times> anyval) list"
  | VStringMapString "(string \<times> string) list"
  | VStringMapStringSlice "(string \<times> string list) list"
  | VOther string

named_theorems route_simps "rewrite rules of the route abstraction of a tree"

section \<open>Moving one list element forward\<close>

text \<open>
  \<open>rotate_to k pos xs\<close> moves the element at \<open>pos\<close> to position \<open>k\<close> and shifts the
  elements between them one place back.  It is the effect of the bubble loop of
  \<open>incrementChildPrio\<close> on the child list, and literally the string expression that
  rebuilds \<open>indices\<close> there.
\<close>

definition rotate_to :: "nat \<Rightarrow> nat \<Rightarrow> 'a list \<Rightarrow> 'a list" where
  "rotate_to k pos xs = take k xs @ xs ! pos # take (pos - k) (drop k xs) @ drop (Suc pos) xs"

lemma rotate_to_same: "pos < length xs \<Longrightarrow> rotate_to pos pos xs = xs"
  by (simp add: rotate_to_def id_take_nth_drop [symmetric])

lemma take_split_at:
  assumes "k \<le> pos"
  shows "take pos xs = take k xs @ take (pos - k) (drop k xs)"
proof -
  have "pos = k + (pos - k)" using assms by simp
  then show ?thesis by (metis take_add)
qed

lemma mset_rotate_to:
  assumes "k \<le> pos" "pos < length xs"
  shows "mset (rotate_to k pos xs) = mset xs"
proof -
  have "xs = take pos xs @ xs ! pos # drop (Suc pos) xs"
    using assms(2) by (rule id_take_nth_drop)
  then have "mset xs = mset (take k xs @ take (pos - k) (drop k xs) @ xs ! pos # drop (Suc pos) xs)"
    using take_split_at [OF assms(1), of xs] by (metis append.assoc)
  then show ?thesis by (simp add: rotate_to_def)
qed

lemma set_rotate_to: "k \<le> pos \<Longrightarrow> pos < length xs \<Longrightarrow> set (rotate_to k pos xs) = set xs"
  by (metis mset_rotate_to set_mset_mset)

lemma length_rotate_to: "k \<le> pos \<Longrightarrow> pos < length xs \<Longrightarrow> length (rotate_to k pos xs) = length xs"
  by (metis mset_rotate_to size_mset)

lemma distinct_rotate_to:
  "k \<le> pos \<Longrightarrow> pos < length xs \<Longrightarrow> distinct (rotate_to k pos xs) = distinct xs"
  by (metis mset_rotate_to mset_eq_imp_distinct_iff)

lemma map_rotate_to: "pos < length xs \<Longrightarrow> map f (rotate_to k pos xs) = rotate_to k pos (map f xs)"
  by (simp add: rotate_to_def take_map drop_map)

lemma nth_rotate_to: "k \<le> pos \<Longrightarrow> pos < length xs \<Longrightarrow> rotate_to k pos xs ! k = xs ! pos"
  by (simp add: rotate_to_def nth_append)

text \<open>One swap of the bubble loop moves the rotation's source one place forward.\<close>

lemma rotate_to_swap:
  assumes "0 < n" "k \<le> n - 1" "n < length xs"
  shows "rotate_to k (n - 1) (xs[n - 1 := xs ! n, n := xs ! (n - 1)]) = rotate_to k n xs"
proof -
  let ?ys = "xs[n - 1 := xs ! n, n := xs ! (n - 1)]"
  have tk: "take k ?ys = take k xs" using assms by simp
  have mid: "take (n - 1 - k) (drop k ?ys) = take (n - 1 - k) (drop k xs)"
    using assms by (simp add: take_drop)
  have at: "?ys ! (n - 1) = xs ! n" using assms by (simp add: nth_list_update)
  have dr: "drop n ?ys = xs ! (n - 1) # drop (Suc n) xs"
    using assms by (simp add: Cons_nth_drop_Suc [symmetric] drop_update_cancel)
  have mid2: "take (n - k) (drop k xs) = take (n - 1 - k) (drop k xs) @ [xs ! (n - 1)]"
  proof -
    have "n - k = Suc (n - 1 - k)" using assms by simp
    moreover have "n - 1 - k < length (drop k xs)" using assms by simp
    moreover have "drop k xs ! (n - 1 - k) = xs ! (n - 1)" using assms by simp
    ultimately show ?thesis by (simp add: take_Suc_conv_app_nth)
  qed
  have "Suc (n - 1) = n" using assms by simp
  then show ?thesis
    using tk mid at dr mid2 by (simp add: rotate_to_def)
qed

section \<open>Association lists\<close>

text \<open>
  An association list with distinct keys denotes the map \<open>map_of\<close>; adding one pair
  with a fresh key to its set of pairs is a map update.
\<close>

lemma map_of_insert_fresh:
  assumes "distinct (map fst xs)" "distinct (map fst ys)"
    and "set ys = insert (k, v) (set xs)" and "k \<notin> fst ` set xs"
  shows "map_of ys = (map_of xs)(k \<mapsto> v)"
proof
  fix q
  show "map_of ys q = ((map_of xs)(k \<mapsto> v)) q"
  proof (cases "map_of ys q")
    case None
    then have "q \<notin> fst ` set ys" by (simp add: map_of_eq_None_iff)
    with assms(3) have "q \<noteq> k" "map_of xs q = None"
      by (auto simp: map_of_eq_None_iff)
    with None show ?thesis by simp
  next
    case (Some w)
    then have "(q, w) \<in> set ys" using assms(2) by simp
    with assms(3) have "(q, w) = (k, v) \<or> (q, w) \<in> set xs" by simp
    with assms(1,4) Some show ?thesis by (auto simp: rev_image_eqI)
  qed
qed

lemma map_of_distinct_Some_iff [simp]:
  "distinct (map fst xs) \<Longrightarrow> (map_of xs q = Some v) = ((q, v) \<in> set xs)"
  by (rule map_of_eq_Some_iff)

section \<open>Prefixes of strings\<close>

lemma take_length_eq_prefix: "(take (length p) q = p) = (\<exists>r. q = p @ r)"
  by (metis append_eq_conv_conj append_take_drop_id)

lemma hd_drop_nth: "i < length p \<Longrightarrow> hd (drop i p) = p ! i"
  by (simp add: hd_drop_conv_nth)

section \<open>Signed bytes\<close>

text \<open>
  Go's \<open>int8\<close> is an \<open>8 word\<close> read with \<open>sint\<close>: the conversion \<open>int8(n)\<close> of a
  length is the identity below 128 and negative from 128 to 255, and \<open>x++\<close> adds one
  below 127.
\<close>

lemma sint_of_nat_i8: "n < 128 \<Longrightarrow> sint (word_of_nat n :: i8) = int n"
proof -
  assume "n < 128"
  have "sint (word_of_nat n :: i8) = sint (word_of_int (int n) :: i8)" by simp
  also have "\<dots> = signed_take_bit 7 (int n)" by (simp only: sint_sbintrunc') simp
  also have "\<dots> = int n" using \<open>n < 128\<close> by (intro signed_take_bit_int_eq_self) simp_all
  finally show ?thesis .
qed
lemma sint_of_nat_i8_neg: "128 \<le> n \<Longrightarrow> n < 256 \<Longrightarrow> sint (word_of_nat n :: i8) = int n - 256"
proof -
  assume a: "128 \<le> n" "n < 256"
  have "sint (word_of_nat n :: i8) = sint (word_of_int (int n) :: i8)" by simp
  also have "\<dots> = (int n + 128) mod 256 - 128" by (simp only: int_word_sint) simp
  also have "\<dots> = int n - 256"
  proof -
    have "(int n + 128) mod 256 = (int n - 128 + 256) mod 256" by (simp add: add.commute)
    also have "\<dots> = int n - 128" using a by (simp only: mod_add_self2) (intro mod_pos_pos_trivial; simp)
    finally show ?thesis by simp
  qed
  finally show ?thesis .
qed
lemma sint_inc_i8: "sint (w :: i8) < 127 \<Longrightarrow> sint (w + 1) = sint w + 1"
proof -
  assume a: "sint w < 127"
  have "w + 1 = word_of_int (sint w + 1)" by simp
  then have "sint (w + 1) = signed_take_bit 7 (sint w + 1)" by (simp only: sint_sbintrunc') simp
  also have "\<dots> = sint w + 1" using a sint_ge [of w] by (intro signed_take_bit_int_eq_self) simp_all
  finally show ?thesis .
qed

end
