(* ===== verification/Tree.thy ===== *)
theory Tree
  imports Prelude
begin

text \<open>
  The per-method radix tree of \<open>src/unnamed/part_003\<close> (lines 110--287, adapted from
  httprouter): the helpers \<open>min\<close> and \<open>longestCommonPrefix\<close>, the \<open>node\<close> struct,
  \<open>incrementChildPrio\<close>, \<open>addRoute\<close> with \<open>insertChild\<close> and \<open>addChild\<close>, and
  \<open>getValue\<close>.  Nodes are exclusively owned by their parent (the split copies the
  children slice header into the new child and then replaces the parent's slice), so the
  pointer tree is modelled as a nested datatype and every mutation as returning the
  rebuilt node.  The handler chain is a type parameter \<open>'c\<close>; the \<open>handlers\<close> field is
  \<open>'c option\<close>, \<open>None\<close> being Go's \<open>nil\<close>.  The walking loop of \<open>addRoute\<close> may
  not terminate (see \<open>Tree_Insert\<close>), so it takes fuel, one unit per iteration of the
  \<open>walk:\<close> loop; running out is \<open>None\<close>.
\<close>

section \<open>Helpers\<close>

definition min_go :: "nat \<Rightarrow> nat \<Rightarrow> nat" where
  "min_go a b = (if a \<le> b then a else b)"

text \<open>The loop of \<open>longestCommonPrefix\<close>: \<open>i\<close> counts up while the bytes agree.\<close>

function lcp_loop :: "string \<Rightarrow> string \<Rightarrow> nat \<Rightarrow> nat \<Rightarrow> nat" where
  "lcp_loop a b mx i = (if i < mx \<and> a ! i = b ! i then lcp_loop a b mx (Suc i) else i)"
  by pat_completeness auto
termination
  by (relation "measure (\<lambda>(a, b, mx, i). mx - i)") auto

declare lcp_loop.simps [simp del]

definition longestCommonPrefix :: "string \<Rightarrow> string \<Rightarrow> nat" where
  "longestCommonPrefix a b = lcp_loop a b (min_go (length a) (length b)) 0"

section \<open>Nodes\<close>

datatype 'c node = Node
  (path: string)
  (indices: string)
  (priority: u32)
  (children: "'c node list")
  (handlers: "'c option")
  (fullPath: string)

text \<open>Assignments to single fields (\<open>n.priority++\<close>, \<open>n.children = ...\<close>).\<close>

fun incPrio :: "'c node \<Rightarrow> 'c node" where
  "incPrio (Node p idx pr cs hs fp) = Node p idx (pr + 1) cs hs fp"

fun setChildren :: "'c node \<Rightarrow> 'c node list \<Rightarrow> 'c node" where
  "setChildren (Node p idx pr cs hs fp) cs' = Node p idx pr cs' hs fp"

fun setHandlers :: "'c node \<Rightarrow> 'c \<Rightarrow> string \<Rightarrow> 'c node" where
  "setHandlers (Node p idx pr cs hs fp) h fullp = Node p idx pr cs (Some h) fullp"

fun appendIndex :: "'c node \<Rightarrow> char \<Rightarrow> 'c node" where
  "appendIndex (Node p idx pr cs hs fp) c = Node p (idx @ [c]) pr cs hs fp"

section \<open>incrementChildPrio\<close>

text \<open>
  The \<open>for newPos > 0 && cs[newPos-1].priority < prio\<close> loop: swap the moved child one
  place to the front while its predecessor has a strictly lower priority (unsigned
  32-bit comparison).
\<close>

fun bubble :: "'c node list \<Rightarrow> nat \<Rightarrow> u32 \<Rightarrow> 'c node list \<times> nat" where
  "bubble cs newPos prio =
     (if 0 < newPos \<and> priority (cs ! (newPos - 1)) < prio
      then bubble (cs[newPos - 1 := cs ! newPos, newPos := cs ! (newPos - 1)]) (newPos - 1) prio
      else (cs, newPos))"

declare bubble.simps [simp del]

text \<open>
  \<open>cs[pos].priority++\<close> panics when \<open>pos\<close> is out of range; rebuilding \<open>indices\<close>
  slices \<open>n.indices[pos:pos+1]\<close>, which panics when \<open>pos\<close> is not an index of it.
\<close>

definition incrementChildPrio :: "'c node \<Rightarrow> nat \<Rightarrow> go_panic + 'c node \<times> nat" where
  "incrementChildPrio n pos =
     (case n of Node p idx pr cs hs fp \<Rightarrow>
       if pos < length cs then
         (let c = incPrio (cs ! pos);
              (cs', newPos) = bubble (cs[pos := c]) pos (priority c)
          in if newPos \<noteq> pos then
               (if pos < length idx
                then Inr (Node p (take newPos idx @ [idx ! pos] @ take (pos - newPos) (drop newPos idx)
                                  @ drop (Suc pos) idx) pr cs' hs fp, newPos)
                else Inl IndexOutOfRange)
             else Inr (Node p idx pr cs' hs fp, newPos))
       else Inl IndexOutOfRange)"

section \<open>addRoute\<close>

fun insertChild :: "'c node \<Rightarrow> string \<Rightarrow> string \<Rightarrow> 'c \<Rightarrow> 'c node" where
  "insertChild (Node p idx pr cs hs fp) p' fullp h = Node p' idx pr cs (Some h) fullp"

fun addChild :: "'c node \<Rightarrow> 'c node \<Rightarrow> 'c node" where
  "addChild (Node p idx pr cs hs fp) child = Node p idx pr (cs @ [child]) hs fp"

text \<open>
  The split of the edge (\<open>if i < len(n.path)\<close>): the current node keeps the common
  prefix \<open>path[:i]\<close> of the incoming path and gets one child that takes over the rest of
  its segment, its indices, children, handlers and full path, with priority one less.
\<close>

fun splitEdge :: "'c node \<Rightarrow> string \<Rightarrow> nat \<Rightarrow> 'c node" where
  "splitEdge (Node p idx pr cs hs fp) inp i =
     Node (take i inp) [p ! i] pr [Node (drop i p) idx (pr - 1) cs hs fp] None fp"

text \<open>The panic of \<open>addRoute\<close> on a path that already has handlers.\<close>

definition duplicatePanic :: "string \<Rightarrow> go_panic" where
  "duplicatePanic fullp = Panic (''handlers are already registered for path '' @ [CHR 0x27] @ fullp @ [CHR 0x27])"

text \<open>The scan \<open>for i := 0; i < len(n.indices); i++ { if c == n.indices[i] ... }\<close>.\<close>

fun indexByte :: "char \<Rightarrow> string \<Rightarrow> nat \<Rightarrow> nat option" where
  "indexByte c [] i = None"
| "indexByte c (x # xs) i = (if c = x then Some i else indexByte c xs (Suc i))"

text \<open>
  One iteration of the \<open>walk:\<close> loop of \<open>addRoute\<close>, on the node \<open>n\<close> the loop has
  reached, the remaining path \<open>p\<close>, and the constant \<open>fullPath\<close> and handler chain; the
  result is the rebuilt subtree.  A descent into a child becomes a recursive call whose
  result is written back at the child's position.  In the branch that adds a leaf, the
  code appends an empty child, calls \<open>incrementChildPrio\<close> and then fills the child
  with \<open>insertChild\<close>; the model fills it before appending, which yields the same node:
  \<open>insertChild\<close> writes only \<open>path\<close>, \<open>handlers\<close> and \<open>fullPath\<close> of the fresh
  child and \<open>incrementChildPrio\<close> reads only priorities.
\<close>

fun walk :: "nat \<Rightarrow> string \<Rightarrow> 'c \<Rightarrow> string \<Rightarrow> 'c node \<Rightarrow> (go_panic + 'c node) option" where
  "walk 0 fullp h p n = None"
| "walk (Suc fuel) fullp h p n =
     (let i = longestCommonPrefix p (path n);
          n1 = (if i < length (path n) then splitEdge n p i else n)
      in if i < length p then
           (let p' = drop i p; c = p' ! 0 in
            if c = CHR ''/'' \<and> length (children n1) = 1 then
              map_option (map_sum id (\<lambda>ch. setChildren n1 [ch]))
                (walk fuel fullp h p' (incPrio (children n1 ! 0)))
            else
              (case indexByte c (indices n1) 0 of
                 Some k \<Rightarrow>
                   (case incrementChildPrio n1 k of
                      Inl e \<Rightarrow> Some (Inl e)
                    | Inr (n2, k') \<Rightarrow>
                        map_option (map_sum id (\<lambda>ch. setChildren n2 ((children n2)[k' := ch])))
                          (walk fuel fullp h p' (children n2 ! k')))
               | None \<Rightarrow>
                   (let child = insertChild (Node [] [] 0 [] None fullp) p' fullp h;
                        n2 = addChild (appendIndex n1 c) child
                    in case incrementChildPrio n2 (length (indices n2) - 1) of
                         Inl e \<Rightarrow> Some (Inl e)
                       | Inr (n3, _) \<Rightarrow> Some (Inr n3))))
         else if handlers n1 \<noteq> None then Some (Inl (duplicatePanic fullp))
         else Some (Inr (setHandlers n1 h fullp)))"

text \<open>
  \<open>addRoute\<close>: count the visit on the root, fill an empty tree directly, otherwise run the
  walk loop with the given fuel.
\<close>

definition addRoute :: "nat \<Rightarrow> 'c node \<Rightarrow> string \<Rightarrow> 'c \<Rightarrow> (go_panic + 'c node) option" where
  "addRoute fuel n p h =
     (let fullp = p; n0 = incPrio n
      in if path n0 = [] \<and> children n0 = [] then Some (Inr (insertChild n0 p fullp h))
         else walk fuel fullp h p n0)"

section \<open>getValue\<close>

lemma size_nth_le: "k < length cs \<Longrightarrow> size (cs ! k) \<le> size_list size cs"
  using size_list_estimation' [of "cs ! k" cs "size (cs ! k)" size] by (simp add: nth_mem)

text \<open>
  The lookup loop: strip the node's segment when it is a proper prefix of the remaining
  path and continue in the child whose index byte is the next byte; return the node's
  handlers when the remaining path is the segment; otherwise no match.  Reading
  \<open>n.children[i]\<close> out of range panics.
\<close>

function getValue :: "'c node \<Rightarrow> string \<Rightarrow> go_panic + 'c option" where
  "getValue (Node prefix idx pr cs hs fp) p =
     (if length prefix < length p \<and> take (length prefix) p = prefix then
        (case indexByte (drop (length prefix) p ! 0) idx 0 of
           Some k \<Rightarrow> if k < length cs then getValue (cs ! k) (drop (length prefix) p)
                     else Inl IndexOutOfRange
         | None \<Rightarrow> Inr None)
      else if p = prefix then Inr hs else Inr None)"
  by pat_completeness auto
termination
  by (relation "measure (\<lambda>(n, p). size n)")
     (auto simp add: le_imp_less_Suc size_nth_le trans_le_add1)

section \<open>Specification: well-formed trees and their routes\<close>

text \<open>
  The invariant of the data model (spec section 3): the index string lists the first byte
  of every child's segment, in the order of the children; these bytes are pairwise
  distinct; no child has an empty segment; and the same holds below.
\<close>

fun wf_node :: "'c node \<Rightarrow> bool" where
  "wf_node (Node p idx pr cs hs fp) =
     (idx = map (\<lambda>c. hd (path c)) cs \<and> distinct idx \<and>
      (\<forall>c\<in>set cs. path c \<noteq> [] \<and> wf_node c))"

text \<open>
  A root is well formed when it is a well-formed tree that is either the empty tree (no
  segment, no children, no handlers) or has a segment that begins with \<open>/\<close>.
\<close>

definition root_ok :: "'c node \<Rightarrow> bool" where
  "root_ok n =
     (wf_node n \<and> (if path n = [] then children n = [] \<and> handlers n = None
                   else hd (path n) = CHR ''/''))"

text \<open>
  The routes a tree stores: every node with handlers contributes the concatenation of
  the segments from the root to it, with its chain.  Their \<open>map_of\<close> is the abstract
  map from full paths to handler chains that the tree implements.
\<close>

fun routes :: "'c node \<Rightarrow> (string \<times> 'c) list" where
  "routes (Node p idx pr cs hs fp) =
     (case hs of None \<Rightarrow> [] | Some h \<Rightarrow> [(p, h)]) @
     concat (map (\<lambda>c. map (\<lambda>(q, h). (p @ q, h)) (routes c)) cs)"

definition route_map :: "'c node \<Rightarrow> string \<rightharpoonup> 'c" where
  "route_map n = map_of (routes n)"

end
