(* ===== verification/Tree_Lookup.thy ===== *)
theory Tree_Lookup
  imports Tree
begin

text \<open>
  Facts about the tree that do not change it: the common-prefix loop against a
  reference definition, the shape of the routes a tree stores, and the correctness of
  \<open>getValue\<close> against the route map.
\<close>

section \<open>The common-prefix loop\<close>

text \<open>Reference definition: the length of the longest common prefix, by structural recursion.\<close>

fun lcp_ref :: "string \<Rightarrow> string \<Rightarrow> nat" where
  "lcp_ref (x # xs) (y # ys) = (if x = y then Suc (lcp_ref xs ys) else 0)"
| "lcp_ref _ _ = 0"

lemma lcp_loop_ref:
  "mx = min (length a) (length b) \<Longrightarrow> i \<le> mx \<Longrightarrow>
   lcp_loop a b mx i = i + lcp_ref (drop i a) (drop i b)"
proof (induction a b mx i rule: lcp_loop.induct)
  case (1 a b mx i)
  show ?case
  proof (cases "i < mx")
    case True
    then have da: "drop i a = a ! i # drop (Suc i) a" and db: "drop i b = b ! i # drop (Suc i) b"
      using "1.prems" by (simp_all add: Cons_nth_drop_Suc)
    show ?thesis
    proof (cases "a ! i = b ! i")
      case True
      with \<open>i < mx\<close> "1.IH" "1.prems" have "lcp_loop a b mx (Suc i) =
          Suc i + lcp_ref (drop (Suc i) a) (drop (Suc i) b)" by simp
      with True \<open>i < mx\<close> da db show ?thesis by (simp add: lcp_loop.simps [of a b mx i])
    next
      case False
      with da db show ?thesis by (simp add: lcp_loop.simps [of a b mx i])
    qed
  next
    case False
    with "1.prems" have "drop i a = [] \<or> drop i b = []" by auto
    with False show ?thesis
      by (auto simp: lcp_loop.simps [of a b mx i] neq_Nil_conv)
  qed
qed

lemma longestCommonPrefix_ref: "longestCommonPrefix a b = lcp_ref a b"
  by (simp add: longestCommonPrefix_def min_go_def lcp_loop_ref min_def)

lemma lcp_ref_iff: "(k \<le> lcp_ref a b) = (k \<le> length a \<and> k \<le> length b \<and> take k a = take k b)"
proof (induction a b arbitrary: k rule: lcp_ref.induct)
  case (1 x xs y ys)
  then show ?case by (cases k) auto
qed auto

lemma lcp_bounds:
  "longestCommonPrefix a b \<le> length a" "longestCommonPrefix a b \<le> length b"
  "take (longestCommonPrefix a b) a = take (longestCommonPrefix a b) b"
  using lcp_ref_iff [of "lcp_ref a b" a b] by (simp_all add: longestCommonPrefix_ref)

lemma lcp_stops:
  assumes "longestCommonPrefix a b < length a" "longestCommonPrefix a b < length b"
  shows "a ! longestCommonPrefix a b \<noteq> b ! longestCommonPrefix a b"
proof
  let ?i = "longestCommonPrefix a b"
  assume eq: "a ! ?i = b ! ?i"
  have "take (Suc ?i) a = take (Suc ?i) b"
    using assms eq lcp_bounds(3) by (simp add: take_Suc_conv_app_nth)
  with assms have "Suc ?i \<le> lcp_ref a b" by (simp add: lcp_ref_iff)
  then show False by (simp add: longestCommonPrefix_ref)
qed

lemma lcp_pos: "a \<noteq> [] \<Longrightarrow> b \<noteq> [] \<Longrightarrow> hd a = hd b \<Longrightarrow> 0 < longestCommonPrefix a b"
  by (auto simp: longestCommonPrefix_ref neq_Nil_conv)

lemma lcp_zero: "a \<noteq> [] \<Longrightarrow> b \<noteq> [] \<Longrightarrow> hd a \<noteq> hd b \<Longrightarrow> longestCommonPrefix a b = 0"
  by (auto simp: longestCommonPrefix_ref neq_Nil_conv)

section \<open>The routes of a tree\<close>

lemma set_routes_Node [route_simps]:
  "set (routes (Node p idx pr cs hs fp)) =
     (case hs of None \<Rightarrow> {} | Some h \<Rightarrow> {(p, h)}) \<union>
     (\<Union>c\<in>set cs. (\<lambda>(q, h). (p @ q, h)) ` set (routes c))"
  by (cases hs) auto

lemma mem_routes_Node [route_simps]:
  "((q, h) \<in> set (routes (Node p idx pr cs hs fp))) =
     ((q = p \<and> hs = Some h) \<or> (\<exists>c\<in>set cs. \<exists>r. q = p @ r \<and> (r, h) \<in> set (routes c)))"
  by (cases hs) (auto simp: set_routes_Node)

lemma routes_key_prefix: "(q, h) \<in> set (routes n) \<Longrightarrow> \<exists>r. q = path n @ r"
  by (cases n) (auto simp: mem_routes_Node)

lemma routes_key_hd:
  assumes "(q, h) \<in> set (routes c)" "path c \<noteq> []"
  shows "q \<noteq> [] \<and> hd q = hd (path c)"
  using routes_key_prefix [OF assms(1)] assms(2) by auto

lemma wf_node_children:
  "wf_node n \<Longrightarrow> c \<in> set (children n) \<Longrightarrow> path c \<noteq> [] \<and> wf_node c"
  by (cases n) auto

lemma wf_node_indices: "wf_node n \<Longrightarrow> indices n = map (\<lambda>c. hd (path c)) (children n)"
  by (cases n) auto

text \<open>Two children of a well-formed node with the same first byte are the same child.\<close>

lemma wf_child_unique:
  assumes "wf_node (Node p idx pr cs hs fp)" "c \<in> set cs" "d \<in> set cs"
    and "hd (path c) = hd (path d)"
  shows "c = d"
proof -
  from assms(1) have "distinct (map (\<lambda>c. hd (path c)) cs)" by auto
  then have "inj_on (\<lambda>c. hd (path c)) (set cs)" by (simp add: distinct_map)
  with assms(2-4) show ?thesis by (auto dest: inj_onD)
qed

lemma map_fst_prefixed: "map fst (map (\<lambda>(q, h). (p @ q, h)) xs) = map (\<lambda>x. p @ fst x) xs"
  by (induction xs) auto

lemma set_child_keys:
  "x \<in> set (map fst (concat (map (\<lambda>c. map (\<lambda>(q, h). (p @ q, h)) (routes c)) cs))) =
   (\<exists>d\<in>set cs. \<exists>q h. x = p @ q \<and> (q, h) \<in> set (routes d))"
  by (force simp: map_fst_prefixed)

lemma distinct_child_keys:
  assumes "distinct (map (\<lambda>c. hd (path c)) cs)"
    and "\<forall>c\<in>set cs. path c \<noteq> [] \<and> distinct (map fst (routes c))"
  shows "distinct (map fst (concat (map (\<lambda>c. map (\<lambda>(q, h). (p @ q, h)) (routes c)) cs)))"
  using assms
proof (induction cs)
  case Nil
  then show ?case by simp
next
  case (Cons c cs)
  let ?rest = "map fst (concat (map (\<lambda>c. map (\<lambda>(q, h). (p @ q, h)) (routes c)) cs))"
  have "inj_on (\<lambda>x. p @ fst x) (set (routes c))"
    using Cons.prems(2) by (auto simp: inj_on_def distinct_map)
  then have own: "distinct (map (\<lambda>x. p @ fst x) (routes c))"
    using Cons.prems(2) by (simp add: distinct_map)
  have rest: "distinct ?rest" using Cons by simp
  have apart: "x \<notin> set ?rest" if x: "x \<in> set (map (\<lambda>x. p @ fst x) (routes c))" for x
  proof
    assume "x \<in> set ?rest"
    then obtain d q' h' where d: "d \<in> set cs" "x = p @ q'" "(q', h') \<in> set (routes d)"
      by (auto simp only: set_child_keys)
    from x obtain q h where c: "x = p @ q" "(q, h) \<in> set (routes c)" by auto
    have "hd q = hd (path c)" "hd q' = hd (path d)"
      using routes_key_hd [OF c(2)] routes_key_hd [OF d(3)] Cons.prems(2) d(1) by auto
    moreover have "q = q'" using c(1) d(2) by simp
    moreover have "hd (path c) \<noteq> hd (path d)" using Cons.prems(1) d(1) by auto
    ultimately show False by simp
  qed
  have "distinct (map (\<lambda>x. p @ fst x) (routes c) @ ?rest)"
    using own rest apart by (simp only: distinct_append disjoint_iff) blast
  then show ?case by (simp add: map_fst_prefixed del: map_map)
qed

lemma distinct_route_keys: "wf_node n \<Longrightarrow> distinct (map fst (routes n))"
proof (induction n)
  case (Node p idx pr cs hs fp)
  let ?kids = "map fst (concat (map (\<lambda>c. map (\<lambda>(q, h). (p @ q, h)) (routes c)) cs))"
  from Node have kids: "distinct ?kids"
    by (intro distinct_child_keys) auto
  have "p \<notin> set ?kids"
  proof
    assume "p \<in> set ?kids"
    then obtain d q h where d: "d \<in> set cs" "p = p @ q" "(q, h) \<in> set (routes d)"
      by (blast dest: set_child_keys [THEN iffD1])
    from Node.prems d(1) have "path d \<noteq> []" by simp
    with routes_key_hd [OF d(3)] d(2) show False by simp
  qed
  with kids show ?case by (cases hs) simp_all
qed

section \<open>Lookup\<close>

lemma map_of_same_pairs:
  assumes "distinct (map fst xs)" "distinct (map fst ys)" "\<And>h. ((a, h) \<in> set xs) = ((b, h) \<in> set ys)"
  shows "map_of xs a = map_of ys b"
proof (cases "map_of ys b")
  case None
  then have "\<And>h. (b, h) \<notin> set ys" by (auto simp: map_of_eq_None_iff rev_image_eqI)
  with assms(3) have "map_of xs a = None" by (auto simp: map_of_eq_None_iff)
  with None show ?thesis by simp
next
  case (Some h)
  with assms show ?thesis by simp
qed

lemma route_map_descend:
  assumes wf: "wf_node (Node p idx pr cs hs fp)" and k: "k < length cs"
    and r: "r \<noteq> []" "hd r = hd (path (cs ! k))"
  shows "route_map (Node p idx pr cs hs fp) (p @ r) = route_map (cs ! k) r"
  unfolding route_map_def
proof (rule map_of_same_pairs)
  show "distinct (map fst (routes (Node p idx pr cs hs fp)))"
    using wf by (rule distinct_route_keys)
  have "cs ! k \<in> set cs" using k by simp
  then show "distinct (map fst (routes (cs ! k)))"
    using wf by (auto intro: distinct_route_keys)
  fix h
  show "((p @ r, h) \<in> set (routes (Node p idx pr cs hs fp))) = ((r, h) \<in> set (routes (cs ! k)))"
  proof
    assume "(p @ r, h) \<in> set (routes (Node p idx pr cs hs fp))"
    with r obtain c where c: "c \<in> set cs" "(r, h) \<in> set (routes c)"
      by (auto simp: mem_routes_Node)
    with wf have "hd (path c) = hd (path (cs ! k))"
      using routes_key_hd [OF c(2)] r by auto
    with wf c(1) k have "c = cs ! k" by (intro wf_child_unique) auto
    with c show "(r, h) \<in> set (routes (cs ! k))" by simp
  next
    assume "(r, h) \<in> set (routes (cs ! k))"
    with k show "(p @ r, h) \<in> set (routes (Node p idx pr cs hs fp))"
      by (auto simp: mem_routes_Node)
  qed
qed

lemma route_map_None_iff: "(route_map n q = None) = (\<forall>h. (q, h) \<notin> set (routes n))"
  by (auto simp: route_map_def map_of_eq_None_iff image_iff)

lemma route_map_Some_iff: "wf_node n \<Longrightarrow> (route_map n q = Some h) = ((q, h) \<in> set (routes n))"
  by (simp add: route_map_def distinct_route_keys)

lemma route_map_no_child:
  assumes wf: "wf_node (Node p idx pr cs hs fp)" and r: "r \<noteq> []"
    and none: "\<forall>c\<in>set cs. hd (path c) \<noteq> hd r"
  shows "route_map (Node p idx pr cs hs fp) (p @ r) = None"
proof -
  have "(p @ r, h) \<notin> set (routes (Node p idx pr cs hs fp))" for h
  proof
    assume "(p @ r, h) \<in> set (routes (Node p idx pr cs hs fp))"
    with r obtain c where "c \<in> set cs" "(r, h) \<in> set (routes c)"
      by (auto simp: mem_routes_Node)
    with wf none routes_key_hd show False by fastforce
  qed
  then show ?thesis by (simp only: route_map_None_iff) blast
qed

lemma route_map_here:
  assumes wf: "wf_node (Node p idx pr cs hs fp)"
  shows "route_map (Node p idx pr cs hs fp) p = hs"
proof -
  have kids: "\<not> (\<exists>c\<in>set cs. \<exists>r. p = p @ r \<and> (r, h) \<in> set (routes c))" for h
    using wf routes_key_hd by fastforce
  have mem: "((p, h) \<in> set (routes (Node p idx pr cs hs fp))) = (hs = Some h)" for h
    using kids [of h] by (simp only: mem_routes_Node) blast
  show ?thesis
  proof (cases hs)
    case None
    with mem show ?thesis by (simp only: route_map_None_iff) simp
  next
    case (Some h)
    with mem route_map_Some_iff [OF wf] show ?thesis by simp
  qed
qed

lemma route_map_off_path:
  assumes "\<not> (\<exists>r. q = p @ r)"
  shows "route_map (Node p idx pr cs hs fp) q = None"
  using assms routes_key_prefix [of q _ "Node p idx pr cs hs fp"]
  by (auto simp: route_map_def map_of_eq_None_iff)

lemma indexByte_Some: "indexByte c xs i = Some k \<Longrightarrow> i \<le> k \<and> k - i < length xs \<and> xs ! (k - i) = c"
  by (induction c xs i rule: indexByte.induct) (auto split: if_splits simp: nth_Cons')

lemma indexByte_None: "indexByte c xs i = None \<Longrightarrow> c \<notin> set xs"
  by (induction c xs i rule: indexByte.induct) (auto split: if_splits)

text \<open>
  \<open>getValue\<close> never panics on a well-formed tree and returns exactly the chain the route
  map holds for the path.
\<close>

lemma getValue_route_map: "wf_node n \<Longrightarrow> getValue n q = Inr (route_map n q)"
proof (induction n q rule: getValue.induct)
  case (1 prefix idx pr cs hs fp p)
  let ?n = "Node prefix idx pr cs hs fp"
  show ?case
  proof (cases "length prefix < length p \<and> take (length prefix) p = prefix")
    case True
    define r where "r = drop (length prefix) p"
    have p: "p = prefix @ r" using True by (metis r_def append_take_drop_id)
    have r: "r \<noteq> []" using True by (simp add: r_def)
    have hd_r: "r ! 0 = hd r" using r by (simp add: hd_conv_nth)
    have idx: "idx = map (\<lambda>c. hd (path c)) cs" using "1.prems" by simp
    show ?thesis
    proof (cases "indexByte (r ! 0) idx 0")
      case (Some k)
      with indexByte_Some [OF Some] idx have k: "k < length cs" "hd (path (cs ! k)) = hd r"
        using hd_r by auto
      have wk: "wf_node (cs ! k)" using "1.prems" k(1) by simp
      have "getValue (cs ! k) r = Inr (route_map (cs ! k) r)"
        using "1.IH" [OF True Some [unfolded r_def] k(1) wk] by (simp add: r_def)
      moreover have "route_map ?n p = route_map (cs ! k) r"
        using route_map_descend [OF "1.prems" k(1) r] k(2) by (simp add: p)
      ultimately show ?thesis
        using True Some k(1) by (simp add: r_def)
    next
      case None
      then have "\<forall>c\<in>set cs. hd (path c) \<noteq> hd r"
        using indexByte_None [OF None] idx hd_r by (fastforce simp: image_iff)
      then have "route_map ?n p = None"
        using route_map_no_child [OF "1.prems" r] by (simp add: p)
      with True None show ?thesis by (simp add: r_def)
    qed
  next
    case False
    show ?thesis
    proof (cases "p = prefix")
      case True
      with False route_map_here [OF "1.prems"] show ?thesis by simp
    next
      case neq: False
      have "\<not> (\<exists>r. p = prefix @ r)"
      proof
        assume "\<exists>r. p = prefix @ r"
        then obtain r where "p = prefix @ r" by blast
        with False neq show False by (cases r) auto
      qed
      then have "route_map ?n p = None" by (rule route_map_off_path)
      with neq show ?thesis by (simp only: getValue.simps if_not_P [OF False]) simp
    qed
  qed
qed

section \<open>Claims on lookup\<close>

text \<open>
  Claim C2.  On a well-formed tree \<open>getValue\<close> never panics and returns the chain the
  route map holds for the path; the route map holds a chain for a path exactly when the
  tree stores that pair.
\<close>

theorem getValue_correct:
  assumes "wf_node t"
  shows "getValue t q = Inr (route_map t q) \<and> (route_map t q = Some h) = ((q, h) \<in> set (routes t))"
  using assms by (simp add: getValue_route_map route_map_Some_iff)

theorem getValue_correct_witness:
  "wf_node (Node ''/co'' ''n'' 2 [Node ''ntact'' [] 1 [] (Some (1::nat)) ''/contact''] (Some 2) ''/co'') \<and>
   getValue (Node ''/co'' ''n'' 2 [Node ''ntact'' [] 1 [] (Some (1::nat)) ''/contact''] (Some 2) ''/co'') ''/contact'' =
     Inr (Some 1) \<and>
   getValue (Node ''/co'' ''n'' 2 [Node ''ntact'' [] 1 [] (Some (1::nat)) ''/contact''] (Some 2) ''/co'') ''/con'' =
     Inr None"
proof -
  have w: "wf_node (Node ''/co'' ''n'' 2 [Node ''ntact'' [] 1 [] (Some (1::nat)) ''/contact''] (Some 2) ''/co'')"
    by simp
  show ?thesis
    using w getValue_correct [OF w, of "''/contact''" 1] getValue_correct [OF w, of "''/con''" 1]
    by (simp add: route_map_def)
qed

text \<open>
  Claim C7.  \<open>longestCommonPrefix\<close> computes the length of the longest common prefix:
  \<open>k\<close> is at most its result exactly when \<open>k\<close> is within both strings and the two
  strings agree on their first \<open>k\<close> bytes.
\<close>

theorem longestCommonPrefix_spec:
  "(k \<le> longestCommonPrefix a b) = (k \<le> length a \<and> k \<le> length b \<and> take k a = take k b)"
  by (simp add: longestCommonPrefix_ref lcp_ref_iff)

end
