(* ===== verification/Tree_Insert.thy ===== *)
theory Tree_Insert
  imports Tree_Lookup
begin

text \<open>
  Insertion: the effect of \<open>incrementChildPrio\<close>, of the edge split and of one
  iteration of the \<open>walk:\<close> loop on the well-formedness invariant and on the routes of
  the tree; then \<open>addRoute\<close> as an update of the route map, its duplicate check, the
  fuel it needs, and the paths on which its loop never ends.
\<close>

section \<open>Field updates\<close>

lemma incPrio_sel [simp]:
  "path (incPrio n) = path n" "indices (incPrio n) = indices n" "children (incPrio n) = children n"
  "handlers (incPrio n) = handlers n" "fullPath (incPrio n) = fullPath n"
  "priority (incPrio n) = priority n + 1"
  by (cases n; simp)+

lemma setChildren_sel [simp]:
  "path (setChildren n cs) = path n" "indices (setChildren n cs) = indices n"
  "children (setChildren n cs) = cs" "handlers (setChildren n cs) = handlers n"
  by (cases n; simp)+

lemma setHandlers_sel [simp]:
  "path (setHandlers n h fp) = path n" "indices (setHandlers n h fp) = indices n"
  "children (setHandlers n h fp) = children n" "handlers (setHandlers n h fp) = Some h"
  by (cases n; simp)+

lemma routes_incPrio [simp]: "routes (incPrio n) = routes n"
  by (cases n) simp

lemma wf_incPrio [simp]: "wf_node (incPrio n) = wf_node n"
  by (cases n) simp

text \<open>The routes and the invariant of a node, read through its selectors.\<close>

lemma set_routes_sel:
  "set (routes n) =
     (case handlers n of None \<Rightarrow> {} | Some h \<Rightarrow> {(path n, h)}) \<union>
     (\<Union>c\<in>set (children n). (\<lambda>(q, h). (path n @ q, h)) ` set (routes c))"
  by (cases n) (simp only: set_routes_Node node.sel)

lemma wf_node_sel:
  "wf_node n =
     (indices n = map (\<lambda>c. hd (path c)) (children n) \<and> distinct (indices n) \<and>
      (\<forall>c\<in>set (children n). path c \<noteq> [] \<and> wf_node c))"
  by (cases n) simp

section \<open>incrementChildPrio\<close>

lemma bubble_rotate:
  "pos < length cs \<Longrightarrow> bubble cs pos prio = (cs', k) \<Longrightarrow> k \<le> pos \<and> cs' = rotate_to k pos cs"
proof (induction cs pos prio arbitrary: cs' k rule: bubble.induct)
  case (1 cs newPos prio)
  show ?case
  proof (cases "0 < newPos \<and> priority (cs ! (newPos - 1)) < prio")
    case True
    let ?cs = "cs[newPos - 1 := cs ! newPos, newPos := cs ! (newPos - 1)]"
    have "bubble ?cs (newPos - 1) prio = (cs', k)"
      using "1.prems"(2) True by (simp add: bubble.simps [of cs newPos prio])
    then have "k \<le> newPos - 1 \<and> cs' = rotate_to k (newPos - 1) ?cs"
      using "1.IH" [OF True] "1.prems"(1) by simp
    moreover have "rotate_to k (newPos - 1) ?cs = rotate_to k newPos cs" if "k \<le> newPos - 1"
      using rotate_to_swap [of newPos k cs] True "1.prems"(1) that by simp
    ultimately show ?thesis by auto
  next
    case False
    have "bubble cs newPos prio = (cs, newPos)"
      by (subst bubble.simps) (use False in presburger)
    then have "cs' = cs" "k = newPos"
      using "1.prems"(2) by simp_all
    with "1.prems"(1) show ?thesis by (simp add: rotate_to_same)
  qed
qed

lemma UN_set_update:
  assumes "pos < length xs" "f x = f (xs ! pos)"
  shows "(\<Union>c\<in>set (xs[pos := x]). f c) = (\<Union>c\<in>set xs. f c)"
proof -
  have "set (xs[pos := x]) \<subseteq> insert x (set xs)" by (rule set_update_subset_insert)
  moreover have "c \<in> set xs \<Longrightarrow> c = xs ! pos \<or> c \<in> set (xs[pos := x])" for c
    by (auto simp: in_set_conv_nth nth_list_update) (metis length_list_update nth_list_update_neq)
  moreover have "xs ! pos \<in> set xs" "x \<in> set (xs[pos := x])"
    using assms(1) by (auto simp: set_update_memI)
  ultimately show ?thesis using assms(2) by blast
qed

text \<open>
  On a well-formed node \<open>incrementChildPrio\<close> does not panic: it moves the child at
  \<open>pos\<close>, with its priority incremented, to position \<open>k \<le> pos\<close>, and rotates the
  index string the same way.
\<close>

lemma incrementChildPrio_shape:
  assumes wf: "wf_node n" and pos: "pos < length (children n)"
  shows "\<exists>n' k. incrementChildPrio n pos = Inr (n', k) \<and> k \<le> pos \<and>
           path n' = path n \<and> handlers n' = handlers n \<and>
           children n' = rotate_to k pos ((children n)[pos := incPrio (children n ! pos)]) \<and>
           indices n' = rotate_to k pos (indices n)"
proof (cases n)
  case (Node p idx pr cs hs fp)
  let ?c = "incPrio (cs ! pos)"
  obtain cs' k where b: "bubble (cs[pos := ?c]) pos (priority ?c) = (cs', k)"
    by (cases "bubble (cs[pos := ?c]) pos (priority ?c)")
  have pos': "pos < length cs" using pos Node by simp
  then have rot: "k \<le> pos" "cs' = rotate_to k pos (cs[pos := ?c])"
    using bubble_rotate [OF _ b] by simp_all
  have idx: "pos < length idx" using wf pos Node by simp
  have "incrementChildPrio n pos =
          Inr (Node p (if k \<noteq> pos then rotate_to k pos idx else idx) pr cs' hs fp, k)"
    using Node pos' idx b by (auto simp: incrementChildPrio_def rotate_to_def Let_def)
  moreover have "(if k \<noteq> pos then rotate_to k pos idx else idx) = rotate_to k pos idx"
    using idx by (simp add: rotate_to_same)
  ultimately show ?thesis using Node rot by simp
qed

lemma map_hd_path_update:
  "pos < length cs \<Longrightarrow> map (\<lambda>c. hd (path c)) (cs[pos := incPrio (cs ! pos)]) = map (\<lambda>c. hd (path c)) cs"
  by (simp add: map_update) (metis list_update_id nth_map)

lemma incrementChildPrio_wf:
  assumes wf: "wf_node n" and pos: "pos < length (children n)"
    and eq: "incrementChildPrio n pos = Inr (n', k)"
  shows "wf_node n'" "set (routes n') = set (routes n)" "k \<le> pos" "k < length (children n')"
    "children n' ! k = incPrio (children n ! pos)" "path n' = path n" "handlers n' = handlers n"
proof -
  obtain n'' k' where s: "incrementChildPrio n pos = Inr (n'', k')" "k' \<le> pos"
    "path n'' = path n" "handlers n'' = handlers n"
    "children n'' = rotate_to k' pos ((children n)[pos := incPrio (children n ! pos)])"
    "indices n'' = rotate_to k' pos (indices n)"
    using incrementChildPrio_shape [OF wf pos] by blast
  with eq have same: "n'' = n'" "k' = k" by simp_all
  have pn: "path n' = path n" and hn: "handlers n' = handlers n" using s same by simp_all
  let ?cs = "(children n)[pos := incPrio (children n ! pos)]"
  have len: "pos < length ?cs" using pos by simp
  have idx: "indices n = map (\<lambda>c. hd (path c)) (children n)" using wf by (simp add: wf_node_sel [of n])
  have setcs: "set (children n') = set ?cs"
    using s same set_rotate_to [OF _ len] by simp
  have kids_ok: "\<forall>c\<in>set ?cs. path c \<noteq> [] \<and> wf_node c"
  proof
    fix c assume "c \<in> set ?cs"
    then have "c \<in> insert (incPrio (children n ! pos)) (set (children n))"
      using set_update_subset_insert by fast
    moreover have "children n ! pos \<in> set (children n)" using pos by simp
    ultimately show "path c \<noteq> [] \<and> wf_node c" using wf by (auto simp: wf_node_sel [of n])
  qed
  have "indices n' = map (\<lambda>c. hd (path c)) (children n')"
    using s same idx len pos by (simp add: map_rotate_to map_hd_path_update)
  moreover have "distinct (indices n')"
    using s same wf pos idx by (simp add: distinct_rotate_to wf_node_sel [of n])
  ultimately show "wf_node n'" using kids_ok setcs by (simp add: wf_node_sel [of n'])
  have "(\<Union>c\<in>set ?cs. (\<lambda>(q, h). (path n @ q, h)) ` set (routes c)) =
        (\<Union>c\<in>set (children n). (\<lambda>(q, h). (path n @ q, h)) ` set (routes c))"
    using pos by (intro UN_set_update) simp_all
  then show "set (routes n') = set (routes n)"
    unfolding set_routes_sel [of n'] set_routes_sel [of n] pn hn setcs by simp
  show "k \<le> pos" using s same by simp
  show "k < length (children n')" using s same len by (simp add: length_rotate_to)
  show "children n' ! k = incPrio (children n ! pos)"
    using s same len by (simp add: nth_rotate_to)
  show "path n' = path n" "handlers n' = handlers n" using s same by simp_all
qed

section \<open>The edge split\<close>

lemma splitEdge_sel:
  "path (splitEdge n p i) = take i p" "handlers (splitEdge n p i) = None"
  "indices (splitEdge n p i) = [path n ! i]"
  "children (splitEdge n p i) =
     [Node (drop i (path n)) (indices n) (priority n - 1) (children n) (handlers n) (fullPath n)]"
  by (cases n; simp)+

lemma splitEdge_wf:
  assumes "wf_node n" "i < length (path n)"
  shows "wf_node (splitEdge n p i)"
  using assms by (cases n) (simp add: hd_drop_nth)

lemma splitEdge_routes:
  assumes "i < length (path n)" "take i p = take i (path n)"
  shows "set (routes (splitEdge n p i)) = set (routes n)"
proof (cases n)
  case (Node pn idx pr cs hs fp)
  have tp: "take i p @ drop i pn = pn" using assms Node by simp
  have tq: "take i p @ drop i pn @ q = pn @ q" for q using tp by (metis append.assoc)
  have img: "(\<lambda>(q, h). (take i p @ q, h)) ` (\<lambda>(q, h). (drop i pn @ q, h)) ` S =
             (\<lambda>(q, h). (pn @ q, h)) ` S" for S :: "(string \<times> 'a) set"
    by (simp add: image_image case_prod_beta tq)
  show ?thesis
    using Node tp by (cases hs) (simp_all add: set_routes_Node image_Un image_UN img del: append_assoc)
qed

section \<open>One iteration of the walk\<close>

text \<open>
  What the head of one iteration establishes on a well-formed node whose segment starts
  with the same byte as the remaining path: the common prefix is not empty, the node
  after the optional split has exactly that prefix as its segment, is well formed and
  stores the same routes; after a split, its only child starts with a byte other than
  the next byte of the path.
\<close>

lemma walk_head:
  assumes wf: "wf_node n" and ne: "path n \<noteq> []" "p \<noteq> []" and hd: "hd p = hd (path n)"
    and i: "i = longestCommonPrefix p (path n)"
    and n1: "n1 = (if i < length (path n) then splitEdge n p i else n)"
  shows "0 < i" "i \<le> length p" "path n1 = take i p" "wf_node n1"
    "set (routes n1) = set (routes n)" "path n1 \<noteq> []" "hd (path n1) = hd (path n)"
    "i < length (path n) \<Longrightarrow> handlers n1 = None"
    "i < length (path n) \<Longrightarrow> i < length p \<Longrightarrow> c \<in> set (children n1) \<Longrightarrow> hd (path c) \<noteq> p ! i"
proof -
  show "0 < i" using lcp_pos [OF ne(2,1) hd] i by simp
  show "i \<le> length p" using lcp_bounds(1) i by simp
  have tk: "take i p = take i (path n)" using lcp_bounds(3) i by simp
  have le: "i \<le> length (path n)" using lcp_bounds(2) i by simp
  show "path n1 = take i p"
    using n1 tk le by (auto simp: splitEdge_sel)
  show "wf_node n1" using n1 wf splitEdge_wf by auto
  show "set (routes n1) = set (routes n)" using n1 tk splitEdge_routes by auto
  have "0 < i" using lcp_pos [OF ne(2,1) hd] i by simp
  then show "path n1 \<noteq> []" "hd (path n1) = hd (path n)"
    using \<open>path n1 = take i p\<close> ne(2) hd by (auto simp: hd_take)
  show "i < length (path n) \<Longrightarrow> handlers n1 = None" using n1 by (simp add: splitEdge_sel)
  assume "i < length (path n)" "i < length p" "c \<in> set (children n1)"
  then show "hd (path c) \<noteq> p ! i"
    using n1 lcp_stops [of p "path n"] i by (auto simp: splitEdge_sel hd_drop_nth)
qed

lemma walk_Suc_done:
  assumes "i = longestCommonPrefix p (path n)" "n1 = (if i < length (path n) then splitEdge n p i else n)"
    and "\<not> i < length p"
  shows "walk (Suc f) fp h p n =
           (if handlers n1 \<noteq> None then Some (Inl (duplicatePanic fp)) else Some (Inr (setHandlers n1 h fp)))"
  by (simp only: walk.simps(2) Let_def assms(1) [symmetric] assms(2) [symmetric] if_not_P [OF assms(3)])

lemma walk_Suc_slash:
  assumes "i = longestCommonPrefix p (path n)" "n1 = (if i < length (path n) then splitEdge n p i else n)"
    and "i < length p" "drop i p ! 0 = CHR ''/''" "length (children n1) = 1"
  shows "walk (Suc f) fp h p n =
           map_option (map_sum id (\<lambda>ch. setChildren n1 [ch])) (walk f fp h (drop i p) (incPrio (children n1 ! 0)))"
  by (simp only: walk.simps(2) Let_def assms(1) [symmetric] assms(2) [symmetric] if_P [OF assms(3)]
      if_P [OF conjI [OF assms(4) assms(5)]])

lemma walk_Suc_index:
  assumes "i = longestCommonPrefix p (path n)" "n1 = (if i < length (path n) then splitEdge n p i else n)"
    and "i < length p" "\<not> (drop i p ! 0 = CHR ''/'' \<and> length (children n1) = 1)"
    and "indexByte (drop i p ! 0) (indices n1) 0 = Some k"
  shows "walk (Suc f) fp h p n =
           (case incrementChildPrio n1 k of
              Inl e \<Rightarrow> Some (Inl e)
            | Inr (n2, k') \<Rightarrow>
                map_option (map_sum id (\<lambda>ch. setChildren n2 ((children n2)[k' := ch])))
                  (walk f fp h (drop i p) (children n2 ! k')))"
  by (simp only: walk.simps(2) Let_def assms(1) [symmetric] assms(2) [symmetric] if_P [OF assms(3)]
      if_not_P [OF assms(4)] assms(5)) simp

lemma walk_Suc_leaf:
  assumes "i = longestCommonPrefix p (path n)" "n1 = (if i < length (path n) then splitEdge n p i else n)"
    and "i < length p" "\<not> (drop i p ! 0 = CHR ''/'' \<and> length (children n1) = 1)"
    and "indexByte (drop i p ! 0) (indices n1) 0 = None"
    and "n2 = addChild (appendIndex n1 (drop i p ! 0)) (insertChild (Node [] [] 0 [] None fp) (drop i p) fp h)"
  shows "walk (Suc f) fp h p n =
           (case incrementChildPrio n2 (length (indices n2) - 1) of
              Inl e \<Rightarrow> Some (Inl e)
            | Inr (n3, _) \<Rightarrow> Some (Inr n3))"
  by (simp only: walk.simps(2) Let_def assms(1) [symmetric] assms(2) [symmetric] if_P [OF assms(3)]
      if_not_P [OF assms(4)] assms(5)) (simp add: assms(6))

section \<open>The slash shortcut\<close>

text \<open>
  The branch \<open>if c == '/' && len(n.children) == 1\<close> descends into the only child
  without comparing its first byte.  When that byte is not \<open>/\<close>, the common prefix in
  the child is empty, the child is split into an empty segment over a copy of itself, and
  the shortcut descends into the copy, which has the child's priority again: the loop
  repeats the same iteration forever.
\<close>

lemma walk_diverges:
  "path n \<noteq> [] \<Longrightarrow> p \<noteq> [] \<Longrightarrow> hd p = CHR ''/'' \<Longrightarrow> hd (path n) \<noteq> CHR ''/'' \<Longrightarrow>
   walk f fp h p n = None"
proof (induction f)
  case 0
  then show ?case by simp
next
  case (Suc f)
  obtain pn idx pr cs hs nfp where n: "n = Node pn idx pr cs hs nfp" by (cases n)
  have i: "longestCommonPrefix p (path n) = 0"
    using lcp_zero [of p "path n"] Suc.prems by simp
  let ?n1 = "splitEdge n p 0"
  have kids: "children ?n1 = [Node pn idx (pr - 1) cs hs nfp]" using n by (simp add: splitEdge_sel)
  have c: "drop 0 p ! 0 = CHR ''/''" using Suc.prems by (simp add: hd_conv_nth)
  have restore: "incPrio (Node pn idx (pr - 1) cs hs nfp) = n" using n by simp
  have "walk (Suc f) fp h p n =
          map_option (map_sum id (\<lambda>ch. setChildren ?n1 [ch])) (walk f fp h (drop 0 p) (incPrio (children ?n1 ! 0)))"
    using Suc.prems i kids c by (intro walk_Suc_slash [of 0]) simp_all
  then show ?case using Suc kids restore by simp
qed

section \<open>Correctness of the walk\<close>

text \<open>
  What one run of the loop from a node guarantees: either it registers the path (the new
  subtree is well formed, keeps its first byte, stores exactly one more route, the
  incoming one, and that path had no route before) or it panics with the duplicate-route
  message, and then the path had a route.
\<close>

definition walk_ok :: "'c node \<Rightarrow> string \<Rightarrow> 'c \<Rightarrow> string \<Rightarrow> go_panic + 'c node \<Rightarrow> bool" where
  "walk_ok n p h fp r =
     (case r of
        Inr n' \<Rightarrow> wf_node n' \<and> path n' \<noteq> [] \<and> hd (path n') = hd (path n) \<and>
                  set (routes n') = insert (p, h) (set (routes n)) \<and> (\<forall>h'. (p, h') \<notin> set (routes n))
      | Inl e \<Rightarrow> e = duplicatePanic fp \<and> (\<exists>h'. (p, h') \<in> set (routes n)))"

lemma walk_ok_incPrio [simp]: "walk_ok (incPrio n) p h fp r = walk_ok n p h fp r"
  by (cases r) (simp_all add: walk_ok_def)

lemma distinct_children: "wf_node n \<Longrightarrow> distinct (children n)"
  by (cases n) (auto simp: distinct_map)

lemma wf_child_unique_sel:
  "wf_node n \<Longrightarrow> c \<in> set (children n) \<Longrightarrow> d \<in> set (children n) \<Longrightarrow> hd (path c) = hd (path d) \<Longrightarrow> c = d"
  by (cases n) (simp only: node.sel, rule wf_child_unique)

lemma wf_replace_child:
  assumes wf: "wf_node m" and k: "k < length (children m)"
    and c': "wf_node c'" "path c' \<noteq> []" "hd (path c') = hd (path (children m ! k))"
  shows "wf_node (setChildren m ((children m)[k := c']))"
proof -
  let ?cs = "(children m)[k := c']"
  have "map (\<lambda>c. hd (path c)) ?cs = map (\<lambda>c. hd (path c)) (children m)"
    using k c'(3) by (simp add: map_update) (metis list_update_id nth_map)
  moreover have "c = c' \<or> c \<in> set (children m)" if "c \<in> set ?cs" for c
    using that set_update_subset_insert by fastforce
  ultimately show ?thesis
    using wf c' by (auto simp: wf_node_sel [of m] wf_node_sel [of "setChildren m ?cs"])
qed

lemma routes_replace_child:
  assumes "distinct (children m)" "k < length (children m)"
    and c': "set (routes c') = insert (q, h) (set (routes (children m ! k)))"
  shows "set (routes (setChildren m ((children m)[k := c']))) = insert (path m @ q, h) (set (routes m))"
proof -
  let ?cs = "children m"
  let ?f = "\<lambda>c. (\<lambda>(q, h). (path m @ q, h)) ` set (routes c)"
  have "set (?cs[k := c']) = insert c' (set ?cs - {?cs ! k})"
    using assms(1,2) by (rule set_update_distinct)
  then have "(\<Union>c\<in>set (?cs[k := c']). ?f c) = ?f c' \<union> (\<Union>c\<in>set ?cs - {?cs ! k}. ?f c)"
    by simp
  also have "\<dots> = insert (path m @ q, h) (?f (?cs ! k) \<union> (\<Union>c\<in>set ?cs - {?cs ! k}. ?f c))"
    using c' by auto
  also have "?f (?cs ! k) \<union> (\<Union>c\<in>set ?cs - {?cs ! k}. ?f c) = (\<Union>c\<in>set ?cs. ?f c)"
    using assms(2) by (auto dest: nth_mem)
  finally show ?thesis
    unfolding set_routes_sel [of m] set_routes_sel [of "setChildren m (?cs[k := c'])"] setChildren_sel
    by auto
qed

lemma routes_child_fresh:
  assumes wf: "wf_node m" and k: "k < length (children m)"
    and q: "q \<noteq> []" "hd q = hd (path (children m ! k))"
    and none: "\<forall>h. (q, h) \<notin> set (routes (children m ! k))"
  shows "(path m @ q, h') \<notin> set (routes m)"
proof
  assume "(path m @ q, h') \<in> set (routes m)"
  then have "(path m @ q = path m \<and> handlers m = Some h') \<or>
             (\<exists>c\<in>set (children m). \<exists>r. path m @ q = path m @ r \<and> (r, h') \<in> set (routes c))"
    by (cases m) (simp only: mem_routes_Node node.sel)
  then obtain c where c: "c \<in> set (children m)" "(q, h') \<in> set (routes c)" using q by auto
  have "path c \<noteq> []" using wf c(1) by (simp add: wf_node_children)
  then have "hd (path c) = hd q" using routes_key_hd [OF c(2)] by simp
  then have "c = children m ! k" using wf c(1) k q(2) by (intro wf_child_unique_sel) auto
  with c none show False by simp
qed

lemma walk_ok_descend:
  assumes wf: "wf_node m" and k: "k < length (children m)"
    and ok: "walk_ok (children m ! k) q h fp r'"
    and q: "q \<noteq> []" "hd q = hd (path (children m ! k))"
    and pm: "path m @ q = p" and rm: "set (routes m) = set (routes n)"
    and hm: "path m \<noteq> []" "hd (path m) = hd (path n)"
  shows "walk_ok n p h fp (map_sum id (\<lambda>ch. setChildren m ((children m)[k := ch])) r')"
proof (cases r')
  case (Inl e)
  with ok obtain h' where e: "e = duplicatePanic fp" and h': "(q, h') \<in> set (routes (children m ! k))"
    by (auto simp: walk_ok_def)
  have "(p, h') \<in> set (routes m)"
    using k h' pm by (force simp: set_routes_sel [of m])
  with Inl e rm show ?thesis by (auto simp: walk_ok_def)
next
  case (Inr c')
  from ok Inr have c': "wf_node c'" "path c' \<noteq> []" "hd (path c') = hd (path (children m ! k))"
    "set (routes c') = insert (q, h) (set (routes (children m ! k)))"
    "\<forall>h'. (q, h') \<notin> set (routes (children m ! k))"
    by (simp_all add: walk_ok_def)
  let ?m' = "setChildren m ((children m)[k := c'])"
  have "wf_node ?m'" using wf_replace_child [OF wf k c'(1-3)] .
  moreover have "set (routes ?m') = insert (p, h) (set (routes n))"
    using routes_replace_child [OF distinct_children [OF wf] k c'(4)] pm rm by simp
  moreover have "(p, h') \<notin> set (routes n)" for h'
    using routes_child_fresh [OF wf k q c'(5)] pm rm by simp
  ultimately show ?thesis using Inr hm by (simp add: walk_ok_def)
qed

lemma walk_leaf:
  assumes wf: "wf_node m" and q: "q \<noteq> []" "hd q \<notin> set (indices m)"
    and n2: "n2 = addChild (appendIndex m (hd q)) (insertChild (Node [] [] 0 [] None fp) q fp h)"
  shows "wf_node n2" "set (routes n2) = insert (path m @ q, h) (set (routes m))"
    "\<forall>h'. (path m @ q, h') \<notin> set (routes m)" "length (indices n2) - 1 < length (children n2)"
    "path n2 = path m"
proof -
  obtain pm idx pr cs hs fpm where m: "m = Node pm idx pr cs hs fpm" by (cases m)
  have n2': "n2 = Node pm (idx @ [hd q]) pr (cs @ [Node q [] 0 [] (Some h) fp]) hs fpm"
    using n2 m by simp
  have idx: "idx = map (\<lambda>c. hd (path c)) cs" using wf m by simp
  show "wf_node n2" using wf q n2' m by auto
  show "set (routes n2) = insert (path m @ q, h) (set (routes m))"
    using n2' m by (cases hs) (auto simp: set_routes_Node)
  show "\<forall>h'. (path m @ q, h') \<notin> set (routes m)"
  proof (intro allI notI)
    fix h' assume "(path m @ q, h') \<in> set (routes m)"
    with q(1) m obtain c where c: "c \<in> set cs" "(q, h') \<in> set (routes c)"
      by (auto simp: mem_routes_Node)
    then have "hd (path c) = hd q" using wf m routes_key_hd by fastforce
    then have "hd q \<in> (\<lambda>c. hd (path c)) ` set cs" using c(1) by (metis image_eqI)
    with idx q(2) m show False by simp
  qed
  show "length (indices n2) - 1 < length (children n2)" using n2' idx by simp
  show "path n2 = path m" using n2' m by simp
qed

lemma walk_correct:
  "wf_node n \<Longrightarrow> path n \<noteq> [] \<Longrightarrow> p \<noteq> [] \<Longrightarrow> hd p = hd (path n) \<Longrightarrow>
   walk f fp h p n = Some r \<Longrightarrow> walk_ok n p h fp r"
proof (induction f arbitrary: p n r)
  case 0
  then show ?case by simp
next
  case (Suc f)
  define i where "i = longestCommonPrefix p (path n)"
  define n1 where "n1 = (if i < length (path n) then splitEdge n p i else n)"
  note head = walk_head [OF Suc.prems(1-4) i_def n1_def]
  show ?case
  proof (cases "i < length p")
    case False
    then have pn1: "path n1 = p" using head(2,3) by simp
    have w: "walk (Suc f) fp h p n =
               (if handlers n1 \<noteq> None then Some (Inl (duplicatePanic fp)) else Some (Inr (setHandlers n1 h fp)))"
      using i_def n1_def False by (rule walk_Suc_done)
    show ?thesis
    proof (cases "handlers n1")
      case (Some h')
      then have "(path n1, h') \<in> set (routes n1)" by (simp add: set_routes_sel [of n1])
      then have "(p, h') \<in> set (routes n)" using pn1 head(5) by simp
      then show ?thesis using Suc.prems(5) w Some by (auto simp: walk_ok_def)
    next
      case None
      let ?n' = "setHandlers n1 h fp"
      have r: "r = Inr ?n'" using Suc.prems(5) w None by simp
      have "wf_node ?n'" using head(4) by (auto simp: wf_node_sel [of n1] wf_node_sel [of ?n'])
      moreover have "set (routes ?n') = insert (p, h) (set (routes n))"
        using None pn1 head(5) by (simp add: set_routes_sel [of n1] set_routes_sel [of ?n'])
      moreover have "(p, h') \<notin> set (routes n)" for h'
      proof
        assume "(p, h') \<in> set (routes n)"
        then have "(path n1, h') \<in> set (routes n1)" using pn1 head(5) by simp
        with None obtain c q where "c \<in> set (children n1)" "path n1 = path n1 @ q" "(q, h') \<in> set (routes c)"
          by (auto simp: set_routes_sel [of n1])
        with head(4) routes_key_hd show False by (fastforce simp: wf_node_children)
      qed
      ultimately show ?thesis using r head(6,7) by (simp add: walk_ok_def)
    qed
  next
    case True
    define q where "q = drop i p"
    have q: "q \<noteq> []" "length q < length p" "path n1 @ q = p" "drop i p ! 0 = hd q"
      using True head(1,3) by (auto simp: q_def hd_conv_nth)
    show ?thesis
    proof (cases "drop i p ! 0 = CHR ''/'' \<and> length (children n1) = 1")
      case slash: True
      then obtain ch where ch: "children n1 = [ch]" by (auto simp: length_Suc_conv)
      have w: "walk (Suc f) fp h p n =
                 map_option (map_sum id (\<lambda>c. setChildren n1 [c])) (walk f fp h q (incPrio ch))"
        using walk_Suc_slash [OF i_def n1_def True conjunct1 [OF slash] conjunct2 [OF slash]] ch
        by (simp add: q_def)
      then obtain r' where r': "walk f fp h q (incPrio ch) = Some r'"
        "r = map_sum id (\<lambda>c. setChildren n1 [c]) r'"
        using Suc.prems(5) by auto
      have chwf: "wf_node ch" "path ch \<noteq> []" using head(4) ch wf_node_children by fastforce+
      have hdch: "hd (path ch) = hd q"
      proof (rule ccontr)
        assume "hd (path ch) \<noteq> hd q"
        then have "hd (path ch) \<noteq> CHR ''/''" "hd q = CHR ''/''" using slash q(4) by simp_all
        then show False using walk_diverges [of "incPrio ch" q f fp h] chwf(2) q(1) r'(1) by simp
      qed
      have "walk_ok (incPrio ch) q h fp r'"
        using Suc.IH [OF _ _ q(1) _ r'(1)] chwf hdch by simp
      then have ok: "walk_ok (children n1 ! 0) q h fp r'" using ch by simp
      have "walk_ok n p h fp (map_sum id (\<lambda>c. setChildren n1 ((children n1)[0 := c])) r')"
        using walk_ok_descend [OF head(4) _ ok q(1) _ q(3) head(5,6,7)] ch hdch by simp
      then show ?thesis using r'(2) ch by simp
    next
      case noslash: False
      show ?thesis
      proof (cases "indexByte (drop i p ! 0) (indices n1) 0")
        case (Some k)
        have idx: "indices n1 = map (\<lambda>c. hd (path c)) (children n1)"
          using head(4) by (rule wf_node_indices)
        then have k: "k < length (children n1)" "hd (path (children n1 ! k)) = hd q"
          using indexByte_Some [OF Some] q(4) by auto
        obtain n2 k' where inc: "incrementChildPrio n1 k = Inr (n2, k')"
          using incrementChildPrio_shape [OF head(4) k(1)] by blast
        note n2 = incrementChildPrio_wf [OF head(4) k(1) inc]
        have w: "walk (Suc f) fp h p n =
                   map_option (map_sum id (\<lambda>c. setChildren n2 ((children n2)[k' := c])))
                     (walk f fp h q (children n2 ! k'))"
          using walk_Suc_index [OF i_def n1_def True noslash Some] inc by (simp add: q_def)
        then obtain r' where r': "walk f fp h q (children n2 ! k') = Some r'"
          "r = map_sum id (\<lambda>c. setChildren n2 ((children n2)[k' := c])) r'"
          using Suc.prems(5) by auto
        have kin: "children n1 ! k \<in> set (children n1)" using k(1) by simp
        have cwf: "wf_node (children n2 ! k')" "path (children n2 ! k') \<noteq> []"
          "hd q = hd (path (children n2 ! k'))"
          using n2(5) head(4) kin k(2) wf_node_children by fastforce+
        have ok: "walk_ok (children n2 ! k') q h fp r'"
          using Suc.IH [OF cwf(1,2) q(1) cwf(3) r'(1)] .
        show ?thesis
          using walk_ok_descend [OF n2(1,4) ok q(1) cwf(3)] q(3) n2(2,6) head(5,6,7) r'(2) by simp
      next
        case None
        have nq: "hd q \<notin> set (indices n1)" using indexByte_None [OF None] q(4) by simp
        define n2 where "n2 = addChild (appendIndex n1 (hd q)) (insertChild (Node [] [] 0 [] None fp) q fp h)"
        note leaf = walk_leaf [OF head(4) q(1) nq n2_def]
        obtain n3 kk where inc: "incrementChildPrio n2 (length (indices n2) - 1) = Inr (n3, kk)"
          using incrementChildPrio_shape [OF leaf(1) leaf(4)] by blast
        note n3 = incrementChildPrio_wf [OF leaf(1) leaf(4) inc]
        have "walk (Suc f) fp h p n = Some (Inr n3)"
          using walk_Suc_leaf [OF i_def n1_def True noslash None] inc q(4) by (simp add: q_def n2_def)
        then have "r = Inr n3" using Suc.prems(5) by simp
        then show ?thesis
          using n3(1,2,6) leaf(2,3,5) q(3) head(5,6,7) by (simp add: walk_ok_def)
      qed
    qed
  qed
qed

section \<open>Fuel\<close>

text \<open>
  One iteration either ends the loop with a result that does not depend on the fuel, or
  continues in a well-formed child with a strictly shorter suffix of the path.  In the
  second case the suffix starts with the child's first byte, unless the step was the
  slash shortcut into a child that does not start with \<open>/\<close>.
\<close>

lemma walk_step:
  assumes wf: "wf_node n" and ne: "path n \<noteq> []" "p \<noteq> []" and hd: "hd p = hd (path n)"
  shows "(\<exists>R. \<forall>f. walk (Suc f) fp h p n = Some R) \<or>
         (\<exists>F c q. (\<forall>f. walk (Suc f) fp h p n = map_option F (walk f fp h q c)) \<and>
            wf_node c \<and> path c \<noteq> [] \<and> q \<noteq> [] \<and> length q < length p \<and> set q \<subseteq> set (tl p) \<and>
            (hd q = hd (path c) \<or> (hd q = CHR ''/'' \<and> hd (path c) \<noteq> CHR ''/'')))"
proof -
  define i where "i = longestCommonPrefix p (path n)"
  define n1 where "n1 = (if i < length (path n) then splitEdge n p i else n)"
  note head = walk_head [OF wf ne hd i_def n1_def]
  show ?thesis
  proof (cases "i < length p")
    case False
    show ?thesis
      by (intro disjI1 exI [of _ "if handlers n1 \<noteq> None then Inl (duplicatePanic fp)
                                 else Inr (setHandlers n1 h fp)"])
         (simp del: walk.simps add: walk_Suc_done [OF i_def n1_def False])
  next
    case True
    define q where "q = drop i p"
    have "q = drop (i - 1) (tl p)" using head(1) by (simp add: q_def drop_Suc [symmetric])
    then have "set q \<subseteq> set (tl p)" by (simp add: set_drop_subset)
    then have q: "q \<noteq> []" "length q < length p" "drop i p ! 0 = hd q" "set q \<subseteq> set (tl p)"
      using True head(1) by (auto simp: q_def hd_conv_nth)
    show ?thesis
    proof (cases "drop i p ! 0 = CHR ''/'' \<and> length (children n1) = 1")
      case slash: True
      then obtain ch where ch: "children n1 = [ch]" by (auto simp: length_Suc_conv)
      have "walk (Suc f) fp h p n = map_option (map_sum id (\<lambda>c. setChildren n1 [c])) (walk f fp h q (incPrio ch))"
        for f using walk_Suc_slash [OF i_def n1_def True conjunct1 [OF slash] conjunct2 [OF slash]] ch
        by (simp add: q_def)
      moreover have "wf_node ch" "path ch \<noteq> []" using head(4) ch wf_node_children by fastforce+
      ultimately show ?thesis using q slash
        by (intro disjI2 exI [of _ "map_sum id (\<lambda>c. setChildren n1 [c])"] exI [of _ "incPrio ch"]
            exI [of _ q]) (auto simp del: walk.simps)
    next
      case noslash: False
      show ?thesis
      proof (cases "indexByte (drop i p ! 0) (indices n1) 0")
        case (Some k)
        have k: "k < length (children n1)" "hd (path (children n1 ! k)) = hd q"
          using indexByte_Some [OF Some] q(3) wf_node_indices [OF head(4)] by auto
        obtain n2 k' where inc: "incrementChildPrio n1 k = Inr (n2, k')"
          using incrementChildPrio_shape [OF head(4) k(1)] by blast
        note n2 = incrementChildPrio_wf [OF head(4) k(1) inc]
        have "walk (Suc f) fp h p n =
                map_option (map_sum id (\<lambda>c. setChildren n2 ((children n2)[k' := c])))
                  (walk f fp h q (children n2 ! k'))" for f
          using walk_Suc_index [OF i_def n1_def True noslash Some] inc by (simp add: q_def)
        moreover have "wf_node (children n2 ! k')" "path (children n2 ! k') \<noteq> []"
          "hd q = hd (path (children n2 ! k'))"
          using n2(5) head(4) k wf_node_children nth_mem by fastforce+
        ultimately show ?thesis using q by (intro disjI2 exI) (auto simp del: walk.simps)
      next
        case None
        define n2 where "n2 = addChild (appendIndex n1 (hd q)) (insertChild (Node [] [] 0 [] None fp) q fp h)"
        have nq: "hd q \<notin> set (indices n1)" using indexByte_None [OF None] q(3) by simp
        note leaf = walk_leaf [OF head(4) q(1) nq n2_def]
        obtain n3 kk where inc: "incrementChildPrio n2 (length (indices n2) - 1) = Inr (n3, kk)"
          using incrementChildPrio_shape [OF leaf(1) leaf(4)] by blast
        have "walk (Suc f) fp h p n = Some (Inr n3)" for f
          using walk_Suc_leaf [OF i_def n1_def True noslash None] inc q(3) by (simp add: q_def n2_def)
        then show ?thesis by blast
      qed
    qed
  qed
qed

text \<open>
  If the loop ends with some fuel, it ends with the same result for every fuel at least
  the length of the path: each iteration but the last consumes at least one byte.
\<close>

lemma walk_fuel_enough:
  "wf_node n \<Longrightarrow> path n \<noteq> [] \<Longrightarrow> p \<noteq> [] \<Longrightarrow> hd p = hd (path n) \<Longrightarrow>
   walk f fp h p n = Some r \<Longrightarrow> length p \<le> g \<Longrightarrow> walk g fp h p n = Some r"
proof (induction f arbitrary: p n r g)
  case 0
  then show ?case by simp
next
  case (Suc f)
  obtain g' where g: "g = Suc g'" using Suc.prems(3,6) by (cases g) auto
  from walk_step [OF Suc.prems(1-4), of fp h] show ?case
  proof
    assume "\<exists>R. \<forall>f. walk (Suc f) fp h p n = Some R"
    then show ?thesis using Suc.prems(5) g by auto
  next
    assume "\<exists>F c q. (\<forall>f. walk (Suc f) fp h p n = map_option F (walk f fp h q c)) \<and>
            wf_node c \<and> path c \<noteq> [] \<and> q \<noteq> [] \<and> length q < length p \<and> set q \<subseteq> set (tl p) \<and>
            (hd q = hd (path c) \<or> (hd q = CHR ''/'' \<and> hd (path c) \<noteq> CHR ''/''))"
    then obtain F c q where st: "\<forall>f. walk (Suc f) fp h p n = map_option F (walk f fp h q c)"
      "wf_node c" "path c \<noteq> []" "q \<noteq> []" "length q < length p"
      "hd q = hd (path c) \<or> (hd q = CHR ''/'' \<and> hd (path c) \<noteq> CHR ''/'')" by blast
    obtain r' where r': "walk f fp h q c = Some r'" "r = F r'" using st(1) Suc.prems(5) by fastforce
    have "hd q = hd (path c)" using st(6) walk_diverges [of c q f fp h] st(3,4) r'(1) by auto
    then have "walk g' fp h q c = Some r'"
      using Suc.IH [OF st(2,3,4) _ r'(1)] st(5) Suc.prems(6) g by simp
    then show ?thesis using st(1) r'(2) g by simp
  qed
qed

text \<open>On a path with no \<open>/\<close> after its first byte the loop always ends.\<close>

lemma walk_terminates:
  "wf_node n \<Longrightarrow> path n \<noteq> [] \<Longrightarrow> p \<noteq> [] \<Longrightarrow> hd p = hd (path n) \<Longrightarrow> CHR ''/'' \<notin> set (tl p) \<Longrightarrow>
   length p \<le> f \<Longrightarrow> walk f fp h p n \<noteq> None"
proof (induction f arbitrary: p n)
  case 0
  then show ?case by simp
next
  case (Suc f)
  from walk_step [OF Suc.prems(1-4), of fp h] show ?case
  proof
    assume "\<exists>R. \<forall>f. walk (Suc f) fp h p n = Some R"
    then show ?thesis by auto
  next
    assume "\<exists>F c q. (\<forall>f. walk (Suc f) fp h p n = map_option F (walk f fp h q c)) \<and>
            wf_node c \<and> path c \<noteq> [] \<and> q \<noteq> [] \<and> length q < length p \<and> set q \<subseteq> set (tl p) \<and>
            (hd q = hd (path c) \<or> (hd q = CHR ''/'' \<and> hd (path c) \<noteq> CHR ''/''))"
    then obtain F c q where st: "\<forall>f. walk (Suc f) fp h p n = map_option F (walk f fp h q c)"
      "wf_node c" "path c \<noteq> []" "q \<noteq> []" "length q < length p" "set q \<subseteq> set (tl p)"
      "hd q = hd (path c) \<or> (hd q = CHR ''/'' \<and> hd (path c) \<noteq> CHR ''/'')" by blast
    have "hd q \<in> set (tl p)" using st(4,6) by auto
    then have hq: "hd q = hd (path c)" using st(7) Suc.prems(5) by auto
    have "CHR ''/'' \<notin> set (tl q)" using st(4,6) Suc.prems(5) by (cases q) auto
    then have "walk f fp h q c \<noteq> None"
      using Suc.IH [OF st(2,3,4) hq] st(5) Suc.prems(6) by simp
    then show ?thesis using st(1) by simp
  qed
qed

section \<open>addRoute\<close>

lemma addRoute_ok:
  assumes root: "root_ok t" and p: "p \<noteq> []" "hd p = CHR ''/''" and run: "addRoute f t p h = Some r"
  shows "case r of
           Inr t' \<Rightarrow> root_ok t' \<and> set (routes t') = insert (p, h) (set (routes t)) \<and>
                     (\<forall>h'. (p, h') \<notin> set (routes t))
         | Inl e \<Rightarrow> e = duplicatePanic p \<and> (\<exists>h'. (p, h') \<in> set (routes t))"
proof (cases "path t = []")
  case True
  then obtain idx pr fp where t: "t = Node [] idx pr [] None fp"
    using root by (cases t) (auto simp: root_ok_def)
  with root have "idx = []" by (simp add: root_ok_def)
  with t run have "r = Inr (Node p [] (pr + 1) [] (Some h) p)" by (simp add: addRoute_def)
  with t p show ?thesis by (simp add: root_ok_def)
next
  case False
  with root have wf: "wf_node t" and hd: "hd (path t) = CHR ''/''" by (simp_all add: root_ok_def)
  from False run have "walk f p h p (incPrio t) = Some r" by (simp add: addRoute_def)
  then have "walk_ok (incPrio t) p h p r"
    using wf False p hd by (intro walk_correct) simp_all
  then show ?thesis using hd by (cases r) (auto simp: walk_ok_def root_ok_def)
qed

lemma route_map_fresh:
  "(\<forall>h'. (p, h') \<notin> set (routes t)) = (route_map t p = None)"
  by (simp add: route_map_None_iff)

lemma route_map_same:
  "wf_node t \<Longrightarrow> wf_node t' \<Longrightarrow> set (routes t') = set (routes t) \<Longrightarrow> route_map t' = route_map t"
  by (rule ext) (simp add: route_map_def map_of_same_pairs distinct_route_keys)

lemma route_map_insert:
  assumes "wf_node t" "wf_node t'" "set (routes t') = insert (p, h) (set (routes t))"
    and "\<forall>h'. (p, h') \<notin> set (routes t)"
  shows "route_map t' = (route_map t)(p \<mapsto> h)"
  unfolding route_map_def
  using assms by (intro map_of_insert_fresh) (auto simp: distinct_route_keys)

lemma root_ok_wf: "root_ok t \<Longrightarrow> wf_node t"
  by (simp add: root_ok_def)

text \<open>The effect of a run of \<open>addRoute\<close> that ends, read on the route map.\<close>

lemma addRoute_map:
  assumes "root_ok t" "p \<noteq> []" "hd p = CHR ''/''" "addRoute f t p h = Some r"
  shows "case r of
           Inr t' \<Rightarrow> root_ok t' \<and> route_map t p = None \<and> route_map t' = (route_map t)(p \<mapsto> h)
         | Inl e \<Rightarrow> e = duplicatePanic p \<and> route_map t p \<noteq> None"
proof (cases r)
  case (Inl e)
  then show ?thesis using addRoute_ok [OF assms] by (simp add: route_map_fresh [symmetric])
next
  case (Inr t')
  with addRoute_ok [OF assms] have ok: "root_ok t'" "set (routes t') = insert (p, h) (set (routes t))"
    "\<forall>h'. (p, h') \<notin> set (routes t)" by simp_all
  then show ?thesis
    using Inr route_map_insert [OF root_ok_wf [OF assms(1)] root_ok_wf [OF ok(1)] ok(2,3)]
    by (simp add: route_map_fresh)
qed

text \<open>
  The walk for \<open>/user/profile\<close> in the tree of \<open>/users/list\<close> splits the root at
  \<open>/user\<close> and then takes the slash shortcut into the child \<open>s/list\<close>.
\<close>

lemma users_profile_diverges:
  "addRoute g (Node ''/users/list'' [] 1 [] (Some h0) ''/users/list'') ''/user/profile'' h = None"
proof -
  have "walk g ''/user/profile'' h ''/user/profile'' (Node ''/users/list'' [] 2 [] (Some h0) ''/users/list'') = None"
  proof (cases g)
    case 0
    then show ?thesis by simp
  next
    case (Suc g')
    have "walk g' ''/user/profile'' h ''/profile'' (Node ''s/list'' [] 2 [] (Some h0) ''/users/list'') = None"
      by (rule walk_diverges) simp_all
    then show ?thesis
      using Suc by (simp add: longestCommonPrefix_ref)
  qed
  then show ?thesis by (simp add: addRoute_def)
qed

text \<open>
  Claim C1.  \<open>addRoute\<close> refines the update of a map from paths to handler chains: on
  a well-formed root and a path starting with \<open>/\<close>, a run that ends without a panic
  leaves a well-formed root whose route map is the old one with the new path bound to
  the new chain, and the path had no route before.
\<close>

theorem addRoute_refines:
  assumes "root_ok t" "p \<noteq> []" "hd p = CHR ''/''" "addRoute f t p h = Some (Inr t')"
  shows "root_ok t' \<and> route_map t p = None \<and> route_map t' = (route_map t)(p \<mapsto> h)"
proof -
  have ok: "root_ok t'" "set (routes t') = insert (p, h) (set (routes t))"
    "\<forall>h'. (p, h') \<notin> set (routes t)"
    using addRoute_ok [OF assms] by simp_all
  then show ?thesis
    using route_map_insert [OF root_ok_wf [OF assms(1)] root_ok_wf [OF ok(1)] ok(2,3)]
    by (simp add: route_map_fresh)
qed

theorem addRoute_refines_witness:
  "root_ok (Node ''/contact'' [] 1 [] (Some (1::nat)) ''/contact'') \<and>
   addRoute 3 (Node ''/contact'' [] 1 [] (Some (1::nat)) ''/contact'') ''/co'' 2 =
     Some (Inr (Node ''/co'' ''n'' 2 [Node ''ntact'' [] 1 [] (Some 1) ''/contact''] (Some 2) ''/co'')) \<and>
   route_map (Node ''/co'' ''n'' 2 [Node ''ntact'' [] 1 [] (Some 1) ''/contact''] (Some 2) ''/co'') =
     (route_map (Node ''/contact'' [] 1 [] (Some (1::nat)) ''/contact''))(''/co'' \<mapsto> 2)"
proof -
  have r: "root_ok (Node ''/contact'' [] 1 [] (Some (1::nat)) ''/contact'')"
    by (simp add: root_ok_def)
  have a: "addRoute 3 (Node ''/contact'' [] 1 [] (Some (1::nat)) ''/contact'') ''/co'' 2 =
     Some (Inr (Node ''/co'' ''n'' 2 [Node ''ntact'' [] 1 [] (Some 1) ''/contact''] (Some 2) ''/co''))"
    by code_simp
  show ?thesis using addRoute_refines [OF r _ _ a] r a by simp
qed

text \<open>
  Claim C3.  The duplicate check is exact: a run that ends panics if and only if the path
  already had a route, and the panic is the duplicate-route panic naming the path.
\<close>

theorem addRoute_duplicate:
  assumes "root_ok t" "p \<noteq> []" "hd p = CHR ''/''" "addRoute f t p h = Some r"
  shows "(\<exists>e. r = Inl e) = (route_map t p \<noteq> None) \<and> (\<forall>e. r = Inl e \<longrightarrow> e = duplicatePanic p)"
  using addRoute_ok [OF assms] by (cases r) (auto simp: route_map_fresh [symmetric])

theorem addRoute_duplicate_witness:
  "root_ok (Node ''/co'' [] 1 [] (Some (1::nat)) ''/co'') \<and>
   addRoute 3 (Node ''/co'' [] 1 [] (Some (1::nat)) ''/co'') ''/co'' 2 = Some (Inl (duplicatePanic ''/co'')) \<and>
   route_map (Node ''/co'' [] 1 [] (Some (1::nat)) ''/co'') ''/co'' \<noteq> None"
proof -
  have r: "root_ok (Node ''/co'' [] 1 [] (Some (1::nat)) ''/co'')" by (simp add: root_ok_def)
  have a: "addRoute 3 (Node ''/co'' [] 1 [] (Some (1::nat)) ''/co'') ''/co'' 2 = Some (Inl (duplicatePanic ''/co''))"
    by code_simp
  show ?thesis using addRoute_duplicate [OF r _ _ a] r a by simp
qed

text \<open>
  Claim C4.  On a well-formed root, registering a path with a single \<open>/\<close> (its first
  byte) always ends, within as many iterations as the path has bytes.
\<close>

theorem addRoute_terminates:
  assumes "root_ok t" "p = CHR ''/'' # rest" "CHR ''/'' \<notin> set rest" "length p \<le> f"
  shows "addRoute f t p h \<noteq> None"
proof (cases "path t = []")
  case True
  with assms(1) have "children t = []" by (simp add: root_ok_def)
  with True show ?thesis by (simp add: addRoute_def Let_def)
next
  case False
  with assms(1) have "wf_node t" "hd (path t) = CHR ''/''" by (simp_all add: root_ok_def)
  then have "walk f p h p (incPrio t) \<noteq> None"
    using False assms(2-4) by (intro walk_terminates) simp_all
  with False show ?thesis by (simp add: addRoute_def)
qed

theorem addRoute_terminates_witness:
  "root_ok (Node ''/contact'' [] 1 [] (Some (1::nat)) ''/contact'') \<and> CHR ''/'' \<notin> set ''co'' \<and>
   addRoute 3 (Node ''/contact'' [] 1 [] (Some (1::nat)) ''/contact'') ''/co'' 2 \<noteq> None"
proof -
  have r: "root_ok (Node ''/contact'' [] 1 [] (Some (1::nat)) ''/contact'')" by (simp add: root_ok_def)
  have "addRoute 3 (Node ''/contact'' [] 1 [] (Some (1::nat)) ''/contact'') (CHR ''/'' # ''co'') 2 \<noteq> None"
    by (rule addRoute_terminates [OF r refl]) simp_all
  then show ?thesis using r by simp
qed

text \<open>
  Claim C5.  The slash shortcut makes \<open>addRoute\<close> hang on ordinary input: after
  \<open>/users/list\<close> is registered in an empty tree, registering \<open>/user/profile\<close> never
  returns, whatever the fuel.  The first iteration splits the root at \<open>/user\<close>,
  leaving the single child \<open>s/list\<close>; the next byte of the path is \<open>/\<close>, so the
  shortcut descends into that child, and from there the loop repeats forever.
\<close>

theorem addRoute_hangs:
  "addRoute f (Node [] [] 0 [] None []) ''/users/list'' h0 =
     Some (Inr (Node ''/users/list'' [] 1 [] (Some h0) ''/users/list'')) \<and>
   addRoute g (Node ''/users/list'' [] 1 [] (Some h0) ''/users/list'') ''/user/profile'' h = None"
proof -
  have first: "addRoute f (Node [] [] 0 [] None []) ''/users/list'' h0 =
     Some (Inr (Node ''/users/list'' [] 1 [] (Some h0) ''/users/list''))"
    by (simp add: addRoute_def)
  then show ?thesis using users_profile_diverges by simp
qed

text \<open>
  Claim C6.  The priority reordering never changes what the tree matches: on a
  well-formed node and a child index in range, \<open>incrementChildPrio\<close> does not panic,
  keeps the node well formed and its route map unchanged, and moves the child, with its
  priority incremented, to a position no later than before.
\<close>

theorem incrementChildPrio_preserves:
  assumes "wf_node n" "pos < length (children n)"
  shows "\<exists>n' k. incrementChildPrio n pos = Inr (n', k) \<and> wf_node n' \<and> route_map n' = route_map n \<and>
           k \<le> pos \<and> children n' ! k = incPrio (children n ! pos)"
proof -
  obtain n' k where inc: "incrementChildPrio n pos = Inr (n', k)"
    using incrementChildPrio_shape [OF assms] by blast
  note w = incrementChildPrio_wf [OF assms inc]
  have "route_map n' = route_map n" using route_map_same [OF assms(1) w(1) w(2)] .
  then show ?thesis using inc w by blast
qed

theorem incrementChildPrio_preserves_witness:
  "wf_node (Node ''/'' ''ab'' 3 [Node ''a'' [] 1 [] (Some (1::nat)) ''/a'', Node ''b'' [] 1 [] (Some 2) ''/b''] None ''/a'') \<and>
   (\<exists>n' k. incrementChildPrio (Node ''/'' ''ab'' 3 [Node ''a'' [] 1 [] (Some (1::nat)) ''/a'', Node ''b'' [] 1 [] (Some 2) ''/b''] None ''/a'') 1 = Inr (n', k) \<and>
      wf_node n' \<and> k \<le> 1)"
proof -
  have w: "wf_node (Node ''/'' ''ab'' 3 [Node ''a'' [] 1 [] (Some (1::nat)) ''/a'', Node ''b'' [] 1 [] (Some 2) ''/b''] None ''/a'')"
    by simp
  show ?thesis using w incrementChildPrio_preserves [OF w, of 1] by auto
qed

text \<open>
  Claim C8.  The fuel a caller gives is a bound, not a parameter of the result: if the
  loop ends with some fuel, it ends with the same result for every fuel at least the
  length of the path.  So \<open>None\<close> with that much fuel means the loop does not end.
\<close>

theorem addRoute_fuel:
  assumes "root_ok t" "p \<noteq> []" "hd p = CHR ''/''" "addRoute f t p h = Some r" "length p \<le> g"
  shows "addRoute g t p h = Some r"
proof (cases "path t = []")
  case True
  with assms(1) have "children t = []" by (simp add: root_ok_def)
  with True assms(4) show ?thesis by (simp add: addRoute_def Let_def)
next
  case False
  with assms(1) have "wf_node t" "hd (path t) = CHR ''/''" by (simp_all add: root_ok_def)
  moreover from False assms(4) have "walk f p h p (incPrio t) = Some r" by (simp add: addRoute_def)
  ultimately have "walk g p h p (incPrio t) = Some r"
    using walk_fuel_enough [of "incPrio t" p f p h r g] False assms(2,3,5) by simp
  with False show ?thesis by (simp add: addRoute_def)
qed

theorem addRoute_fuel_witness:
  "addRoute 10 (Node ''/contact'' [] 1 [] (Some (1::nat)) ''/contact'') ''/co'' 2 =
     Some (Inr (Node ''/co'' ''n'' 2 [Node ''ntact'' [] 1 [] (Some 1) ''/contact''] (Some 2) ''/co''))"
proof -
  have r: "root_ok (Node ''/contact'' [] 1 [] (Some (1::nat)) ''/contact'')"
    by (simp add: root_ok_def)
  have a: "addRoute 3 (Node ''/contact'' [] 1 [] (Some (1::nat)) ''/contact'') ''/co'' 2 =
     Some (Inr (Node ''/co'' ''n'' 2 [Node ''ntact'' [] 1 [] (Some 1) ''/contact''] (Some 2) ''/co''))"
    by code_simp
  show ?thesis by (rule addRoute_fuel [OF r _ _ a]) simp_all
qed

end
