(* ===== verification/Tree_Test.thy ===== *)
theory Tree_Test
  imports Tree_Insert
begin

text \<open>
  The unit test of the tree, \<open>src/tree_test.go\<close>: \<open>Test_node_addRoute\<close> registers
  eleven static routes in an empty node, each with a one-handler chain that records the
  route it was registered for (\<open>fakeHandler\<close>), and checks eleven lookups with
  \<open>checkRequests\<close>.  A chain is modelled by the list of the values its handlers record;
  calling \<open>handlers[0]\<close> yields the first.  \<open>t.Errorf\<close> makes the check false, and a
  panic (of \<open>getValue\<close>, of \<open>addRoute\<close> or of \<open>handlers[0]\<close> on an empty chain) fails
  the test as well.  Each \<open>addRoute\<close> gets as much fuel as its path has bytes, which
  \<open>addRoute_fuel\<close> shows is enough for any run that ends.
\<close>

definition fakeHandler :: "string \<Rightarrow> string list" where
  "fakeHandler v = [v]"

text \<open>One entry of \<open>testRequests\<close>: the path, \<open>nilHandler\<close>, and the expected route.\<close>

type_synonym testRequest = "string \<times> bool \<times> string"

fun checkRequest :: "string list node \<Rightarrow> testRequest \<Rightarrow> bool" where
  "checkRequest tree (p, nilHandler, route) =
     (case getValue tree p of
        Inl _ \<Rightarrow> False
      | Inr None \<Rightarrow> nilHandler
      | Inr (Some hs) \<Rightarrow> \<not> nilHandler \<and> hs \<noteq> [] \<and> hd hs = route)"

definition checkRequests :: "string list node \<Rightarrow> testRequest list \<Rightarrow> bool" where
  "checkRequests tree reqs = list_all (checkRequest tree) reqs"

fun addRoutes :: "string list node \<Rightarrow> string list \<Rightarrow> (go_panic + string list node) option" where
  "addRoutes t [] = Some (Inr t)"
| "addRoutes t (r # rs) =
     (case addRoute (length r) t r (fakeHandler r) of
        Some (Inr t') \<Rightarrow> addRoutes t' rs
      | other \<Rightarrow> other)"

definition alpha :: string where "alpha = [CHR ''/'', CHR 0xCE, CHR 0xB1]"
definition beta :: string where "beta = [CHR ''/'', CHR 0xCE, CHR 0xB2]"

definition testRoutes :: "string list" where
  "testRoutes = [''/hi'', ''/contact'', ''/co'', ''/c'', ''/a'', ''/ab'', ''/doc/'',
                 ''/doc/go_faq.html'', ''/doc/go1.html'', alpha, beta]"

definition testRequests :: "testRequest list" where
  "testRequests =
     [(''/a'', False, ''/a''), (''/'', True, ''''), (''/hi'', False, ''/hi''),
      (''/contact'', False, ''/contact''), (''/co'', False, ''/co''), (''/con'', True, ''''),
      (''/cona'', True, ''''), (''/no'', True, ''''), (''/ab'', False, ''/ab''),
      (alpha, False, alpha), (beta, False, beta)]"

definition Test_node_addRoute :: bool where
  "Test_node_addRoute =
     (case addRoutes (Node [] [] 0 [] None []) testRoutes of
        Some (Inr tree) \<Rightarrow> checkRequests tree testRequests
      | _ \<Rightarrow> False)"

text \<open>
  The model of the repository's tree test passes: all eleven registrations
  end without a panic and every lookup returns what the test expects, including the
  two-byte UTF-8 segments of \<open>/\<alpha>\<close> and \<open>/\<beta>\<close> and the prefix-only paths \<open>/con\<close>
  and \<open>/cona\<close>.
\<close>

lemma Test_node_addRoute_passes: "Test_node_addRoute"
  by code_simp

end
