(* ===== verification/Engine.thy ===== *)
theory Engine
  imports Tree_Insert
begin

text \<open>
  The method tree table and the router facade of the engine: \<open>methodTree\<close>,
  \<open>methodTrees.get\<close> (\<open>src/unnamed/part_003\<close> lines 94--108), the \<open>Engine\<close> struct,
  \<open>New\<close> and \<open>Engine.addRoute\<close> (\<open>src/unnamed/part_000\<close> lines 26--92), and the
  route-finding loop of \<open>handleHTTPRequest\<close> (lines 132--156).  A handler chain is a
  list of handlers of type \<open>'h\<close>; the trees store chains.  The root of a method tree is
  a pointer that \<open>Engine.addRoute\<close> mutates in place; the model writes the new root
  back into the first table entry for the method (\<open>putRoot\<close>), which is the entry
  \<open>get\<close> returns.  A panic is fatal (the spec treats registration errors as
  configuration bugs), so the state it leaves behind is not modelled.
\<close>

section \<open>Method tree table\<close>

record 'c methodTree =
  httpMethod :: string
  root :: "'c node"

type_synonym 'c methodTrees = "'c methodTree list"

fun get :: "'c methodTrees \<Rightarrow> string \<Rightarrow> 'c node option" where
  "get [] m = None"
| "get (t # ts) m = (if httpMethod t = m then Some (root t) else get ts m)"

text \<open>Mutation through the pointer \<open>get\<close> returned: the first entry for the method.\<close>

fun putRoot :: "'c methodTrees \<Rightarrow> string \<Rightarrow> 'c node \<Rightarrow> 'c methodTrees" where
  "putRoot [] m r = []"
| "putRoot (t # ts) m r = (if httpMethod t = m then t\<lparr>root := r\<rparr> # ts else t # putRoot ts m r)"

section \<open>Engine\<close>

text \<open>
  \<open>RouterGroup\<close> (\<open>src/unnamed/part_001\<close> lines 70--75) without its \<open>engine\<close>
  back-pointer: the operations of a group that reach the engine take the engine state
  as an argument.  \<open>isRoot\<close> is the field \<open>root\<close>.
\<close>

record 'h RouterGroup =
  Handlers :: "'h list"
  basePath :: string
  isRoot :: bool

record 'h Engine =
  RouterGroup :: "'h RouterGroup"
  trees :: "'h list methodTree list"
  UseH2C :: bool

definition New :: "'h Engine" where
  "New = \<lparr>RouterGroup = \<lparr>Handlers = [], basePath = ''/'', isRoot = False\<rparr>,
          trees = [], UseH2C = True\<rparr>"

definition pathPanic :: go_panic where
  "pathPanic = Panic (''path must begin with '' @ [CHR 0x27, CHR ''/'', CHR 0x27])"

definition methodPanic :: go_panic where
  "methodPanic = Panic ''HTTP method can not be empty''"

definition handlersPanic :: go_panic where
  "handlersPanic = Panic ''there must be at least one handler''"

text \<open>
  Lines 85--91: the root of the method's tree, created and appended to the table on
  the first registration of the method, and the tree's \<open>addRoute\<close> on it, whose
  result is written back through the pointer.
\<close>

definition addToTree ::
  "nat \<Rightarrow> 'h Engine \<Rightarrow> 'h list methodTree list \<Rightarrow> string \<Rightarrow> 'h list node \<Rightarrow> string \<Rightarrow> 'h list
   \<Rightarrow> (go_panic + 'h Engine) option" where
  "addToTree fuel engine ts m r p hs =
     map_option (map_sum id (\<lambda>r'. engine\<lparr>trees := putRoot ts m r'\<rparr>)) (addRoute fuel r p hs)"

text \<open>
  The three \<open>assert1\<close> calls in their order (\<open>path[0]\<close> on an empty path is an index
  panic), then the lookup or creation of the method's root.  \<open>debugPrintRoute\<close> only
  prints and is left out.
\<close>

definition Engine_addRoute ::
  "nat \<Rightarrow> 'h Engine \<Rightarrow> string \<Rightarrow> string \<Rightarrow> 'h list \<Rightarrow> (go_panic + 'h Engine) option" where
  "Engine_addRoute fuel engine m p hs =
     (if p = [] then Some (Inl IndexOutOfRange)
      else if hd p \<noteq> CHR ''/'' then Some (Inl pathPanic)
      else if m = [] then Some (Inl methodPanic)
      else if hs = [] then Some (Inl handlersPanic)
      else (case get (trees engine) m of
              None \<Rightarrow> addToTree fuel engine (trees engine @ [\<lparr>httpMethod = m, root = Node [] [] 0 [] None ''/''\<rparr>]) m
                        (Node [] [] 0 [] None ''/'') p hs
            | Some r \<Rightarrow> addToTree fuel engine (trees engine) m r p hs))"

text \<open>
  The loop of \<open>handleHTTPRequest\<close> that finds the chain for a request: the first tree
  of the method is searched, and a miss there breaks out of the loop.
\<close>

fun findHandlers :: "'h list methodTrees \<Rightarrow> string \<Rightarrow> string \<Rightarrow> go_panic + 'h list option" where
  "findHandlers [] m p = Inr None"
| "findHandlers (t # ts) m p = (if httpMethod t \<noteq> m then findHandlers ts m p else getValue (root t) p)"

section \<open>Specification\<close>

text \<open>
  The routes of the engine: for each method, the route map of its tree.  The invariant
  asks every root to satisfy \<open>root_ok\<close>.
\<close>

definition engine_routes :: "'h Engine \<Rightarrow> string \<Rightarrow> string \<rightharpoonup> 'h list" where
  "engine_routes e m = (case get (trees e) m of None \<Rightarrow> Map.empty | Some r \<Rightarrow> route_map r)"

definition engine_ok :: "'h Engine \<Rightarrow> bool" where
  "engine_ok e = list_all (\<lambda>t. root_ok (root t)) (trees e)"

section \<open>The method table\<close>

lemma get_Some_root: "get ts m = Some r \<Longrightarrow> \<exists>t\<in>set ts. root t = r"
  by (induction ts) (auto split: if_splits)

lemma get_None_iff: "(get ts m = None) = (m \<notin> httpMethod ` set ts)"
  by (induction ts) auto

lemma get_append:
  "get (ts @ [t]) m = (case get ts m of None \<Rightarrow> (if httpMethod t = m then Some (root t) else None) | Some r \<Rightarrow> Some r)"
  by (induction ts) auto

lemma get_putRoot:
  "get (putRoot ts m r) m' = (if m' = m \<and> get ts m \<noteq> None then Some r else get ts m')"
  by (induction ts) auto

lemma putRoot_ok:
  "list_all (\<lambda>t. root_ok (root t)) ts \<Longrightarrow> root_ok r \<Longrightarrow> list_all (\<lambda>t. root_ok (root t)) (putRoot ts m r)"
  by (induction ts) auto

lemma root_ok_newRoot: "root_ok (Node [] [] 0 [] None ''/'')"
  by (simp add: root_ok_def)

lemma engine_ok_get: "engine_ok e \<Longrightarrow> get (trees e) m = Some r \<Longrightarrow> root_ok r"
  using get_Some_root [of "trees e" m r] by (auto simp: engine_ok_def list_all_iff)

lemma engine_routes_get: "get (trees e) m = Some r \<Longrightarrow> engine_routes e m = route_map r"
  by (simp add: engine_routes_def)

lemma route_map_newRoot: "route_map (Node [] [] 0 [] None ''/'') = Map.empty"
  by (simp add: route_map_def)

text \<open>
  After the asserts, \<open>Engine.addRoute\<close> runs the tree's \<open>addRoute\<close> on a root that
  satisfies \<open>root_ok\<close> and whose route map is the engine's routes of the method, in a
  table that \<open>get\<close> reads as before for every other method.
\<close>

lemma Engine_addRoute_root:
  assumes ok: "engine_ok e" and p: "p \<noteq> []" "hd p = CHR ''/''" and m: "m \<noteq> []" and hs: "hs \<noteq> []"
  shows "\<exists>ts r. Engine_addRoute f e m p hs = addToTree f e ts m r p hs \<and> root_ok r \<and>
           list_all (\<lambda>t. root_ok (root t)) ts \<and> get ts m = Some r \<and>
           route_map r = engine_routes e m \<and> (\<forall>m'. m' \<noteq> m \<longrightarrow> get ts m' = get (trees e) m')"
proof (cases "get (trees e) m")
  case None
  let ?ts = "trees e @ [\<lparr>httpMethod = m, root = Node [] [] 0 [] None ''/''\<rparr>]"
  have "Engine_addRoute f e m p hs = addToTree f e ?ts m (Node [] [] 0 [] None ''/'') p hs"
    using None p m hs by (simp add: Engine_addRoute_def)
  moreover have "list_all (\<lambda>t. root_ok (root t)) ?ts"
    using ok by (simp add: engine_ok_def root_ok_newRoot)
  ultimately show ?thesis
    using None root_ok_newRoot
    by (intro exI [of _ ?ts] exI [of _ "Node [] [] 0 [] None ''/''"])
       (simp add: get_append engine_routes_def route_map_newRoot split: option.split)
next
  case (Some r)
  have "Engine_addRoute f e m p hs = addToTree f e (trees e) m r p hs"
    using Some p m hs by (simp add: Engine_addRoute_def)
  then show ?thesis
    using Some ok engine_ok_get [OF ok Some] engine_routes_get [OF Some]
    by (intro exI [of _ "trees e"] exI [of _ r]) (simp add: engine_ok_def)
qed

text \<open>
  The effect of a registration that ends, read on the engine's routes: it succeeds with
  the route map of the method updated at the path, or it panics as a duplicate.
\<close>

lemma Engine_addRoute_update:
  assumes ok: "engine_ok e" and p: "p \<noteq> []" "hd p = CHR ''/''" and m: "m \<noteq> []" and hs: "hs \<noteq> []"
    and run: "Engine_addRoute f e m p hs = Some res"
  shows "case res of
           Inr e' \<Rightarrow> engine_ok e' \<and> engine_routes e m p = None \<and>
                     engine_routes e' = (engine_routes e)(m := (engine_routes e m)(p \<mapsto> hs))
         | Inl err \<Rightarrow> err = duplicatePanic p \<and> engine_routes e m p \<noteq> None"
proof -
  obtain ts r where r: "Engine_addRoute f e m p hs = addToTree f e ts m r p hs" "root_ok r"
    "list_all (\<lambda>t. root_ok (root t)) ts" "get ts m = Some r" "route_map r = engine_routes e m"
    "\<forall>m'. m' \<noteq> m \<longrightarrow> get ts m' = get (trees e) m'"
    using Engine_addRoute_root [OF ok p m hs] by blast
  obtain res' where tr: "addRoute f r p hs = Some res'"
    and res: "res = map_sum id (\<lambda>r'. e\<lparr>trees := putRoot ts m r'\<rparr>) res'"
    using run r(1) by (auto simp: addToTree_def)
  note am = addRoute_map [OF r(2) p tr]
  show ?thesis
  proof (cases res')
    case (Inl err)
    then show ?thesis using am res r(5) by simp
  next
    case (Inr r')
    then have new: "root_ok r'" "route_map r p = None" "route_map r' = (route_map r)(p \<mapsto> hs)"
      using am by simp_all
    have "engine_routes (e\<lparr>trees := putRoot ts m r'\<rparr>) m' =
          ((engine_routes e)(m := (engine_routes e m)(p \<mapsto> hs))) m'" for m'
      using r(4,5,6) new(3) by (cases "m' = m") (simp_all add: engine_routes_def get_putRoot)
    then show ?thesis
      using Inr res new r(3,5) putRoot_ok [OF r(3) new(1)] by (auto simp: engine_ok_def)
  qed
qed

lemma findHandlers_get:
  "findHandlers ts m p = (case get ts m of None \<Rightarrow> Inr None | Some r \<Rightarrow> getValue r p)"
  by (induction ts) auto

lemma findHandlers_routes: "engine_ok e \<Longrightarrow> findHandlers (trees e) m p = Inr (engine_routes e m p)"
  by (cases "get (trees e) m")
     (auto simp: findHandlers_get engine_routes_def getValue_route_map root_ok_wf
           dest: engine_ok_get)

section \<open>Claims on the engine\<close>

text \<open>
  Claim C9.  \<open>Engine.addRoute\<close> refines the update of a table from methods and paths
  to handler chains: on a well-formed engine and arguments that pass the asserts, a
  registration that ends without a panic keeps the engine well formed, the pair had no
  route before, and the table after is the table before with the chain bound at the
  method and path; every other method keeps its routes.
\<close>

theorem Engine_addRoute_refines:
  assumes "engine_ok e" "p \<noteq> []" "hd p = CHR ''/''" "m \<noteq> []" "hs \<noteq> []"
    and "Engine_addRoute f e m p hs = Some (Inr e')"
  shows "engine_ok e' \<and> engine_routes e m p = None \<and>
         engine_routes e' = (engine_routes e)(m := (engine_routes e m)(p \<mapsto> hs))"
  using Engine_addRoute_update [OF assms] by simp

theorem Engine_addRoute_refines_witness:
  "engine_ok (New :: nat Engine) \<and>
   Engine_addRoute 2 (New :: nat Engine) ''GET'' ''/a'' [1] =
     Some (Inr (New\<lparr>trees := [\<lparr>httpMethod = ''GET'', root = Node ''/a'' [] 1 [] (Some [1]) ''/a''\<rparr>]\<rparr>)) \<and>
   engine_routes (New\<lparr>trees := [\<lparr>httpMethod = ''GET'', root = Node ''/a'' [] 1 [] (Some [1::nat]) ''/a''\<rparr>]\<rparr>) =
     (engine_routes (New :: nat Engine))(''GET'' := (engine_routes (New :: nat Engine) ''GET'')(''/a'' \<mapsto> [1]))"
proof -
  have ok: "engine_ok (New :: nat Engine)" by (simp add: engine_ok_def New_def)
  have run: "Engine_addRoute 2 (New :: nat Engine) ''GET'' ''/a'' [1] =
     Some (Inr (New\<lparr>trees := [\<lparr>httpMethod = ''GET'', root = Node ''/a'' [] 1 [] (Some [1]) ''/a''\<rparr>]\<rparr>))"
    by code_simp
  show ?thesis using Engine_addRoute_refines [OF ok _ _ _ _ run] ok run by simp
qed

text \<open>
  Claim C10.  The lookup of \<open>handleHTTPRequest\<close> is exact: on a well-formed engine
  it never panics, returns the chain the engine's table holds for the method and path,
  and returns no chain for a method that has no tree.
\<close>

theorem findHandlers_correct:
  assumes "engine_ok e"
  shows "findHandlers (trees e) m p = Inr (engine_routes e m p) \<and>
         (m \<notin> httpMethod ` set (trees e) \<longrightarrow> findHandlers (trees e) m p = Inr None)"
proof -
  have "m \<notin> httpMethod ` set (trees e) \<Longrightarrow> get (trees e) m = None" by (simp add: get_None_iff)
  then show ?thesis using findHandlers_routes [OF assms] by (auto simp: engine_routes_def)
qed

theorem findHandlers_correct_witness:
  "engine_ok (New\<lparr>trees := [\<lparr>httpMethod = ''GET'', root = Node ''/a'' [] 1 [] (Some [1::nat]) ''/a''\<rparr>]\<rparr>) \<and>
   findHandlers (trees (New\<lparr>trees := [\<lparr>httpMethod = ''GET'', root = Node ''/a'' [] 1 [] (Some [1::nat]) ''/a''\<rparr>]\<rparr>))
     ''GET'' ''/a'' = Inr (Some [1]) \<and>
   findHandlers (trees (New\<lparr>trees := [\<lparr>httpMethod = ''GET'', root = Node ''/a'' [] 1 [] (Some [1::nat]) ''/a''\<rparr>]\<rparr>))
     ''POST'' ''/a'' = Inr None"
proof -
  have ok: "engine_ok (New\<lparr>trees := [\<lparr>httpMethod = ''GET'', root = Node ''/a'' [] 1 [] (Some [1::nat]) ''/a''\<rparr>]\<rparr>)"
    by (simp add: engine_ok_def root_ok_def)
  show ?thesis
    using ok findHandlers_correct [OF ok, of "''GET''" "''/a''"] findHandlers_correct [OF ok, of "''POST''" "''/a''"]
    by (simp add: engine_routes_def route_map_def)
qed

text \<open>
  Claim C11.  The panics of \<open>Engine.addRoute\<close> are exactly its asserts and the
  duplicate check: a registration that ends panics if and only if the path is empty,
  does not start with \<open>/\<close>, the method is empty, the chain is empty, or the method
  already has a route at the path; the panic is the first of these that applies, in the
  order of the source.
\<close>

theorem Engine_addRoute_panics:
  assumes "engine_ok e" "Engine_addRoute f e m p hs = Some r"
  shows "(\<exists>err. r = Inl err) =
           (p = [] \<or> hd p \<noteq> CHR ''/'' \<or> m = [] \<or> hs = [] \<or> engine_routes e m p \<noteq> None) \<and>
         (\<forall>err. r = Inl err \<longrightarrow>
           err = (if p = [] then IndexOutOfRange else if hd p \<noteq> CHR ''/'' then pathPanic
                  else if m = [] then methodPanic else if hs = [] then handlersPanic
                  else duplicatePanic p))"
proof (cases "p = [] \<or> hd p \<noteq> CHR ''/'' \<or> m = [] \<or> hs = []")
  case True
  then show ?thesis using assms(2) by (auto simp: Engine_addRoute_def)
next
  case False
  then have v: "p \<noteq> []" "hd p = CHR ''/''" "m \<noteq> []" "hs \<noteq> []" by simp_all
  show ?thesis using Engine_addRoute_update [OF assms(1) v assms(2)] v by (cases r) auto
qed

theorem Engine_addRoute_panics_witness:
  "engine_ok (New :: nat Engine) \<and> Engine_addRoute 2 (New :: nat Engine) ''GET'' ''a'' [1] = Some (Inl pathPanic) \<and>
   Engine_addRoute 2 (New :: nat Engine) ''GET'' ''/a'' [] = Some (Inl handlersPanic)"
proof -
  have ok: "engine_ok (New :: nat Engine)" by (simp add: engine_ok_def New_def)
  have a: "Engine_addRoute 2 (New :: nat Engine) ''GET'' ''a'' [1] = Some (Inl pathPanic)"
    by (simp add: Engine_addRoute_def)
  have b: "Engine_addRoute 2 (New :: nat Engine) ''GET'' ''/a'' [] = Some (Inl handlersPanic)"
    by (simp add: Engine_addRoute_def)
  show ?thesis using Engine_addRoute_panics [OF ok a] Engine_addRoute_panics [OF ok b] ok a b by simp
qed

end
