(* ===== verification/Group.thy ===== *)
theory Group
  imports Engine
begin

text \<open>
  Route groups (\<open>src/unnamed/part_001\<close> lines 80--179) and the path helpers of
  \<open>src/utils.go\<close> (lines 11--46).  A group carries a base path and a middleware chain;
  \<open>handle\<close> joins the base path with the relative path, appends the route's handler to
  the group's chain and registers the result with \<open>Engine.addRoute\<close>.  The handler
  passed to \<open>handle\<close> is the \<open>HandlerFunc\<close> that \<open>convertHandler\<close> builds by
  reflection (\<open>src/convert.go\<close>, theory \<open>Convert\<close>); here it is taken as given.
  \<open>handle\<close> gives \<open>Engine.addRoute\<close> as much fuel as the absolute path has bytes,
  which \<open>addRoute_fuel\<close> shows is enough for every run that ends.

  \<open>joinPaths\<close> calls Go's \<open>path.Join\<close>, a library function outside the repository.
  It is modelled from its documentation: \<open>Join\<close> joins the non-empty elements with
  \<open>/\<close> and applies \<open>Clean\<close>, which drops empty and \<open>.\<close> elements, resolves \<open>..\<close>
  against the preceding element (at the root it is dropped), keeps a leading \<open>/\<close>, and
  turns an empty result into \<open>.\<close>.
\<close>

section \<open>Go's path.Clean and path.Join\<close>

fun split_slash :: "string \<Rightarrow> string list" where
  "split_slash [] = [[]]"
| "split_slash (c # cs) =
     (if c = CHR ''/'' then [] # split_slash cs
      else (case split_slash cs of [] \<Rightarrow> [[c]] | w # ws \<Rightarrow> (c # w) # ws))"

text \<open>The stack of kept elements, last element first.\<close>

fun clean_elems :: "bool \<Rightarrow> string list \<Rightarrow> string list \<Rightarrow> string list" where
  "clean_elems rooted st [] = st"
| "clean_elems rooted st (e # es) =
     (if e = [] \<or> e = ''.'' then clean_elems rooted st es
      else if e = ''..'' then
        (case st of
           t # st' \<Rightarrow> (if t \<noteq> ''..'' then clean_elems rooted st' es else clean_elems rooted (e # st) es)
         | [] \<Rightarrow> (if rooted then clean_elems rooted [] es else clean_elems rooted [e] es))
      else clean_elems rooted (e # st) es)"

text \<open>\<open>strings.Join(elems, "/")\<close>.\<close>

fun joinSlash :: "string list \<Rightarrow> string" where
  "joinSlash [] = []"
| "joinSlash [x] = x"
| "joinSlash (x # xs) = x @ ''/'' @ joinSlash xs"

definition pathClean :: "string \<Rightarrow> string" where
  "pathClean p =
     (if p = [] then ''.''
      else (let rooted = (hd p = CHR ''/'');
                body = joinSlash (rev (clean_elems rooted [] (split_slash p)))
            in if rooted then CHR ''/'' # body else if body = [] then ''.'' else body))"

definition pathJoin :: "string \<Rightarrow> string \<Rightarrow> string" where
  "pathJoin a b = (if a \<noteq> [] then pathClean (a @ ''/'' @ b) else if b \<noteq> [] then pathClean b else [])"

section \<open>utils.go\<close>

definition lastCharPanic :: go_panic where
  "lastCharPanic = Panic (''The length of the string can'' @ [CHR 0x27] @ ''t be 0'')"

definition lastChar :: "string \<Rightarrow> go_panic + char" where
  "lastChar str = (if str = [] then Inl lastCharPanic else Inr (last str))"

text \<open>
  \<open>joinPaths\<close>: an empty relative path gives the base path; otherwise the joined path
  gets back the trailing slash of the relative path that \<open>Clean\<close> removed.
\<close>

definition joinPaths :: "string \<Rightarrow> string \<Rightarrow> go_panic + string" where
  "joinPaths absolutePath relativePath =
     (if relativePath = [] then Inr absolutePath
      else (let finalPath = pathJoin absolutePath relativePath in
            case lastChar relativePath of
              Inl e \<Rightarrow> Inl e
            | Inr lr \<Rightarrow> (if lr = CHR ''/'' then
                           (case lastChar finalPath of
                              Inl e \<Rightarrow> Inl e
                            | Inr lf \<Rightarrow> Inr (if lf \<noteq> CHR ''/'' then finalPath @ ''/'' else finalPath))
                         else Inr finalPath)))"

definition resolveAddress :: "string \<Rightarrow> string" where
  "resolveAddress addr = (if addr = [] then '':8080'' else addr)"

text \<open>\<open>HandlersChain.Last\<close> (\<open>src/unnamed/part_000\<close> lines 18--24); \<open>None\<close> is nil.\<close>

definition Last :: "'h list \<Rightarrow> 'h option" where
  "Last c = (if length c > 0 then Some (c ! (length c - 1)) else None)"

section \<open>RouterGroup\<close>

definition combineHandlers :: "'h RouterGroup \<Rightarrow> 'h list \<Rightarrow> 'h list" where
  "combineHandlers g hs = Handlers g @ hs"

definition calculateAbsolutePath :: "'h RouterGroup \<Rightarrow> string \<Rightarrow> go_panic + string" where
  "calculateAbsolutePath g rel = joinPaths (basePath g) rel"

definition handle ::
  "'h RouterGroup \<Rightarrow> 'h Engine \<Rightarrow> string \<Rightarrow> string \<Rightarrow> 'h \<Rightarrow> (go_panic + 'h Engine) option" where
  "handle g e m rel h =
     (case calculateAbsolutePath g rel of
        Inl err \<Rightarrow> Some (Inl err)
      | Inr absolutePath \<Rightarrow>
          Engine_addRoute (length absolutePath) e m absolutePath
            (combineHandlers g [h]))"

definition Use :: "'h RouterGroup \<Rightarrow> 'h list \<Rightarrow> 'h RouterGroup" where
  "Use g middleware = g\<lparr>Handlers := Handlers g @ middleware\<rparr>"

text \<open>\<open>Engine.Use\<close> (\<open>src/unnamed/part_000\<close> lines 71--76) acts on the embedded group.\<close>

definition Engine_Use :: "'h Engine \<Rightarrow> 'h list \<Rightarrow> 'h Engine" where
  "Engine_Use e middleware = e\<lparr>RouterGroup := Use (RouterGroup e) middleware\<rparr>"

definition Group :: "'h RouterGroup \<Rightarrow> string \<Rightarrow> 'h list \<Rightarrow> go_panic + 'h RouterGroup" where
  "Group g rel hs =
     (case calculateAbsolutePath g rel of
        Inl err \<Rightarrow> Inl err
      | Inr bp \<Rightarrow> Inr \<lparr>Handlers = combineHandlers g hs, basePath = bp, isRoot = False\<rparr>)"

definition POST where "POST g e rel h = handle g e ''POST'' rel h"
definition GET where "GET g e rel h = handle g e ''GET'' rel h"
definition DELETE where "DELETE g e rel h = handle g e ''DELETE'' rel h"
definition PATCH where "PATCH g e rel h = handle g e ''PATCH'' rel h"
definition PUT where "PUT g e rel h = handle g e ''PUT'' rel h"
definition OPTIONS where "OPTIONS g e rel h = handle g e ''OPTIONS'' rel h"
definition HEAD where "HEAD g e rel h = handle g e ''HEAD'' rel h"

section \<open>Paths\<close>

lemma joinSlash_Cons: "xs \<noteq> [] \<Longrightarrow> joinSlash (x # xs) = x @ ''/'' @ joinSlash xs"
  by (cases xs) simp_all

lemma pathClean_nonempty: "pathClean p \<noteq> []"
  by (simp add: pathClean_def Let_def)

lemma pathClean_rooted: "p \<noteq> [] \<Longrightarrow> hd p = CHR ''/'' \<Longrightarrow> hd (pathClean p) = CHR ''/''"
  by (simp add: pathClean_def Let_def)

lemma pathJoin_nonempty: "b \<noteq> [] \<Longrightarrow> pathJoin a b \<noteq> []"
  by (simp add: pathJoin_def pathClean_nonempty)

lemma pathJoin_rooted: "a \<noteq> [] \<Longrightarrow> hd a = CHR ''/'' \<Longrightarrow> hd (pathJoin a b) = CHR ''/''"
  by (simp add: pathJoin_def pathClean_rooted)

text \<open>
  \<open>joinPaths\<close> never reaches the panic of \<open>lastChar\<close>; its result is not empty, keeps
  a trailing slash of the relative path, and starts with \<open>/\<close> when the base does.
\<close>

lemma joinPaths_Inr:
  "\<exists>r. joinPaths a rel = Inr r \<and> (rel \<noteq> [] \<longrightarrow> r \<noteq> [] \<and> (last rel = CHR ''/'' \<longrightarrow> last r = CHR ''/'')) \<and>
       (a \<noteq> [] \<longrightarrow> hd a = CHR ''/'' \<longrightarrow> r \<noteq> [] \<and> hd r = CHR ''/'')"
proof (cases "rel = []")
  case True
  then show ?thesis by (simp add: joinPaths_def)
next
  case False
  let ?f = "pathJoin a rel"
  have f: "?f \<noteq> []" using pathJoin_nonempty [OF False] .
  let ?r = "if last rel = CHR ''/'' \<and> last ?f \<noteq> CHR ''/'' then ?f @ ''/'' else ?f"
  have j: "joinPaths a rel = Inr ?r" using False f by (simp add: joinPaths_def lastChar_def Let_def)
  have "a \<noteq> [] \<Longrightarrow> hd a = CHR ''/'' \<Longrightarrow> hd ?r = CHR ''/''" using pathJoin_rooted [of a rel] f by simp
  then show ?thesis using j f False by (intro exI [of _ ?r]) simp
qed

section \<open>Registration through a group\<close>

lemma combineHandlers_nonempty: "combineHandlers g [h] \<noteq> []"
  by (simp add: combineHandlers_def)

lemma handle_addRoute:
  assumes "basePath g \<noteq> []" "hd (basePath g) = CHR ''/''"
  obtains ap where "calculateAbsolutePath g rel = Inr ap" "ap \<noteq> []" "hd ap = CHR ''/''"
    and "handle g e m rel h = Engine_addRoute (length ap) e m ap (Handlers g @ [h])"
proof -
  obtain ap where "joinPaths (basePath g) rel = Inr ap" "ap \<noteq> []" "hd ap = CHR ''/''"
    using joinPaths_Inr [of "basePath g" rel] assms by blast
  then show ?thesis
    using that by (simp add: calculateAbsolutePath_def handle_def combineHandlers_def)
qed

text \<open>Registration through a group, read on the engine's table of routes.\<close>

lemma handle_update:
  assumes "engine_ok e" "basePath g \<noteq> []" "hd (basePath g) = CHR ''/''" "m \<noteq> []"
    and "handle g e m rel h = Some res"
  shows "\<exists>ap. calculateAbsolutePath g rel = Inr ap \<and> ap \<noteq> [] \<and> hd ap = CHR ''/'' \<and>
           (case res of
              Inr e' \<Rightarrow> engine_ok e' \<and> engine_routes e m ap = None \<and>
                        engine_routes e' = (engine_routes e)(m := (engine_routes e m)(ap \<mapsto> Handlers g @ [h]))
            | Inl err \<Rightarrow> err = duplicatePanic ap \<and> engine_routes e m ap \<noteq> None)"
proof -
  obtain ap where ap: "calculateAbsolutePath g rel = Inr ap" "ap \<noteq> []" "hd ap = CHR ''/''"
    and run: "handle g e m rel h = Engine_addRoute (length ap) e m ap (Handlers g @ [h])"
    using handle_addRoute [OF assms(2,3)] by metis
  have "Engine_addRoute (length ap) e m ap (Handlers g @ [h]) = Some res" using run assms(5) by simp
  from Engine_addRoute_update [OF assms(1) ap(2,3) assms(4) _ this] ap show ?thesis by auto
qed

section \<open>Claims on groups\<close>

text \<open>
  Claim C18.  \<open>joinPaths\<close> on a base path that starts with \<open>/\<close> never panics: the
  result starts with \<open>/\<close>, so the asserts of \<open>Engine.addRoute\<close> on the path hold,
  and a trailing slash of the relative path survives \<open>path.Join\<close>.
\<close>

theorem joinPaths_rooted:
  assumes "a \<noteq> []" "hd a = CHR ''/''"
  shows "\<exists>r. joinPaths a rel = Inr r \<and> r \<noteq> [] \<and> hd r = CHR ''/'' \<and>
             (rel \<noteq> [] \<longrightarrow> last rel = CHR ''/'' \<longrightarrow> last r = CHR ''/'')"
  using joinPaths_Inr [of a rel] assms by auto

theorem joinPaths_rooted_witness:
  "joinPaths ''/api'' ''v1/users/'' = Inr ''/api/v1/users/'' \<and>
   (\<exists>r. joinPaths ''/api'' ''v1/users/'' = Inr r \<and> r \<noteq> [] \<and> hd r = CHR ''/'' \<and> last r = CHR ''/'')"
proof -
  have j: "joinPaths ''/api'' ''v1/users/'' = Inr ''/api/v1/users/''" by code_simp
  show ?thesis using joinPaths_rooted [of "''/api''" "''v1/users/''"] j by simp
qed

text \<open>
  Claim C19.  Registering a route through a group whose base path starts with \<open>/\<close>
  registers, at the joined path, the group's middleware followed by the route's handler;
  every other route of every method is unchanged, and the only panic is the duplicate
  check.
\<close>

theorem handle_refines:
  assumes "engine_ok e" "basePath g \<noteq> []" "hd (basePath g) = CHR ''/''" "m \<noteq> []"
    and "handle g e m rel h = Some res"
  shows "\<exists>ap. calculateAbsolutePath g rel = Inr ap \<and> hd ap = CHR ''/'' \<and>
           (case res of
              Inr e' \<Rightarrow> engine_ok e' \<and> engine_routes e m ap = None \<and>
                        engine_routes e' = (engine_routes e)(m := (engine_routes e m)(ap \<mapsto> Handlers g @ [h]))
            | Inl err \<Rightarrow> err = duplicatePanic ap \<and> engine_routes e m ap \<noteq> None)"
  using handle_update [OF assms] by blast

theorem handle_refines_witness:
  "engine_ok (New :: nat Engine) \<and>
   handle (RouterGroup (New :: nat Engine)) New ''GET'' ''ping'' 7 =
     Some (Inr (New\<lparr>trees := [\<lparr>httpMethod = ''GET'', root = Node ''/ping'' [] 1 [] (Some [7]) ''/ping''\<rparr>]\<rparr>)) \<and>
   engine_routes (New\<lparr>trees := [\<lparr>httpMethod = ''GET'', root = Node ''/ping'' [] 1 [] (Some [7::nat]) ''/ping''\<rparr>]\<rparr>)
     ''GET'' ''/ping'' = Some [7]"
proof -
  have ok: "engine_ok (New :: nat Engine)" by (simp add: engine_ok_def New_def)
  have run: "handle (RouterGroup (New :: nat Engine)) New ''GET'' ''ping'' 7 =
     Some (Inr (New\<lparr>trees := [\<lparr>httpMethod = ''GET'', root = Node ''/ping'' [] 1 [] (Some [7]) ''/ping''\<rparr>]\<rparr>))"
    by code_simp
  have b: "basePath (RouterGroup (New :: nat Engine)) = ''/''" "Handlers (RouterGroup (New :: nat Engine)) = []"
    by (simp_all add: New_def)
  from handle_refines [OF ok _ _ _ run] b obtain ap where
    "calculateAbsolutePath (RouterGroup (New :: nat Engine)) ''ping'' = Inr ap"
    "engine_routes (New\<lparr>trees := [\<lparr>httpMethod = ''GET'', root = Node ''/ping'' [] 1 [] (Some [7::nat]) ''/ping''\<rparr>]\<rparr>) =
       (engine_routes New)(''GET'' := (engine_routes New ''GET'')(ap \<mapsto> [7]))"
    by auto
  moreover have "calculateAbsolutePath (RouterGroup (New :: nat Engine)) ''ping'' = Inr ''/ping''" by code_simp
  ultimately show ?thesis using ok run by simp
qed

text \<open>
  The hang of the tree is reachable from the public API: on a new engine,
  \<open>GET("/users/list", h1)\<close> succeeds and a following \<open>GET("/user/profile", h2)\<close>
  never returns.
\<close>

lemma GET_hangs:
  "GET (RouterGroup (New :: nat Engine)) New ''/users/list'' 1 =
     Some (Inr (New\<lparr>trees := [\<lparr>httpMethod = ''GET'', root = Node ''/users/list'' [] 1 [] (Some [1]) ''/users/list''\<rparr>]\<rparr>)) \<and>
   GET (RouterGroup (New :: nat Engine))
       (New\<lparr>trees := [\<lparr>httpMethod = ''GET'', root = Node ''/users/list'' [] 1 [] (Some [1]) ''/users/list''\<rparr>]\<rparr>)
       ''/user/profile'' 2 = None"
proof -
  have a: "calculateAbsolutePath (RouterGroup (New :: nat Engine)) ''/users/list'' = Inr ''/users/list''"
    "calculateAbsolutePath (RouterGroup (New :: nat Engine)) ''/user/profile'' = Inr ''/user/profile''"
    by code_simp+
  have h: "Handlers (RouterGroup (New :: nat Engine)) = []" by (simp add: New_def)
  have first: "GET (RouterGroup (New :: nat Engine)) New ''/users/list'' 1 =
     Some (Inr (New\<lparr>trees := [\<lparr>httpMethod = ''GET'', root = Node ''/users/list'' [] 1 [] (Some [1]) ''/users/list''\<rparr>]\<rparr>))"
    by code_simp
  have "addRoute (length ''/user/profile'') (Node ''/users/list'' [] 1 [] (Some [1::nat]) ''/users/list'')
          ''/user/profile'' [2] = None"
    by (rule users_profile_diverges)
  then show ?thesis using first a(2) h
    by (simp add: GET_def handle_def combineHandlers_def Engine_addRoute_def addToTree_def)
qed

end
