(* ===== verification/Request_Context.thy ===== *)
theory Request_Context
  imports Prelude
begin

text \<open>
  The request context of \<open>src/unnamed/part_001\<close> (lines 196--279 and 476--503): the
  handler chain and its \<open>int8\<close> cursor \<open>index\<close>, the flow control \<open>Next\<close>, \<open>Abort\<close>,
  \<open>IsAborted\<close>, the per-request reset, \<open>Copy\<close>, and the key/value store
  \<open>Set\<close>/\<open>Get\<close>/\<open>MustGet\<close>.  \<open>index\<close> is an \<open>8 word\<close> read with \<open>sint\<close>, so
  \<open>int8(len(c.handlers))\<close> and \<open>c.index++\<close> wrap as in Go.

  A handler is user code; the model gives it as a list of the context operations it
  performs (\<open>hop\<close>): writing a string to the response, calling \<open>Next\<close> or \<open>Abort\<close>,
  setting a key, writing the string stored under a key, and testing \<open>IsAborted\<close>.  \<open>out\<close> collects what handlers
  write.  \<open>Next\<close> and the handlers run with fuel, \<open>None\<close> being a run that does not
  end.  Field names carry a \<open>c_\<close> prefix where the tree already uses the Go name.
\<close>

section \<open>State\<close>

datatype hop =
    Emit string
  | CallNext
  | CallAbort
  | SetKey string anyval
  | EmitKey string
  | EmitIfAborted string

record Context =
  c_handlers :: "hop list list"
  c_index :: i8
  Keys :: "string \<rightharpoonup> anyval"
  c_fullPath :: string
  out :: "string list"

text \<open>\<open>abortIndex int8 = math.MaxInt8 >> 1\<close>, which is 63.\<close>

definition abortIndex :: i8 where
  "abortIndex = drop_bit 1 127"

section \<open>Operations\<close>

definition reset :: "Context \<Rightarrow> Context" where
  "reset c = c\<lparr>c_handlers := [], c_fullPath := [], c_index := -1\<rparr>"

definition Copy :: "Context \<Rightarrow> Context" where
  "Copy c = \<lparr>c_handlers = [], c_index = abortIndex, Keys = Keys c, c_fullPath = c_fullPath c,
             out = out c\<rparr>"

definition IsAborted :: "Context \<Rightarrow> bool" where
  "IsAborted c = (sint abortIndex \<le> sint (c_index c))"

definition Abort :: "Context \<Rightarrow> Context" where
  "Abort c = c\<lparr>c_index := abortIndex\<rparr>"

text \<open>\<open>Set\<close> initialises a nil map lazily; a nil map reads as the empty map.\<close>

definition Set :: "Context \<Rightarrow> string \<Rightarrow> anyval \<Rightarrow> Context" where
  "Set c k v = c\<lparr>Keys := (Keys c)(k \<mapsto> v)\<rparr>"

definition Get :: "Context \<Rightarrow> string \<Rightarrow> anyval option" where
  "Get c k = Keys c k"

definition MustGet :: "Context \<Rightarrow> string \<Rightarrow> go_panic + anyval" where
  "MustGet c k = (case Get c k of Some v \<Rightarrow> Inr v | None \<Rightarrow> Inl (Panic (''Key \"'' @ k @ ''\" does not exist'')))"

definition emit :: "Context \<Rightarrow> string \<Rightarrow> Context" where
  "emit c s = c\<lparr>out := out c @ [s]\<rparr>"

text \<open>
  \<open>run_hops\<close> runs one handler; \<open>Next\<close> is \<open>c.index++\<close> followed by the loop
  \<open>next_loop\<close>, which runs \<open>c.handlers[c.index]\<close> while
  \<open>c.index < int8(len(c.handlers))\<close> and increments the index after each handler.  An
  index outside the chain is Go's index panic.
\<close>

fun run_hops :: "nat \<Rightarrow> hop list \<Rightarrow> Context \<Rightarrow> (go_panic + Context) option"
and Next :: "nat \<Rightarrow> Context \<Rightarrow> (go_panic + Context) option"
and next_loop :: "nat \<Rightarrow> Context \<Rightarrow> (go_panic + Context) option" where
  "run_hops 0 ops c = None"
| "run_hops (Suc f) [] c = Some (Inr c)"
| "run_hops (Suc f) (Emit s # ops) c = run_hops f ops (emit c s)"
| "run_hops (Suc f) (CallNext # ops) c =
     (case Next f c of Some (Inr c') \<Rightarrow> run_hops f ops c' | r \<Rightarrow> r)"
| "run_hops (Suc f) (CallAbort # ops) c = run_hops f ops (Abort c)"
| "run_hops (Suc f) (SetKey k v # ops) c = run_hops f ops (Set c k v)"
| "run_hops (Suc f) (EmitKey k # ops) c =
     run_hops f ops (case Get c k of Some (VString v) \<Rightarrow> emit c v | _ \<Rightarrow> c)"
| "run_hops (Suc f) (EmitIfAborted s # ops) c = run_hops f ops (if IsAborted c then emit c s else c)"
| "Next 0 c = None"
| "Next (Suc f) c = next_loop f (c\<lparr>c_index := c_index c + 1\<rparr>)"
| "next_loop 0 c = None"
| "next_loop (Suc f) c =
     (if sint (c_index c) < sint (word_of_nat (length (c_handlers c)) :: i8) then
        (if 0 \<le> sint (c_index c) \<and> nat (sint (c_index c)) < length (c_handlers c) then
           (case run_hops f (c_handlers c ! nat (sint (c_index c))) c of
              Some (Inr c') \<Rightarrow> next_loop f (c'\<lparr>c_index := c_index c' + 1\<rparr>)
            | r \<Rightarrow> r)
         else Some (Inl IndexOutOfRange))
      else Some (Inr c))"

section \<open>Handlers that only write\<close>

text \<open>
  A plain handler only writes to the response; \<open>texts\<close> is what a handler writes
  unconditionally.
\<close>

definition plain :: "hop list \<Rightarrow> bool" where
  "plain h = list_all (\<lambda>op. case op of Emit _ \<Rightarrow> True | _ \<Rightarrow> False) h"

fun texts :: "hop list \<Rightarrow> string list" where
  "texts [] = []"
| "texts (Emit s # ops) = s # texts ops"
| "texts (_ # ops) = texts ops"

lemma plain_Cons: "plain (op # h) = ((\<exists>s. op = Emit s) \<and> plain h)"
  by (cases op) (simp_all add: plain_def)

lemma plain_Nil [simp]: "plain []"
  by (simp add: plain_def)

lemma texts_append: "texts (h @ h') = texts h @ texts h'"
  by (induction h rule: texts.induct) simp_all

lemma run_plain_append:
  "plain h \<Longrightarrow> length h < f \<Longrightarrow>
   run_hops f (h @ rest) c = run_hops (f - length h) rest (c\<lparr>out := out c @ texts h\<rparr>)"
proof (induction h arbitrary: f c)
  case Nil
  then show ?case by simp
next
  case (Cons op h)
  then obtain s where op: "op = Emit s" and p: "plain h" by (auto simp: plain_Cons)
  from Cons.prems obtain f' where f: "f = Suc f'" "length h < f'" by (cases f) auto
  show ?case using Cons.IH [OF p f(2)] by (simp add: op f(1) emit_def)
qed

lemma run_plain_short: "plain h \<Longrightarrow> f \<le> length h \<Longrightarrow> run_hops f (h @ rest) c = None"
proof (induction h arbitrary: f c)
  case (Cons op h)
  then obtain s where op: "op = Emit s" and p: "plain h" by (auto simp: plain_Cons)
  show ?case using Cons.IH [OF p] Cons.prems(2) by (cases f) (simp_all add: op)
qed simp

text \<open>A plain handler, and a plain handler that ends with \<open>Abort\<close>, run exactly so.\<close>

lemma run_plain:
  "plain h \<Longrightarrow> run_hops f h c = (if length h < f then Some (Inr (c\<lparr>out := out c @ texts h\<rparr>)) else None)"
  using run_plain_append [of h f "[]" c] run_plain_short [of h f "[]" c]
  by (cases "f - length h") simp_all

lemma run_plain_abort:
  "plain h \<Longrightarrow> run_hops f (h @ [CallAbort]) c =
     (if Suc (length h) < f then Some (Inr (Abort (c\<lparr>out := out c @ texts h\<rparr>))) else None)"
  using run_plain_append [of h f "[CallAbort]" c] run_plain_short [of h f "[CallAbort]" c]
  by (cases "f - length h"; cases "f - length h - 1") simp_all

section \<open>The loop of Next\<close>

lemma int8_index_step:
  assumes "i < n" "n < 128"
  shows "sint (word_of_nat i :: i8) < sint (word_of_nat n :: i8) \<and> 0 \<le> sint (word_of_nat i :: i8) \<and>
         nat (sint (word_of_nat i :: i8)) = i \<and> (word_of_nat i + 1 :: i8) = word_of_nat (Suc i)"
  using assms by (simp add: sint_of_nat_i8)

text \<open>
  Running plain handlers: from index \<open>i\<close> to \<open>j\<close> of a chain shorter than 128, the loop
  runs each handler once, in order, one unit of fuel per handler.
\<close>

lemma next_loop_plain:
  assumes "c_handlers c = hs" "length hs < 128" "c_index c = word_of_nat i" "i \<le> j" "j \<le> length hs"
    and "\<forall>k. i \<le> k \<longrightarrow> k < j \<longrightarrow> plain (hs ! k) \<and> length (hs ! k) + (j - i) < f"
  shows "next_loop f c = next_loop (f - (j - i))
           (c\<lparr>c_index := word_of_nat j, out := out c @ concat (map texts (take (j - i) (drop i hs)))\<rparr>)"
  using assms
proof (induction "j - i" arbitrary: i c f)
  case 0
  then show ?case by (cases c) auto
next
  case (Suc d)
  then have ij: "i < j" by simp
  from Suc.prems(6) ij have pl: "plain (hs ! i)" and fl: "length (hs ! i) + (j - i) < f" by auto
  then obtain f' where f: "f = Suc f'" by (cases f) auto
  have run: "run_hops f' (hs ! i) c = Some (Inr (c\<lparr>out := out c @ texts (hs ! i)\<rparr>))"
    using run_plain [OF pl, of f'] fl f ij by simp
  note st = int8_index_step [of i "length hs"]
  let ?c1 = "c\<lparr>out := out c @ texts (hs ! i), c_index := word_of_nat (Suc i)\<rparr>"
  have "next_loop f c = next_loop f' ?c1"
    using Suc.prems(1-5) ij st run by (simp add: f add.commute)
  also have "\<dots> = next_loop (f' - (j - Suc i))
           (?c1\<lparr>c_index := word_of_nat j, out := out ?c1 @ concat (map texts (take (j - Suc i) (drop (Suc i) hs)))\<rparr>)"
  proof (rule Suc.hyps(1) [of "Suc i" ?c1 f'])
    show "\<forall>k. Suc i \<le> k \<longrightarrow> k < j \<longrightarrow> plain (hs ! k) \<and> length (hs ! k) + (j - Suc i) < f'"
    proof (intro allI impI)
      fix k assume k: "Suc i \<le> k" "k < j"
      with Suc.prems(6) have "plain (hs ! k) \<and> length (hs ! k) + (j - i) < f" by simp
      with k f show "plain (hs ! k) \<and> length (hs ! k) + (j - Suc i) < f'" by auto
    qed
  qed (use Suc.hyps(2) Suc.prems ij in \<open>simp_all add: add.commute\<close>)
  also have "take (j - i) (drop i hs) = hs ! i # take (j - Suc i) (drop (Suc i) hs)"
  proof -
    have "j - i = Suc (j - Suc i)" using ij by simp
    then show ?thesis using ij Suc.prems(5) by (simp add: Cons_nth_drop_Suc [symmetric])
  qed
  ultimately show ?case using ij f by (simp add: Suc_diff_Suc)
qed

text \<open>
  Conversely, a run of the loop that ends passes through the index \<open>j\<close> after the plain
  handlers before it, with one unit of fuel fewer per handler.
\<close>

lemma next_loop_plain_inv:
  assumes "next_loop f c = Some r" "c_handlers c = hs" "length hs < 128" "c_index c = word_of_nat i"
    "i \<le> j" "j \<le> length hs" "\<forall>k. i \<le> k \<longrightarrow> k < j \<longrightarrow> plain (hs ! k)"
  shows "\<exists>f'. f' + (j - i) \<le> f \<and>
           next_loop f' (c\<lparr>c_index := word_of_nat j,
                           out := out c @ concat (map texts (take (j - i) (drop i hs)))\<rparr>) = Some r"
  using assms
proof (induction "j - i" arbitrary: i c f)
  case 0
  then show ?case by (cases c) auto
next
  case (Suc d)
  then have ij: "i < j" by simp
  from Suc.prems(7) ij have pl: "plain (hs ! i)" by simp
  from Suc.prems(1) obtain f' where f: "f = Suc f'" by (cases f) auto
  note st = int8_index_step [of i "length hs"]
  let ?c1 = "c\<lparr>out := out c @ texts (hs ! i), c_index := word_of_nat (Suc i)\<rparr>"
  have run: "run_hops f' (hs ! i) c = Some (Inr (c\<lparr>out := out c @ texts (hs ! i)\<rparr>))"
  proof (rule ccontr)
    assume "run_hops f' (hs ! i) c \<noteq> Some (Inr (c\<lparr>out := out c @ texts (hs ! i)\<rparr>))"
    then have "run_hops f' (hs ! i) c = None" using run_plain [OF pl, of f' c] by (simp split: if_splits)
    then show False using Suc.prems(1-6) ij st by (simp add: f)
  qed
  have "next_loop f' ?c1 = Some r"
    using Suc.prems(1-6) ij st run by (simp add: f add.commute)
  then obtain g where g: "g + (j - Suc i) \<le> f'"
    and nx: "next_loop g (?c1\<lparr>c_index := word_of_nat j,
                out := out ?c1 @ concat (map texts (take (j - Suc i) (drop (Suc i) hs)))\<rparr>) = Some r"
    using Suc.hyps(1) [where i = "Suc i" and c = ?c1 and f = f'] Suc.hyps(2) Suc.prems ij by force
  have tk: "take (j - i) (drop i hs) = hs ! i # take (j - Suc i) (drop (Suc i) hs)"
  proof -
    have "j - i = Suc (j - Suc i)" using ij by simp
    then show ?thesis using ij Suc.prems(6) by (simp add: Cons_nth_drop_Suc [symmetric])
  qed
  show ?case using g nx tk ij f by (intro exI [of _ g]) simp
qed

text \<open>More fuel never changes a result that was reached.\<close>

lemma fuel_Suc:
  "run_hops f h c = Some r \<Longrightarrow> run_hops (Suc f) h c = Some r"
  "Next f c = Some r \<Longrightarrow> Next (Suc f) c = Some r"
  "next_loop f c = Some r \<Longrightarrow> next_loop (Suc f) c = Some r"
proof (induction f h c and f c and f c arbitrary: r and r and r rule: run_hops_Next_next_loop.induct)
  case (4 f ops c)
  then show ?case by (auto split: option.splits sum.splits)
next
  case (12 f c)
  let ?n = "nat (sint (c_index c))"
  show ?case
  proof (cases "sint (c_index c) < sint (word_of_nat (length (c_handlers c)) :: i8) \<and>
                0 \<le> sint (c_index c) \<and> ?n < length (c_handlers c)")
    case False
    then show ?thesis using "12.prems" by (auto simp del: run_hops.simps)
  next
    case True
    then have p: "(case run_hops f (c_handlers c ! ?n) c of
                     Some (Inr c') \<Rightarrow> next_loop f (c'\<lparr>c_index := c_index c' + 1\<rparr>) | r \<Rightarrow> r) = Some r"
      using "12.prems" by simp
    then obtain x where x: "run_hops f (c_handlers c ! ?n) c = Some x" by (cases "run_hops f (c_handlers c ! ?n) c") auto
    have x': "run_hops (Suc f) (c_handlers c ! ?n) c = Some x" by (rule "12.IH"(1) [OF conjunct1 [OF True] conjunct2 [OF True] x])
    show ?thesis
    proof (cases x)
      case (Inl e)
      then show ?thesis using True p x x' by (cases r) simp_all
    next
      case (Inr b)
      then have "next_loop f (b\<lparr>c_index := c_index b + 1\<rparr>) = Some r" using p x by simp
      then have "next_loop (Suc f) (b\<lparr>c_index := c_index b + 1\<rparr>) = Some r"
        by (rule "12.IH"(2) [OF conjunct1 [OF True] conjunct2 [OF True] x Inr])
      then show ?thesis using True x' Inr by simp
    qed
  qed
qed simp_all

lemma fuel_mono:
  assumes "f \<le> g"
  shows "run_hops f h c = Some r \<Longrightarrow> run_hops g h c = Some r"
    and "Next f c = Some r \<Longrightarrow> Next g c = Some r"
    and "next_loop f c = Some r \<Longrightarrow> next_loop g c = Some r"
proof -
  obtain d where g: "g = f + d" using assms le_Suc_ex by blast
  show "run_hops f h c = Some r \<Longrightarrow> run_hops g h c = Some r"
    unfolding g by (induction d) (simp_all del: run_hops.simps add: fuel_Suc(1))
  show "Next f c = Some r \<Longrightarrow> Next g c = Some r"
    unfolding g by (induction d) (simp_all del: Next.simps add: fuel_Suc(2))
  show "next_loop f c = Some r \<Longrightarrow> next_loop g c = Some r"
    unfolding g by (induction d) (simp_all del: next_loop.simps add: fuel_Suc(3))
qed

section \<open>A chain started by handleHTTPRequest\<close>

text \<open>
  \<open>ServeHTTP\<close> resets the context and \<open>handleHTTPRequest\<close> installs the chain before
  calling \<open>Next\<close>: the loop starts at index 0.
\<close>

lemma Next_start:
  "Next (Suc f) ((reset c)\<lparr>c_handlers := hs\<rparr>) = next_loop f ((reset c)\<lparr>c_handlers := hs, c_index := word_of_nat 0\<rparr>)"
  by (simp add: reset_def)

text \<open>Updates of the cursor and of the response commute; \<open>simp\<close> puts the response first.\<close>

lemma index_out_update [simp]: "c\<lparr>c_index := i, out := w\<rparr> = c\<lparr>out := w, c_index := i\<rparr>"
  by (cases c) simp

lemma next_loop_stop:
  "sint (word_of_nat (length (c_handlers c)) :: i8) \<le> sint (c_index c) \<Longrightarrow> next_loop (Suc f) c = Some (Inr c)"
  by simp

lemma length_le_sum: "k < length hs \<Longrightarrow> length (hs ! k) \<le> sum_list (map length hs)"
  by (metis elem_le_sum_list length_map nth_map)

lemma abortIndex_next: "abortIndex + 1 = word_of_nat 64"
  by (simp add: abortIndex_def)

lemma sint_abortIndex: "sint abortIndex = 63"
  by (simp add: abortIndex_def)

text \<open>Plain handlers before position \<open>k\<close> run in order, one unit of fuel each.\<close>

lemma Next_prefix:
  assumes "length hs < 128" "k < length hs" "\<forall>i<k. plain (hs ! i)"
    and "length hs + sum_list (map length hs) + 2 \<le> f"
  shows "Next f ((reset c)\<lparr>c_handlers := hs\<rparr>) =
         next_loop (f - k - 1) ((reset c)\<lparr>c_handlers := hs,
                                 out := out c @ concat (map texts (take k hs)), c_index := word_of_nat k\<rparr>)"
proof -
  obtain f0 where f: "f = Suc f0" using assms(4) by (cases f) auto
  let ?c0 = "(reset c)\<lparr>c_handlers := hs, c_index := word_of_nat 0\<rparr>"
  have "next_loop f0 ?c0 = next_loop (f0 - (k - 0))
          (?c0\<lparr>c_index := word_of_nat k, out := out ?c0 @ concat (map texts (take (k - 0) (drop 0 hs)))\<rparr>)"
  proof (rule next_loop_plain)
    show "\<forall>i. 0 \<le> i \<longrightarrow> i < k \<longrightarrow> plain (hs ! i) \<and> length (hs ! i) + (k - 0) < f0"
    proof (intro allI impI conjI)
      fix i assume i: "i < k"
      then show "plain (hs ! i)" using assms(3) by simp
      have "length (hs ! i) \<le> sum_list (map length hs)" using i assms(2) by (intro length_le_sum) simp
      then show "length (hs ! i) + (k - 0) < f0" using assms(2,4) f by simp
    qed
  qed (use assms(1,2) in simp_all)
  then show ?thesis using f by (simp add: Next_start reset_def)
qed

text \<open>
  Plain handlers up to \<open>k\<close>, then the handler at \<open>k\<close> writes and aborts: the loop
  continues at index 64 whatever \<open>k\<close> was.
\<close>

lemma Next_until_abort:
  assumes "length hs < 128" "k < length hs" "\<forall>i<k. plain (hs ! i)" "hs ! k = h @ [CallAbort]" "plain h"
    and "length hs + sum_list (map length hs) + 2 \<le> f"
  shows "Next f ((reset c)\<lparr>c_handlers := hs\<rparr>) =
         next_loop (f - k - 2) ((reset c)\<lparr>c_handlers := hs, c_index := word_of_nat 64,
                                         out := out c @ concat (map texts (take k hs)) @ texts h\<rparr>)"
proof -
  let ?ck = "(reset c)\<lparr>c_handlers := hs, out := out c @ concat (map texts (take k hs)), c_index := word_of_nat k\<rparr>"
  have lk: "length (hs ! k) \<le> sum_list (map length hs)" using length_le_sum [OF assms(2)] .
  obtain f1 where f1: "f - k - 1 = Suc f1" "Suc (length h) < f1"
    using assms(2,4,6) lk by (intro that [of "f - k - 2"]) simp_all
  have "run_hops f1 (hs ! k) ?ck = Some (Inr (Abort (?ck\<lparr>out := out ?ck @ texts h\<rparr>)))"
    using run_plain_abort [OF assms(5), of f1 ?ck] f1(2) assms(4) by simp
  then have "next_loop (f - k - 1) ?ck = next_loop f1 ((Abort (?ck\<lparr>out := out ?ck @ texts h\<rparr>))\<lparr>c_index := abortIndex + 1\<rparr>)"
    using assms(1,2) sint_of_nat_i8 [of k] sint_of_nat_i8 [of "length hs"] f1(1) by (simp add: Abort_def)
  moreover have "f1 = f - k - 2" using f1 by simp
  ultimately show ?thesis
    using Next_prefix [OF assms(1-3,6)] by (simp add: Abort_def abortIndex_next reset_def)
qed

text \<open>A chain of plain handlers runs completely.\<close>

lemma Next_plain:
  assumes "length hs < 128" "list_all plain hs" "length hs + sum_list (map length hs) + 2 \<le> f"
  shows "Next f ((reset c)\<lparr>c_handlers := hs\<rparr>) =
         Some (Inr ((reset c)\<lparr>c_handlers := hs, c_index := word_of_nat (length hs),
                                out := out c @ concat (map texts hs)\<rparr>))"
proof -
  obtain f0 where f: "f = Suc f0" using assms(3) by (cases f) auto
  let ?c0 = "(reset c)\<lparr>c_handlers := hs, c_index := word_of_nat 0\<rparr>"
  have "next_loop f0 ?c0 = next_loop (f0 - (length hs - 0))
          (?c0\<lparr>c_index := word_of_nat (length hs),
                out := out ?c0 @ concat (map texts (take (length hs - 0) (drop 0 hs)))\<rparr>)"
  proof (rule next_loop_plain)
    show "\<forall>k. 0 \<le> k \<longrightarrow> k < length hs \<longrightarrow> plain (hs ! k) \<and> length (hs ! k) + (length hs - 0) < f0"
    proof (intro allI impI conjI)
      fix k assume k: "k < length hs"
      then show "plain (hs ! k)" using assms(2) by (simp add: list_all_length)
      show "length (hs ! k) + (length hs - 0) < f0" using length_le_sum [OF k] assms(3) f by simp
    qed
  qed (use assms(1) in simp_all)
  moreover obtain f1 where "f0 - length hs = Suc f1" using assms(3) f by (intro that [of "f0 - length hs - 1"]) simp
  ultimately show ?thesis using f by (simp add: Next_start reset_def)
qed

section \<open>Claims on the handler chain\<close>

text \<open>
  Claim C12.  \<open>Next\<close> runs a chain of fewer than 128 handlers that only write to the
  response once each, in order, and leaves the index at the length of the chain; the
  fuel it needs is bounded by the size of the chain.
\<close>

theorem Next_runs_chain:
  assumes "length hs < 128" "list_all plain hs" "length hs + sum_list (map length hs) + 2 \<le> f"
  shows "Next f ((reset c)\<lparr>c_handlers := hs\<rparr>) =
         Some (Inr ((reset c)\<lparr>c_handlers := hs, c_index := word_of_nat (length hs),
                                out := out c @ concat (map texts hs)\<rparr>))"
  using Next_plain [OF assms] .

theorem Next_runs_chain_witness:
  "Next 6 ((reset \<lparr>c_handlers = [], c_index = 0, Keys = Map.empty, c_fullPath = [], out = []\<rparr>)
             \<lparr>c_handlers := [[Emit ''a''], [Emit ''b'']]\<rparr>) =
   Some (Inr \<lparr>c_handlers = [[Emit ''a''], [Emit ''b'']], c_index = 2, Keys = Map.empty, c_fullPath = [],
              out = [''a'', ''b'']\<rparr>)"
  using Next_runs_chain [of "[[Emit ''a''], [Emit ''b'']]" 6 "\<lparr>c_handlers = [], c_index = 0, Keys = Map.empty, c_fullPath = [], out = []\<rparr>"]
  by (simp add: plain_def reset_def)

text \<open>
  Claim C13.  \<open>Abort\<close> stops a chain of at most 64 handlers: when the handler at
  position \<open>k\<close> writes and then aborts, the handlers after it never run.
\<close>

theorem Abort_stops_short_chain:
  assumes "length hs \<le> 64" "k < length hs" "\<forall>i<k. plain (hs ! i)" "hs ! k = h @ [CallAbort]" "plain h"
    and "length hs + sum_list (map length hs) + 2 \<le> f"
  shows "Next f ((reset c)\<lparr>c_handlers := hs\<rparr>) =
         Some (Inr ((reset c)\<lparr>c_handlers := hs, c_index := word_of_nat 64,
                                out := out c @ concat (map texts (take k hs)) @ texts h\<rparr>))"
proof -
  have "length (hs ! k) \<le> sum_list (map length hs)" using length_le_sum [OF assms(2)] .
  then obtain f2 where "f - k - 2 = Suc f2" using assms(2,4,6) by (intro that [of "f - k - 3"]) simp
  moreover have "sint (word_of_nat (length hs) :: i8) \<le> 64" using assms(1) sint_of_nat_i8 [of "length hs"] by simp
  ultimately show ?thesis
    using Next_until_abort [OF _ assms(2-6)] assms(1) sint_of_nat_i8 [of 64] by (simp add: reset_def)
qed

theorem Abort_stops_short_chain_witness:
  "Next 9 ((reset \<lparr>c_handlers = [], c_index = 0, Keys = Map.empty, c_fullPath = [], out = []\<rparr>)
             \<lparr>c_handlers := [[Emit ''a''], [Emit ''b'', CallAbort], [Emit ''c'']]\<rparr>) =
   Some (Inr \<lparr>c_handlers = [[Emit ''a''], [Emit ''b'', CallAbort], [Emit ''c'']], c_index = 64,
              Keys = Map.empty, c_fullPath = [], out = [''a'', ''b'']\<rparr>)"
  using Abort_stops_short_chain [of "[[Emit ''a''], [Emit ''b'', CallAbort], [Emit ''c'']]" 1 "[Emit ''b'']" 9
      "\<lparr>c_handlers = [], c_index = 0, Keys = Map.empty, c_fullPath = [], out = []\<rparr>"]
  by (simp add: plain_def reset_def nth_Cons')

text \<open>
  From index 64, a chain whose handler \<open>k \<ge> 64\<close> aborts never leaves the loop: the
  abort sends the cursor back to 63, the increment to 64, and the handlers from 64 to
  \<open>k\<close> run again.
\<close>

lemma next_loop_abort_cycle:
  assumes "64 \<le> k" "k < length hs" "length hs < 128" "\<forall>i<k. plain (hs ! i)" "hs ! k = h @ [CallAbort]" "plain h"
  shows "c_handlers c = hs \<Longrightarrow> c_index c = word_of_nat 64 \<Longrightarrow> next_loop f c \<noteq> Some r"
proof (induction f arbitrary: c rule: less_induct)
  case (less f)
  show ?case
  proof
    assume run: "next_loop f c = Some r"
    obtain f' where f': "f' + (k - 64) \<le> f"
      and nk: "next_loop f' (c\<lparr>c_index := word_of_nat k,
                 out := out c @ concat (map texts (take (k - 64) (drop 64 hs)))\<rparr>) = Some r"
      using next_loop_plain_inv [OF run less.prems(1) assms(3) less.prems(2), of k] assms(1,2,4) by auto
    let ?ck = "c\<lparr>out := out c @ concat (map texts (take (k - 64) (drop 64 hs))), c_index := word_of_nat k\<rparr>"
    obtain f2 where f2: "f' = Suc f2" using nk by (cases f') auto
    have ck: "c_handlers ?ck = hs" "sint (word_of_nat k :: i8) < sint (word_of_nat (length hs) :: i8)"
      "nat (sint (word_of_nat k :: i8)) = k" "sint (word_of_nat k :: i8) = int k" "k < length hs"
      using less.prems(1) assms(1-3) sint_of_nat_i8 [of k] sint_of_nat_i8 [of "length hs"] by simp_all
    have "run_hops f2 (hs ! k) ?ck \<noteq> None"
    proof
      assume "run_hops f2 (hs ! k) ?ck = None"
      then show False using nk f2 ck by simp
    qed
    then have "run_hops f2 (hs ! k) ?ck = Some (Inr (Abort (?ck\<lparr>out := out ?ck @ texts h\<rparr>)))"
      using run_plain_abort [OF assms(6), of f2 ?ck] assms(5) by (simp split: if_splits)
    then have "next_loop f2 ((Abort (?ck\<lparr>out := out ?ck @ texts h\<rparr>))\<lparr>c_index := abortIndex + 1\<rparr>) = Some r"
      using nk f2 ck by (simp add: Abort_def)
    moreover have "f2 < f" using f' f2 by simp
    ultimately show False
      using less.IH [of f2] less.prems(1) by (simp add: Abort_def abortIndex_next)
  qed
qed

text \<open>
  Claim C14.  \<open>Abort\<close> hangs a chain with more than 64 handlers when the handler that
  aborts is at position 64 or later: \<open>Next\<close> never returns, whatever the fuel.  Go's
  \<open>Abort\<close> sets the cursor to \<open>abortIndex\<close> (63), which is behind the aborting handler,
  and \<open>combineHandlers\<close> has no bound on the length of a chain.
\<close>

theorem Abort_late_hangs:
  assumes "64 \<le> k" "k < length hs" "length hs < 128" "\<forall>i<k. plain (hs ! i)" "hs ! k = h @ [CallAbort]" "plain h"
  shows "Next f ((reset c)\<lparr>c_handlers := hs\<rparr>) = None"
proof (cases f)
  case 0
  then show ?thesis by simp
next
  case (Suc f0)
  show ?thesis
  proof (rule ccontr)
    assume "Next f ((reset c)\<lparr>c_handlers := hs\<rparr>) \<noteq> None"
    moreover have "Next f ((reset c)\<lparr>c_handlers := hs\<rparr>) =
                   next_loop f0 ((reset c)\<lparr>c_handlers := hs, c_index := word_of_nat 0\<rparr>)"
      unfolding Suc by (rule Next_start)
    ultimately obtain r where "next_loop f0 ((reset c)\<lparr>c_handlers := hs, c_index := word_of_nat 0\<rparr>) = Some r"
      by auto
    from next_loop_plain_inv [OF this _ assms(3), of 0 64] assms(1-4)
    obtain f' where "next_loop f' ((reset c)\<lparr>c_handlers := hs, c_index := word_of_nat 64,
                       out := out c @ concat (map texts (take 64 hs))\<rparr>) = Some r"
      by (auto simp: reset_def)
    then show False using next_loop_abort_cycle [OF assms, of _ _ r] by simp
  qed
qed

theorem Abort_late_hangs_witness:
  "Next 1000 ((reset \<lparr>c_handlers = [], c_index = 0, Keys = Map.empty, c_fullPath = [], out = []\<rparr>)
             \<lparr>c_handlers := replicate 64 [] @ [[CallAbort]]\<rparr>) = None"
  by (rule Abort_late_hangs [of 64 _ "[]"]) (simp_all add: nth_append)

text \<open>
  Claim C15.  In a chain of more than 64 handlers, \<open>Abort\<close> in a handler before
  position 64 does not prevent the pending handlers at positions 64 and later: the
  handlers between the aborting one and position 64 are skipped, and every handler from
  position 64 to the end still runs.
\<close>

theorem Abort_runs_late_handlers:
  assumes "64 < length hs" "length hs < 128" "k < 64"
    and "\<forall>i. i < length hs \<longrightarrow> i \<noteq> k \<longrightarrow> plain (hs ! i)" "hs ! k = h @ [CallAbort]" "plain h"
    and "length hs + sum_list (map length hs) + 2 \<le> f"
  shows "Next f ((reset c)\<lparr>c_handlers := hs\<rparr>) =
         Some (Inr ((reset c)\<lparr>c_handlers := hs, c_index := word_of_nat (length hs),
                     out := out c @ concat (map texts (take k hs)) @ texts h @ concat (map texts (drop 64 hs))\<rparr>))"
proof -
  have k: "k < length hs" using assms(1,3) by simp
  have pk: "\<forall>i<k. plain (hs ! i)" using assms(4) k by simp
  let ?c64 = "(reset c)\<lparr>c_handlers := hs, c_index := word_of_nat 64,
                out := out c @ concat (map texts (take k hs)) @ texts h\<rparr>"
  have "next_loop (f - k - 2) ?c64 = next_loop (f - k - 2 - (length hs - 64))
          (?c64\<lparr>c_index := word_of_nat (length hs),
                 out := out ?c64 @ concat (map texts (take (length hs - 64) (drop 64 hs)))\<rparr>)"
  proof (rule next_loop_plain)
    show "\<forall>i. 64 \<le> i \<longrightarrow> i < length hs \<longrightarrow> plain (hs ! i) \<and> length (hs ! i) + (length hs - 64) < f - k - 2"
    proof (intro allI impI conjI)
      fix i assume i: "64 \<le> i" "i < length hs"
      then show "plain (hs ! i)" using assms(3,4) by simp
      have "length (hs ! i) \<le> sum_list (map length hs)" using i by (intro length_le_sum)
      then show "length (hs ! i) + (length hs - 64) < f - k - 2" using assms(1,3,7) i by linarith
    qed
  qed (use assms(1,2) in simp_all)
  moreover obtain f3 where "f - k - 2 - (length hs - 64) = Suc f3"
    using assms(1,3,7) by (intro that [of "f - k - 3 - (length hs - 64)"]) simp
  ultimately show ?thesis
    using Next_until_abort [OF assms(2) k pk assms(5,6,7)] by (simp add: reset_def)
qed

theorem Abort_runs_late_handlers_witness:
  "Next 200 ((reset \<lparr>c_handlers = [], c_index = 0, Keys = Map.empty, c_fullPath = [], out = []\<rparr>)
             \<lparr>c_handlers := [CallAbort] # replicate 63 [Emit ''skipped''] @ [[Emit ''late'']]\<rparr>) =
   Some (Inr \<lparr>c_handlers = [CallAbort] # replicate 63 [Emit ''skipped''] @ [[Emit ''late'']], c_index = 65,
              Keys = Map.empty, c_fullPath = [], out = [''late'']\<rparr>)"
proof -
  have pl: "\<forall>i. i < length ([CallAbort] # replicate 63 [Emit ''skipped''] @ [[Emit ''late'']]) \<longrightarrow> i \<noteq> 0 \<longrightarrow>
              plain (([CallAbort] # replicate 63 [Emit ''skipped''] @ [[Emit ''late'']]) ! i)"
    by (auto simp: nth_Cons' nth_append plain_def)
  show ?thesis
    using Abort_runs_late_handlers [of "[CallAbort] # replicate 63 [Emit ''skipped''] @ [[Emit ''late'']]" 0 "[]" 200
        "\<lparr>c_handlers = [], c_index = 0, Keys = Map.empty, c_fullPath = [], out = []\<rparr>"] pl
    by (simp add: reset_def sum_list_replicate)
qed

text \<open>
  Claim C16.  \<open>int8(len(c.handlers))\<close> wraps: for a chain of 128 to 255 handlers the
  bound is negative and \<open>Next\<close> returns at once without running any handler.
\<close>

theorem Next_skips_long_chain:
  assumes "128 \<le> length hs" "length hs < 256"
  shows "Next (Suc (Suc f)) ((reset c)\<lparr>c_handlers := hs\<rparr>) = Some (Inr ((reset c)\<lparr>c_handlers := hs, c_index := 0\<rparr>))"
proof -
  have "sint (word_of_nat (length hs) :: i8) \<le> sint (word_of_nat 0 :: i8)"
    using sint_of_nat_i8_neg [OF assms] assms by simp
  then show ?thesis by (simp only: Next_start next_loop_stop) simp
qed

theorem Next_skips_long_chain_witness:
  "Next 2 ((reset \<lparr>c_handlers = [], c_index = 0, Keys = Map.empty, c_fullPath = [], out = []\<rparr>)
             \<lparr>c_handlers := replicate 130 [Emit ''x'']\<rparr>) =
   Some (Inr \<lparr>c_handlers = replicate 130 [Emit ''x''], c_index = 0, Keys = Map.empty, c_fullPath = [], out = []\<rparr>)"
  using Next_skips_long_chain [of "replicate 130 [Emit ''x'']" 0 "\<lparr>c_handlers = [], c_index = 0, Keys = Map.empty, c_fullPath = [], out = []\<rparr>"]
  by (simp add: reset_def numeral_2_eq_2)

text \<open>
  Claim C17.  \<open>IsAborted\<close> reports an abort that never happened: in a chain of fewer
  than 128 handlers, the handler at any position from 63 on sees \<open>IsAborted\<close> true when
  no handler called \<open>Abort\<close>.
\<close>

theorem IsAborted_without_Abort:
  assumes "63 \<le> k" "k < length hs" "length hs < 128" "\<forall>i<k. plain (hs ! i)" "hs ! k = [EmitIfAborted s]"
    and "length hs + sum_list (map length hs) + 2 \<le> f"
  shows "Next f ((reset c)\<lparr>c_handlers := hs\<rparr>) =
         next_loop (f - k - 2) ((reset c)\<lparr>c_handlers := hs, c_index := word_of_nat (Suc k),
                                out := out c @ concat (map texts (take k hs)) @ [s]\<rparr>)"
proof -
  let ?ck = "(reset c)\<lparr>c_handlers := hs, out := out c @ concat (map texts (take k hs)), c_index := word_of_nat k\<rparr>"
  have lk: "length (hs ! k) \<le> sum_list (map length hs)" using length_le_sum [OF assms(2)] .
  obtain f3 where f3: "f - k - 1 = Suc (Suc (Suc f3))" using assms(2,5,6) lk by (intro that [of "f - k - 4"]) simp
  have ab: "IsAborted ?ck" using assms(1-3) sint_of_nat_i8 [of k] by (simp add: IsAborted_def sint_abortIndex)
  have fk: "f - k - 2 = Suc (Suc f3)" "f - k - 1 = Suc (f - k - 2)" using f3 by simp_all
  have run: "run_hops (f - k - 2) (hs ! k) ?ck = Some (Inr (emit ?ck s))"
    unfolding fk(1) using ab assms(5) by simp
  have "next_loop (Suc (f - k - 2)) ?ck = next_loop (f - k - 2) ((emit ?ck s)\<lparr>c_index := word_of_nat k + 1\<rparr>)"
    using assms(2,3) sint_of_nat_i8 [of k] sint_of_nat_i8 [of "length hs"] run
    by (simp del: run_hops.simps add: emit_def)
  then show ?thesis
    using Next_prefix [OF assms(3,2,4,6)] fk(2) by (simp add: emit_def reset_def add.commute)
qed

theorem IsAborted_without_Abort_witness:
  "Next 200 ((reset \<lparr>c_handlers = [], c_index = 0, Keys = Map.empty, c_fullPath = [], out = []\<rparr>)
             \<lparr>c_handlers := replicate 63 [] @ [[EmitIfAborted ''aborted'']]\<rparr>) =
   Some (Inr \<lparr>c_handlers = replicate 63 [] @ [[EmitIfAborted ''aborted'']], c_index = 64,
              Keys = Map.empty, c_fullPath = [], out = [''aborted'']\<rparr>)"
proof -
  let ?c = "\<lparr>c_handlers = [], c_index = 0, Keys = Map.empty, c_fullPath = [], out = []\<rparr>"
  have "Next 200 ((reset ?c)\<lparr>c_handlers := replicate 63 [] @ [[EmitIfAborted ''aborted'']]\<rparr>) =
        next_loop 135 ((reset ?c)\<lparr>c_handlers := replicate 63 [] @ [[EmitIfAborted ''aborted'']],
                         c_index := word_of_nat 64, out := [''aborted'']\<rparr>)"
    using IsAborted_without_Abort [of 63 "replicate 63 [] @ [[EmitIfAborted ''aborted'']]" "''aborted''" 200 ?c]
    by (simp add: nth_append sum_list_replicate plain_def)
  also have "\<dots> = Some (Inr \<lparr>c_handlers = replicate 63 [] @ [[EmitIfAborted ''aborted'']], c_index = 64,
              Keys = Map.empty, c_fullPath = [], out = [''aborted'']\<rparr>)"
    by (simp add: reset_def numeral_eq_Suc)
  finally show ?thesis .
qed

end
