(* ===== verification/Server.thy ===== *)
theory Server
  imports Engine Request_Context
begin

text \<open>
  Request serving (\<open>src/unnamed/part_000\<close> lines 35--39 and 106--173): \<open>ServeHTTP\<close>
  takes a context from the engine's \<open>sync.Pool\<close>, resets it, runs
  \<open>handleHTTPRequest\<close>, puts the context back, and then runs its deferred function,
  which recovers a panic and calls \<open>serveError(c, 500, ...)\<close>.

  Several requests are served by concurrent goroutines that share the pool and the
  contexts in it.  The model keeps the contexts in an explicit heap (\<open>heap\<close>, from
  addresses to pooled contexts), the pool as a list of addresses, and what is sent to
  the clients as one sequence of wire events, each tagged with its connection.  A
  request is a goroutine with a phase; \<open>serveStep\<close> advances one goroutine by one
  phase, and \<open>runSched\<close> runs a schedule, a list of goroutine numbers, so that every
  interleaving of the phases of several requests is a schedule.

  The \<open>responseWriter\<close> that a context embeds (\<open>writermem\<close>) is defined in a file
  that is not part of the sources; it is modelled after the writer of the framework this
  code derives from: \<open>reset\<close> binds it to the connection with status 200 and size
  \<open>noWritten\<close>, \<open>Written\<close> tests the size, \<open>WriteHeaderNow\<close> sends the header once,
  and \<open>Write\<close> sends the header if needed and then the body.  Header fields other
  than the status (the content type) are not modelled.  The pool hands out the most
  recently returned context, one of the behaviours \<open>sync.Pool\<close> allows; an empty pool
  allocates a new context (\<open>allocateContext\<close>, zero fields).  A handler's writes are
  sent when it returns, in order; the writes of a handler that panics are dropped.
\<close>

section \<open>Response writer\<close>

definition default404Body :: string where "default404Body = ''404 page not found''"
definition default405Body :: string where "default405Body = ''405 method not allowed''"
definition default500Body :: string where "default500Body = ''500 server err''"

record responseWriter =
  rw_status :: int
  rw_size :: int
  rw_conn :: nat

datatype wire_event = WireHeader nat int | WireBody nat string

definition noWritten :: int where "noWritten = -1"

definition writer_reset :: "responseWriter \<Rightarrow> nat \<Rightarrow> responseWriter" where
  "writer_reset w k = w\<lparr>rw_conn := k, rw_size := noWritten, rw_status := 200\<rparr>"

definition Written :: "responseWriter \<Rightarrow> bool" where
  "Written w = (rw_size w \<noteq> noWritten)"

definition WriteHeaderNow :: "responseWriter \<Rightarrow> wire_event list \<Rightarrow> responseWriter \<times> wire_event list" where
  "WriteHeaderNow w wire =
     (if Written w then (w, wire) else (w\<lparr>rw_size := 0\<rparr>, wire @ [WireHeader (rw_conn w) (rw_status w)]))"

definition writeBody :: "responseWriter \<Rightarrow> wire_event list \<Rightarrow> string \<Rightarrow> responseWriter \<times> wire_event list" where
  "writeBody w wire d =
     (case WriteHeaderNow w wire of
        (w1, wire1) \<Rightarrow> (w1\<lparr>rw_size := rw_size w1 + int (length d)\<rparr>, wire1 @ [WireBody (rw_conn w1) d]))"

fun writeAll :: "responseWriter \<Rightarrow> wire_event list \<Rightarrow> string list \<Rightarrow> responseWriter \<times> wire_event list" where
  "writeAll w wire [] = (w, wire)"
| "writeAll w wire (d # ds) = (case writeBody w wire d of (w1, wire1) \<Rightarrow> writeAll w1 wire1 ds)"

section \<open>Serving one request\<close>

text \<open>A pooled \<open>*Context\<close>: the context and its embedded writer.\<close>

record pooled =
  pc :: Context
  writermem :: responseWriter

definition allocateContext :: pooled where
  "allocateContext = \<lparr>pc = \<lparr>c_handlers = [], c_index = 0, Keys = Map.empty, c_fullPath = [], out = []\<rparr>,
                      writermem = \<lparr>rw_status = 0, rw_size = 0, rw_conn = 0\<rparr>\<rparr>"

text \<open>
  \<open>serveError\<close> sets the status first; \<open>Status() == code\<close> then always holds, so the
  last branch, \<open>WriteHeaderNow\<close>, is only reached through \<open>Written\<close>.
\<close>

definition serveError :: "pooled \<Rightarrow> wire_event list \<Rightarrow> int \<Rightarrow> string \<Rightarrow> pooled \<times> wire_event list" where
  "serveError c wire code msg =
     (let wm = (writermem c)\<lparr>rw_status := code\<rparr> in
      if Written wm then (c\<lparr>writermem := wm\<rparr>, wire)
      else if rw_status wm = code then
        (case writeBody wm wire msg of (wm', wire') \<Rightarrow> (c\<lparr>writermem := wm'\<rparr>, wire'))
      else (case WriteHeaderNow wm wire of (wm', wire') \<Rightarrow> (c\<lparr>writermem := wm'\<rparr>, wire')))"

definition handleHTTPRequest ::
  "nat \<Rightarrow> hop list Engine \<Rightarrow> pooled \<Rightarrow> wire_event list \<Rightarrow> string \<Rightarrow> string
   \<Rightarrow> (go_panic + pooled \<times> wire_event list) option" where
  "handleHTTPRequest fuel e c wire m p =
     (case findHandlers (trees e) m p of
        Inl err \<Rightarrow> Some (Inl err)
      | Inr (Some hs) \<Rightarrow>
          (case Next fuel ((pc c)\<lparr>c_handlers := hs\<rparr>) of
             None \<Rightarrow> None
           | Some (Inl err) \<Rightarrow> Some (Inl err)
           | Some (Inr ctx) \<Rightarrow>
               (case writeAll (writermem c) wire (out ctx) of
                  (w1, wire1) \<Rightarrow> (case WriteHeaderNow w1 wire1 of
                                   (w2, wire2) \<Rightarrow> Some (Inr (\<lparr>pc = ctx, writermem = w2\<rparr>, wire2)))))
      | Inr None \<Rightarrow> Some (Inr (serveError c wire 404 default404Body)))"

section \<open>Goroutines sharing the pool\<close>

record server =
  heap :: "nat \<rightharpoonup> pooled"
  pool :: "nat list"
  nextAddr :: nat
  wire :: "wire_event list"

definition initServer :: server where
  "initServer = \<lparr>heap = Map.empty, pool = [], nextAddr = 0, wire = []\<rparr>"

definition poolGet :: "server \<Rightarrow> server \<times> nat" where
  "poolGet s = (case pool s of
                  a # rest \<Rightarrow> (s\<lparr>pool := rest\<rparr>, a)
                | [] \<Rightarrow> (s\<lparr>heap := (heap s)(nextAddr s \<mapsto> allocateContext), nextAddr := Suc (nextAddr s)\<rparr>,
                         nextAddr s))"

definition poolPut :: "server \<Rightarrow> nat \<Rightarrow> server" where
  "poolPut s a = s\<lparr>pool := a # pool s\<rparr>"

text \<open>
  The phases of \<open>ServeHTTP\<close>: before \<open>pool.Get\<close>; holding the context at an address
  before \<open>handleHTTPRequest\<close>; after it returned, or after it panicked; after
  \<open>pool.Put\<close>; done after the deferred function.
\<close>

datatype phase = Start | Serving nat | Served nat | Panicked nat | Returned nat | Finished

record request =
  conn :: nat
  reqMethod :: string
  reqPath :: string
  phase :: phase

definition deferred :: "server \<Rightarrow> request \<Rightarrow> nat \<Rightarrow> (server \<times> request) option" where
  "deferred s r a =
     (case heap s a of
        None \<Rightarrow> None
      | Some c \<Rightarrow> (case serveError c (wire s) 500 default500Body of
                    (c', w') \<Rightarrow> Some (s\<lparr>heap := (heap s)(a \<mapsto> c'), wire := w'\<rparr>, r\<lparr>phase := Finished\<rparr>)))"

fun serveStep :: "nat \<Rightarrow> hop list Engine \<Rightarrow> server \<Rightarrow> request \<Rightarrow> (server \<times> request) option" where
  "serveStep fuel e s r =
     (case phase r of
        Start \<Rightarrow>
          (case poolGet s of
             (s1, a) \<Rightarrow>
               (case heap s1 a of
                  None \<Rightarrow> None
                | Some c \<Rightarrow>
                    Some (s1\<lparr>heap := (heap s1)(a \<mapsto> \<lparr>pc = reset ((pc c)\<lparr>out := []\<rparr>),
                                                   writermem = writer_reset (writermem c) (conn r)\<rparr>)\<rparr>,
                          r\<lparr>phase := Serving a\<rparr>)))
      | Serving a \<Rightarrow>
          (case heap s a of
             None \<Rightarrow> None
           | Some c \<Rightarrow>
               (case handleHTTPRequest fuel e c (wire s) (reqMethod r) (reqPath r) of
                  None \<Rightarrow> None
                | Some (Inl err) \<Rightarrow> Some (s, r\<lparr>phase := Panicked a\<rparr>)
                | Some (Inr (c', w')) \<Rightarrow> Some (s\<lparr>heap := (heap s)(a \<mapsto> c'), wire := w'\<rparr>, r\<lparr>phase := Served a\<rparr>)))
      | Served a \<Rightarrow> Some (poolPut s a, r\<lparr>phase := Returned a\<rparr>)
      | Returned a \<Rightarrow> deferred s r a
      | Panicked a \<Rightarrow> deferred s r a
      | Finished \<Rightarrow> None)"

fun runSched :: "nat \<Rightarrow> hop list Engine \<Rightarrow> server \<Rightarrow> request list \<Rightarrow> nat list \<Rightarrow> (server \<times> request list) option" where
  "runSched fuel e s rs [] = Some (s, rs)"
| "runSched fuel e s rs (i # sched) =
     (if i < length rs then
        (case serveStep fuel e s (rs ! i) of
           None \<Rightarrow> None
         | Some (s', r') \<Rightarrow> runSched fuel e s' (rs[i := r']) sched)
      else None)"

section \<open>The heap and the pool\<close>

text \<open>
  Every address in the pool is a context of the heap.
\<close>

definition pool_ok :: "server \<Rightarrow> bool" where
  "pool_ok s = list_all (\<lambda>a. heap s a \<noteq> None) (pool s)"

lemma poolGet_ok:
  assumes "pool_ok s" "poolGet s = (s1, a)"
  shows "heap s1 a \<noteq> None \<and> pool_ok s1 \<and> dom (heap s) \<subseteq> dom (heap s1) \<and> wire s1 = wire s"
  using assms by (cases "pool s") (auto simp: poolGet_def pool_ok_def)

section \<open>Claims on serving\<close>

text \<open>
  Claim C22.  \<open>ServeHTTP\<close> does not clear the keys of a pooled context: when a request
  takes a context from the pool, the context it serves with holds every key that the
  last request served with it set.  \<open>reset\<close> clears the chain, the index and the full
  path, but not \<open>Keys\<close>.
\<close>

theorem ServeHTTP_keeps_Keys:
  assumes "pool s = a # rest" "heap s a = Some c" "phase r = Start" "serveStep f e s r = Some (s', r')"
  shows "phase r' = Serving a \<and> (\<exists>c'. heap s' a = Some c' \<and> Keys (pc c') = Keys (pc c))"
  using assms by (auto simp: poolGet_def reset_def)

theorem ServeHTTP_keeps_Keys_witness:
  "serveStep 5 (New :: hop list Engine)
     \<lparr>heap = [0 \<mapsto> allocateContext\<lparr>pc := (pc allocateContext)\<lparr>Keys := [''user'' \<mapsto> VString ''alice'']\<rparr>\<rparr>], pool = [0],
      nextAddr = 1, wire = []\<rparr>
     \<lparr>conn = 2, reqMethod = ''GET'', reqPath = ''/b'', phase = Start\<rparr> =
   Some (\<lparr>heap = [0 \<mapsto> \<lparr>pc = \<lparr>c_handlers = [], c_index = -1, Keys = [''user'' \<mapsto> VString ''alice''], c_fullPath = [], out = []\<rparr>,
                        writermem = \<lparr>rw_status = 200, rw_size = -1, rw_conn = 2\<rparr>\<rparr>],
           pool = [], nextAddr = 1, wire = []\<rparr>,
         \<lparr>conn = 2, reqMethod = ''GET'', reqPath = ''/b'', phase = Serving 0\<rparr>) \<and>
   Keys (pc (the (heap \<lparr>heap = [0 \<mapsto> \<lparr>pc = \<lparr>c_handlers = [], c_index = -1, Keys = [''user'' \<mapsto> VString ''alice''], c_fullPath = [], out = []\<rparr>,
                        writermem = \<lparr>rw_status = 200, rw_size = -1, rw_conn = 2\<rparr>\<rparr>],
           pool = [], nextAddr = 1, wire = []\<rparr> 0))) ''user'' = Some (VString ''alice'')"
proof -
  let ?s = "\<lparr>heap = [0 \<mapsto> allocateContext\<lparr>pc := (pc allocateContext)\<lparr>Keys := [''user'' \<mapsto> VString ''alice'']\<rparr>\<rparr>], pool = [0],
      nextAddr = 1, wire = []\<rparr>"
  have run: "serveStep 5 (New :: hop list Engine) ?s \<lparr>conn = 2, reqMethod = ''GET'', reqPath = ''/b'', phase = Start\<rparr> =
   Some (\<lparr>heap = [0 \<mapsto> \<lparr>pc = \<lparr>c_handlers = [], c_index = -1, Keys = [''user'' \<mapsto> VString ''alice''], c_fullPath = [], out = []\<rparr>,
                        writermem = \<lparr>rw_status = 200, rw_size = -1, rw_conn = 2\<rparr>\<rparr>],
           pool = [], nextAddr = 1, wire = []\<rparr>,
         \<lparr>conn = 2, reqMethod = ''GET'', reqPath = ''/b'', phase = Serving 0\<rparr>)"
    by (simp add: poolGet_def reset_def writer_reset_def allocateContext_def noWritten_def)
  show ?thesis
    using ServeHTTP_keeps_Keys [of ?s 0 "[]" _ _ 5 New, OF _ _ _ run] run
    by (simp add: allocateContext_def)
qed

text \<open>
  An example of the leak that \<open>ServeHTTP_keeps_Keys\<close> allows: on an engine where \<open>/a\<close>
  sets the key \<open>user\<close> and writes \<open>hi\<close>, and \<open>/b\<close> writes the value of \<open>user\<close>, a
  request for \<open>/a\<close> served to completion and then a request for \<open>/b\<close> on another
  connection make the server send \<open>alice\<close> to the second client.
\<close>

lemma Keys_leak_between_requests:
  "runSched 10 (New\<lparr>trees := [\<lparr>httpMethod = ''GET'', root = Node ''/'' ''ab'' 2
              [Node ''a'' [] 1 [] (Some [[SetKey ''user'' (VString ''alice''), Emit ''hi'']]) ''/a'',
               Node ''b'' [] 1 [] (Some [[EmitKey ''user'']]) ''/b''] None ''/''\<rparr>]\<rparr>) initServer [\<lparr>conn = 1, reqMethod = ''GET'', reqPath = ''/a'', phase = Start\<rparr>,
        \<lparr>conn = 2, reqMethod = ''GET'', reqPath = ''/b'', phase = Start\<rparr>] [0, 0, 0, 0, 1, 1, 1, 1] \<noteq> None \<and>
   wire (fst (the (runSched 10 (New\<lparr>trees := [\<lparr>httpMethod = ''GET'', root = Node ''/'' ''ab'' 2
              [Node ''a'' [] 1 [] (Some [[SetKey ''user'' (VString ''alice''), Emit ''hi'']]) ''/a'',
               Node ''b'' [] 1 [] (Some [[EmitKey ''user'']]) ''/b''] None ''/''\<rparr>]\<rparr>) initServer [\<lparr>conn = 1, reqMethod = ''GET'', reqPath = ''/a'', phase = Start\<rparr>,
        \<lparr>conn = 2, reqMethod = ''GET'', reqPath = ''/b'', phase = Start\<rparr>] [0, 0, 0, 0, 1, 1, 1, 1]))) =
     [WireHeader 1 200, WireBody 1 ''hi'', WireHeader 2 200, WireBody 2 ''alice'']"
  by code_simp

text \<open>
  Claim C23.  \<open>ServeHTTP\<close> returns the context to the pool before its deferred function
  runs, and that function writes through the context.  In every state where a request
  has served with the context at address \<open>a\<close>, if it puts the context back and another
  request takes a context from the pool before the deferred function runs, the second
  request gets the context at \<open>a\<close>, and the first request's \<open>serveError(c, 500, ...)\<close>
  finds the second request's writer not yet written: the second client receives status
  500 and \<open>500 server err\<close>, and nothing else is sent.
\<close>

theorem deferred_serveError_after_Put:
  assumes "phase r1 = Served a" "heap s a = Some c" "phase r2 = Start"
  shows "\<exists>s1 r1' s2 r2' s3 r1''.
           serveStep f e s r1 = Some (s1, r1') \<and> serveStep f e s1 r2 = Some (s2, r2') \<and>
           serveStep f e s2 r1' = Some (s3, r1'') \<and>
           phase r2' = Serving a \<and> phase r1'' = Finished \<and>
           wire s3 = wire s @ [WireHeader (conn r2) 500, WireBody (conn r2) default500Body]"
  using assms
  by (simp add: poolPut_def poolGet_def deferred_def serveError_def writeBody_def WriteHeaderNow_def
                Written_def writer_reset_def noWritten_def)

theorem deferred_serveError_after_Put_witness:
  "phase \<lparr>conn = 1, reqMethod = ''GET'', reqPath = ''/a'', phase = Served 0\<rparr> = Served 0 \<and>
   heap \<lparr>heap = [0 \<mapsto> allocateContext], pool = [], nextAddr = 1, wire = []\<rparr> 0 = Some allocateContext \<and>
   phase \<lparr>conn = 2, reqMethod = ''GET'', reqPath = ''/b'', phase = Start\<rparr> = Start \<and>
   (\<exists>s1 r1' s2 r2' s3 r1''.
      serveStep 3 (New :: hop list Engine) \<lparr>heap = [0 \<mapsto> allocateContext], pool = [], nextAddr = 1, wire = []\<rparr>
        \<lparr>conn = 1, reqMethod = ''GET'', reqPath = ''/a'', phase = Served 0\<rparr> = Some (s1, r1') \<and>
      serveStep 3 New s1 \<lparr>conn = 2, reqMethod = ''GET'', reqPath = ''/b'', phase = Start\<rparr> = Some (s2, r2') \<and>
      serveStep 3 New s2 r1' = Some (s3, r1'') \<and> phase r2' = Serving 0 \<and> phase r1'' = Finished \<and>
      wire s3 = [WireHeader 2 500, WireBody 2 default500Body])"
  using deferred_serveError_after_Put
    [of "\<lparr>conn = 1, reqMethod = ''GET'', reqPath = ''/a'', phase = Served 0\<rparr>" 0
        "\<lparr>heap = [0 \<mapsto> allocateContext], pool = [], nextAddr = 1, wire = []\<rparr>" allocateContext
        "\<lparr>conn = 2, reqMethod = ''GET'', reqPath = ''/b'', phase = Start\<rparr>" 3 New]
  by simp

text \<open>
  Claim C24.  A request for a method and path that have no route, served alone, gets
  exactly a 404 header and the body \<open>404 page not found\<close> on its own connection, and
  the deferred \<open>serveError(c, 500, ...)\<close> sends nothing more.
\<close>

theorem ServeHTTP_not_found:
  assumes "pool_ok s" "findHandlers (trees e) m p = Inr None"
  shows "\<exists>s'. runSched f e s [\<lparr>conn = k, reqMethod = m, reqPath = p, phase = Start\<rparr>] [0, 0, 0, 0] =
              Some (s', [\<lparr>conn = k, reqMethod = m, reqPath = p, phase = Finished\<rparr>]) \<and>
              wire s' = wire s @ [WireHeader k 404, WireBody k default404Body]"
proof -
  obtain s1 a where g: "poolGet s = (s1, a)" by (cases "poolGet s")
  from poolGet_ok [OF assms(1) g] obtain c where c: "heap s1 a = Some c" and w: "wire s1 = wire s" by auto
  show ?thesis
    using g c w assms(2)
    by (simp add: handleHTTPRequest_def serveError_def writeBody_def WriteHeaderNow_def Written_def
                  writer_reset_def noWritten_def deferred_def poolPut_def)
qed

theorem ServeHTTP_not_found_witness:
  "pool_ok initServer \<and> findHandlers (trees (New :: hop list Engine)) ''GET'' ''/x'' = Inr None \<and>
   (\<exists>s'. runSched 3 (New :: hop list Engine) initServer [\<lparr>conn = 7, reqMethod = ''GET'', reqPath = ''/x'', phase = Start\<rparr>]
           [0, 0, 0, 0] = Some (s', [\<lparr>conn = 7, reqMethod = ''GET'', reqPath = ''/x'', phase = Finished\<rparr>]) \<and>
         wire s' = [WireHeader 7 404, WireBody 7 default404Body])"
proof -
  have ok: "pool_ok initServer" by (simp add: pool_ok_def initServer_def)
  have nf: "findHandlers (trees (New :: hop list Engine)) ''GET'' ''/x'' = Inr None" by (simp add: New_def)
  show ?thesis using ServeHTTP_not_found [OF ok nf, of 3 7] ok nf by (simp add: initServer_def)
qed

end
