(* ===== verification/Context_Keys.thy ===== *)
theory Context_Keys
  imports Request_Context
begin

text \<open>
  The typed getters of the context's key/value store (\<open>src/unnamed/part_001\<close> lines
  505--607).  Each reads the key with \<open>Get\<close> and, when the key exists and its value is
  not nil, converts the value with a type assertion \<open>val.(T)\<close> whose failure is
  ignored; the result is the zero value of \<open>T\<close> for a missing key, a nil value and a
  value of another dynamic type alike.  Zero values: the empty string, \<open>false\<close>, 0, the
  bit pattern 0 for \<open>float64\<close> (the number 0.0), time 0 for \<open>time.Time{}\<close>, and the
  empty list for a nil slice or map.
\<close>

section \<open>Typed getters\<close>

definition GetString :: "Context \<Rightarrow> string \<Rightarrow> string" where
  "GetString c key =
     (case Get c key of
        Some val \<Rightarrow> (if val \<noteq> VNil then (case val of VString s \<Rightarrow> s | _ \<Rightarrow> []) else [])
      | None \<Rightarrow> [])"

definition GetBool :: "Context \<Rightarrow> string \<Rightarrow> bool" where
  "GetBool c key =
     (case Get c key of
        Some val \<Rightarrow> (if val \<noteq> VNil then (case val of VBool b \<Rightarrow> b | _ \<Rightarrow> False) else False)
      | None \<Rightarrow> False)"

definition GetInt :: "Context \<Rightarrow> string \<Rightarrow> 64 word" where
  "GetInt c key =
     (case Get c key of
        Some val \<Rightarrow> (if val \<noteq> VNil then (case val of VInt i \<Rightarrow> i | _ \<Rightarrow> 0) else 0)
      | None \<Rightarrow> 0)"

definition GetInt64 :: "Context \<Rightarrow> string \<Rightarrow> 64 word" where
  "GetInt64 c key =
     (case Get c key of
        Some val \<Rightarrow> (if val \<noteq> VNil then (case val of VInt64 i \<Rightarrow> i | _ \<Rightarrow> 0) else 0)
      | None \<Rightarrow> 0)"

definition GetUint :: "Context \<Rightarrow> string \<Rightarrow> 64 word" where
  "GetUint c key =
     (case Get c key of
        Some val \<Rightarrow> (if val \<noteq> VNil then (case val of VUint i \<Rightarrow> i | _ \<Rightarrow> 0) else 0)
      | None \<Rightarrow> 0)"

definition GetUint64 :: "Context \<Rightarrow> string \<Rightarrow> 64 word" where
  "GetUint64 c key =
     (case Get c key of
        Some val \<Rightarrow> (if val \<noteq> VNil then (case val of VUint64 i \<Rightarrow> i | _ \<Rightarrow> 0) else 0)
      | None \<Rightarrow> 0)"

definition GetFloat64 :: "Context \<Rightarrow> string \<Rightarrow> 64 word" where
  "GetFloat64 c key =
     (case Get c key of
        Some val \<Rightarrow> (if val \<noteq> VNil then (case val of VFloat64 f \<Rightarrow> f | _ \<Rightarrow> 0) else 0)
      | None \<Rightarrow> 0)"

definition GetTime :: "Context \<Rightarrow> string \<Rightarrow> int" where
  "GetTime c key =
     (case Get c key of
        Some val \<Rightarrow> (if val \<noteq> VNil then (case val of VTime t \<Rightarrow> t | _ \<Rightarrow> 0) else 0)
      | None \<Rightarrow> 0)"

definition GetDuration :: "Context \<Rightarrow> string \<Rightarrow> 64 word" where
  "GetDuration c key =
     (case Get c key of
        Some val \<Rightarrow> (if val \<noteq> VNil then (case val of VDuration d \<Rightarrow> d | _ \<Rightarrow> 0) else 0)
      | None \<Rightarrow> 0)"

definition GetStringSlice :: "Context \<Rightarrow> string \<Rightarrow> string list" where
  "GetStringSlice c key =
     (case Get c key of
        Some val \<Rightarrow> (if val \<noteq> VNil then (case val of VStringSlice ss \<Rightarrow> ss | _ \<Rightarrow> []) else [])
      | None \<Rightarrow> [])"

definition GetStringMap :: "Context \<Rightarrow> string \<Rightarrow> (string \<times> anyval) list" where
  "GetStringMap c key =
     (case Get c key of
        Some val \<Rightarrow> (if val \<noteq> VNil then (case val of VStringMap sm \<Rightarrow> sm | _ \<Rightarrow> []) else [])
      | None \<Rightarrow> [])"

definition GetStringMapString :: "Context \<Rightarrow> string \<Rightarrow> (string \<times> string) list" where
  "GetStringMapString c key =
     (case Get c key of
        Some val \<Rightarrow> (if val \<noteq> VNil then (case val of VStringMapString sm \<Rightarrow> sm | _ \<Rightarrow> []) else [])
      | None \<Rightarrow> [])"

definition GetStringMapStringSlice :: "Context \<Rightarrow> string \<Rightarrow> (string \<times> string list) list" where
  "GetStringMapStringSlice c key =
     (case Get c key of
        Some val \<Rightarrow> (if val \<noteq> VNil then (case val of VStringMapStringSlice sm \<Rightarrow> sm | _ \<Rightarrow> []) else [])
      | None \<Rightarrow> [])"

section \<open>Properties of the store\<close>

lemma Get_Set_same [simp]: "Get (Set c k v) k = Some v"
  by (simp add: Get_def Set_def)

lemma Get_Set_other [simp]: "k' \<noteq> k \<Longrightarrow> Get (Set c k v) k' = Get c k'"
  by (simp add: Get_def Set_def)

lemmas typed_getters = GetString_def GetBool_def GetInt_def GetInt64_def GetUint_def
  GetUint64_def GetFloat64_def GetTime_def GetDuration_def GetStringSlice_def GetStringMap_def
  GetStringMapString_def GetStringMapStringSlice_def

text \<open>Claim C25.  Storing a value of each dynamic type with \<open>Set\<close> and reading it back with
  the getter of that type returns the stored value, and \<open>Set\<close> leaves every other key as it
  was: the typed getters are the left inverses of \<open>Set\<close> on their own type.\<close>
theorem Set_typed_Get_round_trip:
  "GetString (Set c k (VString s)) k = s \<and> GetBool (Set c k (VBool b)) k = b
   \<and> GetInt (Set c k (VInt i)) k = i \<and> GetInt64 (Set c k (VInt64 i)) k = i
   \<and> GetUint (Set c k (VUint i)) k = i \<and> GetUint64 (Set c k (VUint64 i)) k = i
   \<and> GetFloat64 (Set c k (VFloat64 i)) k = i \<and> GetTime (Set c k (VTime t)) k = t
   \<and> GetDuration (Set c k (VDuration i)) k = i
   \<and> GetStringSlice (Set c k (VStringSlice ss)) k = ss
   \<and> GetStringMap (Set c k (VStringMap m)) k = m
   \<and> GetStringMapString (Set c k (VStringMapString ms)) k = ms
   \<and> GetStringMapStringSlice (Set c k (VStringMapStringSlice mss)) k = mss
   \<and> Get (Set c k v) k' = (if k' = k then Some v else Get c k')"
  by (simp add: typed_getters)

text \<open>The getters convert nothing: a value stored under another Go type, even
  another integer width, or a nil value, reads back as the zero value, the same result as for a
  missing key.  \<open>GetInt\<close> of an \<open>int64\<close> 7 is 0, \<open>GetFloat64\<close> of an \<open>int\<close> is 0.0, and a
  nil stored with \<open>Set\<close> is indistinguishable from an absent key.\<close>
lemma typed_Get_no_conversion:
  "GetInt (Set c k (VInt64 i)) k = 0 \<and> GetInt64 (Set c k (VInt i)) k = 0
   \<and> GetUint (Set c k (VInt i)) k = 0 \<and> GetFloat64 (Set c k (VInt i)) k = 0
   \<and> GetString (Set c k (VStringSlice [s])) k = []
   \<and> GetString (Set c k VNil) k = GetString (c\<lparr>Keys := (Keys c)(k := None)\<rparr>) k
   \<and> GetInt (Set c k VNil) k = GetInt (c\<lparr>Keys := (Keys c)(k := None)\<rparr>) k"
  by (simp add: typed_getters Get_def Set_def)

end
