(* ===== verification/Context_Response.thy ===== *)
theory Context_Response
  imports Server
begin

text \<open>
  The request body, the JSON responses and \<open>Value\<close> of the context
  (\<open>src/unnamed/part_001\<close> lines 281--398 and 454--470).

  \<open>RequestBody\<close> reads the body once and caches it in the context's \<open>data\<close> map under
  \<open>ReqBodyKey\<close>; the model keeps the request's body reader (\<open>None\<close> for a nil body, else
  what the next \<open>ioutil.ReadAll\<close> of it returns: an error or the bytes) and the map
  (\<open>None\<close> for a nil map).  A successful \<open>ReadAll\<close> consumes the reader (a further read
  returns no bytes) before the code puts back a \<open>NopCloser\<close> over the bytes; a reader that
  failed is kept, so it fails again.

  \<open>Data\<close> builds the body \<open>{code, message, data}\<close> from the handler's data and error and
  sends it with \<open>StatusJson\<close>.  An error is a value whose dynamic type may have the methods
  \<open>Code()\<close>/\<open>Message()\<close> and \<open>Data()\<close>; the model records the results of the methods it
  has.  A value of type \<open>interface{}\<close> is modelled by what \<open>isNilValue\<close> inspects, its kind
  and whether it is nil, with an opaque payload.  JSON encoding is a parameter \<open>enc\<close>
  (\<open>None\<close> when encoding fails).  \<open>ServerErr\<close> is not defined under the sources and is a
  parameter too.  \<open>StatusJson\<close> looks for a \<open>wroteHeader\<close> field of the writer by
  reflection; the writer (modelled in \<open>Server\<close>) has none, so the lookup is invalid and the
  status is always passed to \<open>WriteHeader\<close>.  The \<open>Content-Type\<close> header is not modelled.
\<close>

section \<open>Request body\<close>

datatype dataval = DBytes string | DOther string

record bodyState =
  Body :: "(string + string) option"
  data :: "(string \<rightharpoonup> dataval) option"

definition ReqBodyKey :: string where "ReqBodyKey = ''_hapi/requestBody''"

definition cached :: "bodyState \<Rightarrow> dataval option" where
  "cached st = (case data st of Some m \<Rightarrow> m ReqBodyKey | None \<Rightarrow> None)"

definition RequestBody :: "bodyState \<Rightarrow> bodyState \<times> string \<times> string option" where
  "RequestBody st =
     (case Body st of
        None \<Rightarrow> (st, [], None)
      | Some rd \<Rightarrow>
          (case cached st of
             Some d \<Rightarrow> (st, (case d of DBytes body \<Rightarrow> body | DOther _ \<Rightarrow> []), None)
           | None \<Rightarrow>
               (case rd of
                  Inl err \<Rightarrow> (st, [], Some err)
                | Inr body \<Rightarrow>
                    (let st1 = st\<lparr>Body := Some (Inr [])\<rparr>;
                         m = (case data st1 of None \<Rightarrow> Map.empty | Some m \<Rightarrow> m);
                         st2 = st1\<lparr>data := Some (m(ReqBodyKey \<mapsto> DBytes body))\<rparr>
                     in (st2\<lparr>Body := Some (Inr body)\<rparr>, body, None)))))"

section \<open>Response values\<close>

datatype ikind = KPtr | KMap | KSlice | KInterface | KOther

datatype iface = INil | IVal ikind bool string

definition isNilValue :: "iface \<Rightarrow> bool" where
  "isNilValue itfc =
     (case itfc of
        INil \<Rightarrow> False
      | IVal k isnil _ \<Rightarrow> (if k \<in> {KPtr, KMap, KSlice, KInterface} then isnil else False))"

record appErr =
  errCoder :: "(nat \<times> string) option"
  errData :: "iface option"

definition StatusOK :: int where "StatusOK = 200"
definition StatusInternalServerError :: int where "StatusInternalServerError = 500"

definition getData :: "iface \<Rightarrow> appErr option \<Rightarrow> int \<Rightarrow> iface" where
  "getData d err code =
     (let plain = (if d \<noteq> INil \<and> \<not> isNilValue d then d else INil) in
      case err of
        Some e \<Rightarrow>
          (if code \<noteq> StatusInternalServerError then
             (case errData e of Some ed \<Rightarrow> (if ed \<noteq> INil then ed else plain) | None \<Rightarrow> plain)
           else plain)
      | None \<Rightarrow> plain)"

record dataBody =
  bCode :: nat
  bMessage :: string
  bData :: iface

definition Data_body :: "nat \<Rightarrow> iface \<Rightarrow> appErr option \<Rightarrow> int \<times> dataBody" where
  "Data_body ServerErr d err =
     (let (statusCode, code, message) =
        (case err of
           None \<Rightarrow> (StatusOK, 0, ''success'')
         | Some e \<Rightarrow>
             (case errCoder e of
                Some (c, m) \<Rightarrow> (if c \<noteq> 0 then (StatusOK, c, m) else (StatusInternalServerError, ServerErr, ''Server Error.''))
              | None \<Rightarrow> (StatusInternalServerError, ServerErr, ''Server Error.'')))
      in (statusCode, \<lparr>bCode = code, bMessage = message, bData = getData d err statusCode\<rparr>))"

section \<open>Writing JSON\<close>

datatype jsonBody = JData dataBody | JOk string string | JAny iface

text \<open>\<open>WriteHeader\<close> of the writer: a new status is recorded until the header is sent.\<close>

definition WriteHeader :: "responseWriter \<Rightarrow> int \<Rightarrow> responseWriter" where
  "WriteHeader w code = (if 0 < code \<and> rw_status w \<noteq> code \<and> \<not> Written w then w\<lparr>rw_status := code\<rparr> else w)"

definition jsonMarshalError :: string where
  "jsonMarshalError = ''{\"code\":\"json-marshal-error\",\"message\":\"json marshal error\"}''"

definition StatusJson ::
  "(jsonBody \<Rightarrow> string option) \<Rightarrow> responseWriter \<Rightarrow> wire_event list \<Rightarrow> int \<Rightarrow> jsonBody
   \<Rightarrow> responseWriter \<times> wire_event list" where
  "StatusJson enc w ws status body =
     (let w = WriteHeader w status in
      case enc body of
        Some js \<Rightarrow> writeBody w ws (js @ ''\<newline>'')
      | None \<Rightarrow> writeBody w ws jsonMarshalError)"

definition Data ::
  "(jsonBody \<Rightarrow> string option) \<Rightarrow> nat \<Rightarrow> responseWriter \<Rightarrow> wire_event list \<Rightarrow> iface \<Rightarrow> appErr option
   \<Rightarrow> responseWriter \<times> wire_event list" where
  "Data enc ServerErr w ws d err =
     (let (statusCode, body) = Data_body ServerErr d err in StatusJson enc w ws statusCode (JData body))"

definition Ok :: "(jsonBody \<Rightarrow> string option) \<Rightarrow> responseWriter \<Rightarrow> wire_event list \<Rightarrow> string
   \<Rightarrow> responseWriter \<times> wire_event list" where
  "Ok enc w ws message = StatusJson enc w ws StatusOK (JOk ''ok'' message)"

definition Json :: "(jsonBody \<Rightarrow> string option) \<Rightarrow> responseWriter \<Rightarrow> wire_event list \<Rightarrow> iface
   \<Rightarrow> responseWriter \<times> wire_event list" where
  "Json enc w ws d = StatusJson enc w ws StatusOK (JAny d)"

section \<open>Context values\<close>

datatype ctxValue = CVRequest | CVContext | CVAny anyval

definition ContextKey :: string where "ContextKey = ''_hapi/contextkey''"

text \<open>\<open>Value\<close>, with the request's \<open>context.Context\<close> given by its \<open>Value\<close> method
  (\<open>None\<close> when the request or its context is nil).  The key \<open>0\<close> is the \<open>int\<close> zero.\<close>

definition Value :: "Context \<Rightarrow> (anyval \<Rightarrow> anyval) option \<Rightarrow> anyval \<Rightarrow> ctxValue" where
  "Value c reqCtx key =
     (if key = VInt 0 then CVRequest
      else if key = VString ContextKey then CVContext
      else (case (case key of VString k \<Rightarrow> Get c k | _ \<Rightarrow> None) of
              Some val \<Rightarrow> CVAny val
            | None \<Rightarrow> (case reqCtx of None \<Rightarrow> CVAny VNil | Some f \<Rightarrow> CVAny (f key))))"

section \<open>Properties\<close>

subsection \<open>Request body\<close>

text \<open>A nil body is read as no bytes and no error, and nothing is cached.\<close>

lemma RequestBody_nil_body:
  "Body st = None \<Longrightarrow> RequestBody st = (st, [], None)"
  by (simp add: RequestBody_def)

text \<open>A successful first read caches the bytes: the next call returns the same bytes
  from the cache and changes nothing, whatever the map held before under other keys.\<close>

lemma RequestBody_cached_after_read:
  assumes "RequestBody st = (st', body, None)"
  shows "RequestBody st' = (st', body, None)"
proof (cases "Body st")
  case None
  then show ?thesis using assms by (simp add: RequestBody_def)
next
  case (Some rd)
  show ?thesis
  proof (cases "cached st")
    case (Some d)
    then show ?thesis using assms \<open>Body st = Some rd\<close>
      by (simp add: RequestBody_def)
  next
    case None
    then show ?thesis using assms \<open>Body st = Some rd\<close>
      by (auto simp: RequestBody_def cached_def Let_def split: sum.splits option.splits)
  qed
qed

text \<open>Claim C26.  The first \<open>RequestBody\<close> of a body returns its bytes, caches them, and
  leaves the request's body readable: \<open>ReadAll\<close> consumed the reader, and the code puts back
  a reader over the same bytes.  A second call returns the same bytes from the cache and
  changes nothing.\<close>

theorem RequestBody_first_read:
  assumes "Body st = Some (Inr b)" "cached st = None"
  shows "\<exists>st'. RequestBody st = (st', b, None) \<and> Body st' = Some (Inr b) \<and>
                cached st' = Some (DBytes b) \<and> RequestBody st' = (st', b, None)"
  using assms by (simp add: RequestBody_def cached_def Let_def)

theorem RequestBody_first_read_witness:
  "Body \<lparr>Body = Some (Inr ''{\"a\":1}''), data = None\<rparr> = Some (Inr ''{\"a\":1}'') \<and>
   cached \<lparr>Body = Some (Inr ''{\"a\":1}''), data = None\<rparr> = None \<and>
   (\<exists>st'. RequestBody \<lparr>Body = Some (Inr ''{\"a\":1}''), data = None\<rparr> = (st', ''{\"a\":1}'', None) \<and>
      Body st' = Some (Inr ''{\"a\":1}'') \<and> cached st' = Some (DBytes ''{\"a\":1}'') \<and>
      RequestBody st' = (st', ''{\"a\":1}'', None))"
  using RequestBody_first_read [of "\<lparr>Body = Some (Inr ''{\"a\":1}''), data = None\<rparr>" "''{\"a\":1}''"]
  by (simp add: cached_def)

text \<open>A read that fails returns the error and leaves the context as it was, so a
  later call reads (and fails) again.\<close>

lemma RequestBody_error_unchanged:
  "Body st = Some (Inl e) \<Longrightarrow> cached st = None \<Longrightarrow> RequestBody st = (st, [], Some e)"
  by (simp add: RequestBody_def)

text \<open>Reading keeps every other key of the context's map.\<close>

lemma RequestBody_keeps_other_keys:
  assumes "RequestBody st = (st', b, r)" "data st = Some m" "k \<noteq> ReqBodyKey"
  shows "\<exists>m'. data st' = Some m' \<and> m' k = m k"
  using assms
  by (auto simp: RequestBody_def cached_def Let_def split: option.splits sum.splits)

subsection \<open>The body of \<open>Data\<close>\<close>

text \<open>No error: status 200, code 0, message \<open>success\<close>, and the data unless it is nil.\<close>

lemma Data_body_success:
  "Data_body ServerErr d None =
     (200, \<lparr>bCode = 0, bMessage = ''success'', bData = (if d = INil \<or> isNilValue d then INil else d)\<rparr>)"
  by (simp add: Data_body_def getData_def StatusOK_def)

text \<open>An error with a non-zero code: status 200 with the error's code and message, and the
  error's own data when it has some.\<close>

lemma Data_body_coded_error:
  assumes "errCoder e = Some (c, m)" "c \<noteq> 0" "errData e = Some ed" "ed \<noteq> INil"
  shows "Data_body ServerErr d (Some e) = (200, \<lparr>bCode = c, bMessage = m, bData = ed\<rparr>)"
  using assms by (simp add: Data_body_def getData_def StatusOK_def StatusInternalServerError_def)

text \<open>Claim C27.  An error without a non-zero \<open>Code()\<close> makes \<open>Data\<close> answer status 500
  with \<open>ServerErr\<close> and \<open>Server Error.\<close>; the error's \<open>Data()\<close> is not consulted, but the
  handler's own data is still sent unless it is nil.\<close>

theorem Data_body_server_error:
  assumes "case errCoder e of None \<Rightarrow> True | Some (c, m) \<Rightarrow> c = 0"
  shows "Data_body ServerErr d (Some e) =
           (500, \<lparr>bCode = ServerErr, bMessage = ''Server Error.'',
                  bData = (if d = INil \<or> isNilValue d then INil else d)\<rparr>)"
  using assms
  by (auto simp: Data_body_def getData_def StatusOK_def StatusInternalServerError_def
           split: option.splits)

theorem Data_body_server_error_witness:
  "(case errCoder \<lparr>errCoder = None, errData = Some (IVal KOther False ''detail'')\<rparr> of
      None \<Rightarrow> True | Some (c, m) \<Rightarrow> c = 0) \<and>
   Data_body 7 (IVal KPtr False ''user'') (Some \<lparr>errCoder = None, errData = Some (IVal KOther False ''detail'')\<rparr>) =
     (500, \<lparr>bCode = 7, bMessage = ''Server Error.'', bData = IVal KPtr False ''user''\<rparr>)"
  using Data_body_server_error [of "\<lparr>errCoder = None, errData = Some (IVal KOther False ''detail'')\<rparr>" 7
                                  "IVal KPtr False ''user''"]
  by (simp add: isNilValue_def)

text \<open>The data sent is never a nil pointer, map, slice or interface.\<close>

lemma getData_not_nil:
  "getData d None code = INil \<or> \<not> isNilValue (getData d None code)"
  by (simp add: getData_def)

subsection \<open>Writing\<close>

text \<open>Claim C28.  On a writer that has sent nothing, \<open>StatusJson\<close> sends the given status
  and then one body: the encoding followed by a newline, or the fixed marshal error when the
  encoding fails.\<close>

theorem StatusJson_fresh:
  assumes "\<not> Written w" "0 < status"
  shows "snd (StatusJson enc w ws status body) =
           ws @ [WireHeader (rw_conn w) status,
                 WireBody (rw_conn w) (case enc body of Some js \<Rightarrow> js @ ''\<newline>'' | None \<Rightarrow> jsonMarshalError)]"
  using assms
  by (simp add: StatusJson_def WriteHeader_def writeBody_def WriteHeaderNow_def Written_def
           split: option.splits)

theorem StatusJson_fresh_witness:
  "\<not> Written \<lparr>rw_status = 200, rw_size = -1, rw_conn = 3\<rparr> \<and> (0::int) < 404 \<and>
   snd (StatusJson (\<lambda>_. None) \<lparr>rw_status = 200, rw_size = -1, rw_conn = 3\<rparr> [] 404 (JOk ''ok'' ''m'')) =
     [WireHeader 3 404, WireBody 3 jsonMarshalError]"
  using StatusJson_fresh [of "\<lparr>rw_status = 200, rw_size = -1, rw_conn = 3\<rparr>" 404 "\<lambda>_. None" "[]" "JOk ''ok'' ''m''"]
  by (simp add: Written_def noWritten_def)

text \<open>Once the header is sent, \<open>StatusJson\<close> no longer changes the status: it only appends
  a body.\<close>

lemma StatusJson_written:
  assumes "Written w"
  shows "\<exists>d. snd (StatusJson enc w ws status body) = ws @ [WireBody (rw_conn w) d]"
  using assms
  by (auto simp: StatusJson_def WriteHeader_def writeBody_def WriteHeaderNow_def
           split: option.splits)

subsection \<open>Context values\<close>

text \<open>\<open>Value\<close> answers the reserved keys before the keys set with \<open>Set\<close>: the string key
  \<open>ContextKey\<close> yields the context even when the map holds a value under it.\<close>

lemma Value_ContextKey_shadows_Keys:
  "Value c reqCtx (VString ContextKey) = CVContext"
  by (simp add: Value_def)

text \<open>A string key set on the context is found before the request's context is asked.\<close>

lemma Value_Get:
  "k \<noteq> ContextKey \<Longrightarrow> Get c k = Some v \<Longrightarrow> Value c reqCtx (VString k) = CVAny v"
  by (simp add: Value_def)

end
