(* ===== verification/Net_Addr.thy ===== *)
theory Net_Addr
  imports Prelude
begin

text \<open>
  The client address of a request (\<open>src/unnamed/part_001\<close> lines 403--421):
  \<open>RemoteIP\<close> trims \<open>Request.RemoteAddr\<close> with \<open>strings.TrimSpace\<close> and splits off the port
  with \<open>net.SplitHostPort\<close>; \<open>ClientIP\<close> parses the host with \<open>net.ParseIP\<close> and prints it
  back.  The two library functions are translated from the Go sources of the standard
  library, on the bytes of the string: \<open>TrimSpace\<close> removes the UTF-8 encodings of the
  Unicode white space runes at both ends (a byte that is not part of a valid encoding stops
  the trimming, as \<open>utf8.RuneError\<close> is not a space), and \<open>SplitHostPort\<close> returns the
  reason of its \<open>AddrError\<close> as the error.  \<open>net.JoinHostPort\<close>, its inverse, is the
  reference for the round trip.  \<open>ParseIP\<close> followed by \<open>String\<close> is a parameter
  (\<open>None\<close> for a string that is not an IP address).
\<close>

section \<open>\<open>strings.TrimSpace\<close>\<close>

text \<open>\<open>asciiSpace\<close>, the table of the ASCII fast path.\<close>

definition asciiSpace :: "char \<Rightarrow> bool" where
  "asciiSpace c = (c \<in> {CHR 0x09, CHR 0x0A, CHR 0x0B, CHR 0x0C, CHR 0x0D, CHR 0x20})"

text \<open>The UTF-8 encodings of the runes for which \<open>unicode.IsSpace\<close> holds: the ASCII
  spaces, U+0085, U+00A0, U+1680, U+2000--U+200A, U+2028, U+2029, U+202F, U+205F, U+3000.\<close>

definition space_encodings :: "string list" where
  "space_encodings =
     [[CHR 0x09], [CHR 0x0A], [CHR 0x0B], [CHR 0x0C], [CHR 0x0D], [CHR 0x20],
      [CHR 0xC2, CHR 0x85], [CHR 0xC2, CHR 0xA0], [CHR 0xE1, CHR 0x9A, CHR 0x80],
      [CHR 0xE2, CHR 0x80, CHR 0x80], [CHR 0xE2, CHR 0x80, CHR 0x81], [CHR 0xE2, CHR 0x80, CHR 0x82],
      [CHR 0xE2, CHR 0x80, CHR 0x83], [CHR 0xE2, CHR 0x80, CHR 0x84], [CHR 0xE2, CHR 0x80, CHR 0x85],
      [CHR 0xE2, CHR 0x80, CHR 0x86], [CHR 0xE2, CHR 0x80, CHR 0x87], [CHR 0xE2, CHR 0x80, CHR 0x88],
      [CHR 0xE2, CHR 0x80, CHR 0x89], [CHR 0xE2, CHR 0x80, CHR 0x8A],
      [CHR 0xE2, CHR 0x80, CHR 0xA8], [CHR 0xE2, CHR 0x80, CHR 0xA9], [CHR 0xE2, CHR 0x80, CHR 0xAF],
      [CHR 0xE2, CHR 0x81, CHR 0x9F], [CHR 0xE3, CHR 0x80, CHR 0x80]]"

text \<open>The length of the (non-empty) encoding that \<open>s\<close> starts with, or 0.\<close>

definition match_len :: "string list \<Rightarrow> string \<Rightarrow> nat" where
  "match_len es s = (case find (\<lambda>e. e \<noteq> [] \<and> take (length e) s = e) es of Some e \<Rightarrow> length e | None \<Rightarrow> 0)"

lemma match_len_less:
  assumes "match_len es s \<noteq> 0"
  shows "length s - match_len es s < length s"
proof -
  obtain e where found: "find (\<lambda>e. e \<noteq> [] \<and> take (length e) s = e) es = Some e"
    and len: "match_len es s = length e"
    using assms by (auto simp: match_len_def split: option.splits)
  from found have "e \<noteq> [] \<and> take (length e) s = e"
    by (auto simp: find_Some_iff)
  then have "0 < length e" "length e \<le> length s"
    by (auto dest: arg_cong[where f = length])
  with len show ?thesis by (metis diff_less order_less_le_trans)
qed

function drop_matches :: "string list \<Rightarrow> string \<Rightarrow> string" where
  "drop_matches es s = (if match_len es s = 0 then s else drop_matches es (drop (match_len es s) s))"
  by pat_completeness auto
termination
  by (relation "measure (\<lambda>(es, s). length s)") (auto intro: match_len_less)

declare drop_matches.simps [simp del]

text \<open>A visible ASCII byte, neither a space nor a control byte.\<close>

definition ascii_graphic :: "char \<Rightarrow> bool" where
  "ascii_graphic c = ((32::nat) < of_char c \<and> of_char c < (127::nat))"

text \<open>The encodings start with distinct bytes: an ASCII space byte only begins its
  one-byte encoding, and every other encoding begins with a byte of 128 or more.\<close>

definition encodings_ok :: "string list \<Rightarrow> bool" where
  "encodings_ok es = (\<forall>e\<in>set es. e \<noteq> [] \<and> (asciiSpace (hd e) \<longrightarrow> e = [hd e]) \<and>
     (\<not> asciiSpace (hd e) \<longrightarrow> (128::nat) \<le> of_char (hd e)))"

definition TrimSpace :: "string \<Rightarrow> string" where
  "TrimSpace s = rev (drop_matches (map rev space_encodings) (rev (drop_matches space_encodings s)))"

section \<open>\<open>net.SplitHostPort\<close> and \<open>net.JoinHostPort\<close>\<close>

text \<open>\<open>bytealg.IndexByteString\<close> and \<open>last\<close> of \<open>net\<close>, with \<open>None\<close> for -1.\<close>

primrec IndexByte :: "string \<Rightarrow> char \<Rightarrow> nat option" where
  "IndexByte [] b = None"
| "IndexByte (x # xs) b = (if x = b then Some 0 else map_option Suc (IndexByte xs b))"

definition last_byte :: "string \<Rightarrow> char \<Rightarrow> nat option" where
  "last_byte s b = map_option (\<lambda>i. length s - 1 - i) (IndexByte (rev s) b)"

definition missingPort :: string where "missingPort = ''missing port in address''"
definition tooManyColons :: string where "tooManyColons = ''too many colons in address''"
definition missingBracket :: string where "missingBracket = ''missing ']' in address''"
definition unexpectedOpen :: string where "unexpectedOpen = ''unexpected '[' in address''"
definition unexpectedClose :: string where "unexpectedClose = ''unexpected ']' in address''"

text \<open>The host and the positions \<open>j\<close>, \<open>k\<close> after which no bracket may follow.\<close>

definition split_host :: "string \<Rightarrow> nat \<Rightarrow> string + (string \<times> nat \<times> nat)" where
  "split_host hp i =
     (if hp ! 0 = CHR ''['' then
        (case IndexByte hp CHR '']'' of
           None \<Rightarrow> Inl missingBracket
         | Some e \<Rightarrow>
             (if e + 1 = length hp then Inl missingPort
              else if e + 1 = i then Inr (take (e - 1) (drop 1 hp), 1, e + 1)
              else if hp ! (e + 1) = CHR '':'' then Inl tooManyColons
              else Inl missingPort))
      else
        (let host = take i hp in
         if IndexByte host CHR '':'' \<noteq> None then Inl tooManyColons else Inr (host, 0, 0)))"

definition SplitHostPort :: "string \<Rightarrow> string + (string \<times> string)" where
  "SplitHostPort hp =
     (case last_byte hp CHR '':'' of
        None \<Rightarrow> Inl missingPort
      | Some i \<Rightarrow>
          (case split_host hp i of
             Inl why \<Rightarrow> Inl why
           | Inr (host, j, k) \<Rightarrow>
               (if IndexByte (drop j hp) CHR ''['' \<noteq> None then Inl unexpectedOpen
                else if IndexByte (drop k hp) CHR '']'' \<noteq> None then Inl unexpectedClose
                else Inr (host, drop (i + 1) hp))))"

definition JoinHostPort :: "string \<Rightarrow> string \<Rightarrow> string" where
  "JoinHostPort host port =
     (if IndexByte host CHR '':'' \<noteq> None then ''['' @ host @ '']:'' @ port else host @ '':'' @ port)"

section \<open>\<open>RemoteIP\<close> and \<open>ClientIP\<close>\<close>

definition RemoteIP :: "string \<Rightarrow> string" where
  "RemoteIP remoteAddr = (case SplitHostPort (TrimSpace remoteAddr) of Inl _ \<Rightarrow> [] | Inr (ip, _) \<Rightarrow> ip)"

definition ClientIP :: "(string \<Rightarrow> string option) \<Rightarrow> string \<Rightarrow> string" where
  "ClientIP parseIP remoteAddr = (case parseIP (RemoteIP remoteAddr) of None \<Rightarrow> [] | Some ip \<Rightarrow> ip)"

section \<open>Properties\<close>

subsection \<open>Byte search\<close>

lemma IndexByte_None_iff [simp]: "(IndexByte xs b = None) = (b \<notin> set xs)"
  by (induction xs) auto

lemma IndexByte_hit: "b \<notin> set xs \<Longrightarrow> IndexByte (xs @ b # ys) b = Some (length xs)"
  by (induction xs) auto

lemma last_byte_hit: "b \<notin> set ys \<Longrightarrow> last_byte (xs @ b # ys) b = Some (length xs)"
  by (simp add: last_byte_def IndexByte_hit[of b "rev ys"])

lemma last_byte_None_iff: "(last_byte s b = None) = (b \<notin> set s)"
  by (simp add: last_byte_def)

subsection \<open>Trimming\<close>

lemma find_SomeD: "find P xs = Some x \<Longrightarrow> x \<in> set xs \<and> P x"
  by (auto simp: find_Some_iff)

lemma take_hd: "e \<noteq> [] \<Longrightarrow> take (length e) (c # s) = e \<Longrightarrow> hd e = c"
  by (cases e) auto

lemma asciiSpace_le: "asciiSpace c \<Longrightarrow> of_char c \<le> (32::nat)"
  by (auto simp: asciiSpace_def)

lemma encodings_ok_space: "encodings_ok space_encodings"
  by (simp add: encodings_ok_def space_encodings_def asciiSpace_def)

lemma encodings_ok_rev: "encodings_ok (map rev space_encodings)"
proof -
  have "\<forall>e\<in>set space_encodings. e \<noteq> [] \<and> (asciiSpace (last e) \<longrightarrow> e = [last e]) \<and>
     (\<not> asciiSpace (last e) \<longrightarrow> (128::nat) \<le> of_char (last e))"
    by (simp add: space_encodings_def asciiSpace_def)
  then show ?thesis
    by (auto simp: encodings_ok_def hd_rev) (metis rev_singleton_conv)
qed

lemma single_space_encodings:
  "asciiSpace c \<Longrightarrow> [c] \<in> set space_encodings \<and> [c] \<in> set (map rev space_encodings)"
  by (auto simp: asciiSpace_def space_encodings_def)

lemma match_len_asciiSpace:
  assumes "encodings_ok es" "[c] \<in> set es" "asciiSpace c"
  shows "match_len es (c # s) = 1"
proof -
  let ?P = "\<lambda>e. e \<noteq> [] \<and> take (length e) (c # s) = e"
  obtain e where e: "find ?P es = Some e"
    using assms(2) by (cases "find ?P es") (auto simp: find_None_iff)
  then have "e \<in> set es" "?P e" by (auto dest: find_SomeD)
  then have "e = [c]" using assms(1,3) take_hd by (fastforce simp: encodings_ok_def)
  then show ?thesis using e by (simp add: match_len_def)
qed

lemma match_len_graphic:
  assumes "encodings_ok es" "ascii_graphic c"
  shows "match_len es (c # s) = 0"
proof (cases "find (\<lambda>e. e \<noteq> [] \<and> take (length e) (c # s) = e) es")
  case (Some e)
  then have "e \<in> set es" "e \<noteq> []" "hd e = c" by (auto dest!: find_SomeD take_hd)
  then show ?thesis
    using assms asciiSpace_le[of c] by (auto simp: encodings_ok_def ascii_graphic_def)
qed (simp add: match_len_def)

lemma drop_matches_stop: "match_len es s = 0 \<Longrightarrow> drop_matches es s = s"
  by (simp add: drop_matches.simps)

lemma drop_matches_padding:
  assumes "\<forall>c\<in>set sp. asciiSpace c" "encodings_ok es" "\<forall>c. asciiSpace c \<longrightarrow> [c] \<in> set es"
  shows "drop_matches es (sp @ s) = drop_matches es s"
  using assms(1)
proof (induction sp)
  case (Cons c sp)
  then show ?case
    using match_len_asciiSpace[OF assms(2)] assms(3) by (simp add: drop_matches.simps[of es "c # _"])
qed simp

lemma TrimSpace_padding:
  assumes "\<forall>c\<in>set sp. asciiSpace c" "\<forall>c\<in>set sp'. asciiSpace c"
    and "s \<noteq> []" "ascii_graphic (hd s)" "ascii_graphic (last s)"
  shows "TrimSpace (sp @ s @ sp') = s"
proof -
  have l: "drop_matches space_encodings (sp @ s @ sp') = s @ sp'"
    using assms drop_matches_padding[of sp space_encodings "s @ sp'"] encodings_ok_space
      single_space_encodings drop_matches_stop match_len_graphic[of space_encodings "hd s" "tl s @ sp'"]
    by (cases s) auto
  have "drop_matches (map rev space_encodings) (rev sp' @ rev s) = rev s"
    using assms drop_matches_padding[of "rev sp'" "map rev space_encodings" "rev s"] encodings_ok_rev
      single_space_encodings drop_matches_stop
      match_len_graphic[of "map rev space_encodings" "last s" "rev (butlast s)"]
    by (cases s rule: rev_cases) auto
  then show ?thesis using l by (simp add: TrimSpace_def)
qed


subsection \<open>Splitting and joining\<close>

text \<open>\<open>SplitHostPort\<close> inverts \<open>JoinHostPort\<close> for a host without brackets and a port
  without colons or brackets.\<close>

lemma SplitHostPort_JoinHostPort:
  assumes h: "CHR ''['' \<notin> set h" "CHR '']'' \<notin> set h"
    and p: "CHR '':'' \<notin> set p" "CHR ''['' \<notin> set p" "CHR '']'' \<notin> set p"
  shows "SplitHostPort (JoinHostPort h p) = Inr (h, p)"
proof (cases "CHR '':'' \<in> set h")
  case True
  define hp where "hp = (CHR ''['' # h @ [CHR '']'']) @ CHR '':'' # p"
  have join: "JoinHostPort h p = hp"
    using True by (simp add: JoinHostPort_def hp_def)
  have i: "last_byte hp CHR '':'' = Some (length h + 2)"
    using last_byte_hit[OF p(1), of "CHR ''['' # h @ [CHR '']'']"] by (simp add: hp_def)
  have e: "IndexByte hp CHR '']'' = Some (length h + 1)"
    using h IndexByte_hit[of "CHR '']''" "CHR ''['' # h"] by (simp add: hp_def)
  have "split_host hp (length h + 2) = Inr (h, 1, length h + 2)"
    using e by (simp add: split_host_def hp_def)
  moreover have "drop (length h + 2) hp = CHR '':'' # p" "drop (length h + 3) hp = p"
    by (simp_all add: hp_def eval_nat_numeral)
  ultimately show ?thesis
    using h p i by (simp add: SplitHostPort_def join hp_def)
next
  case False
  define hp where "hp = h @ CHR '':'' # p"
  have join: "JoinHostPort h p = hp"
    using False by (simp add: JoinHostPort_def hp_def)
  have i: "last_byte hp CHR '':'' = Some (length h)"
    using last_byte_hit[OF p(1), of h] by (simp add: hp_def)
  have "hp ! 0 \<noteq> CHR ''[''"
    using h by (cases h) (auto simp: hp_def)
  then have "split_host hp (length h) = Inr (h, 0, 0)"
    using False by (simp add: split_host_def hp_def)
  then show ?thesis
    using h p i False by (simp add: SplitHostPort_def join hp_def)
qed

subsection \<open>\<open>RemoteIP\<close> and \<open>ClientIP\<close>\<close>

lemma set_drop_matches: "set (drop_matches es s) \<subseteq> set s"
proof (induction es s rule: drop_matches.induct)
  case (1 es s)
  then show ?case
    by (subst drop_matches.simps) (auto dest: in_set_dropD)
qed

lemma set_TrimSpace: "set (TrimSpace s) \<subseteq> set s"
proof -
  have "set (drop_matches (map rev space_encodings) (rev (drop_matches space_encodings s)))
          \<subseteq> set (drop_matches space_encodings s)"
    by (metis set_drop_matches set_rev)
  then show ?thesis
    using set_drop_matches[of space_encodings s] by (simp add: TrimSpace_def)
qed

lemma JoinHostPort_graphic:
  "\<forall>c\<in>set h. ascii_graphic c \<Longrightarrow> \<forall>c\<in>set p. ascii_graphic c \<Longrightarrow>
   JoinHostPort h p \<noteq> [] \<and> (\<forall>c\<in>set (JoinHostPort h p). ascii_graphic c)"
  by (auto simp: JoinHostPort_def ascii_graphic_def)

text \<open>\<open>RemoteIP\<close> of an address \<open>host:port\<close> (\<open>[host]:port\<close> for a host with colons)
  padded with ASCII white space is the host.\<close>

lemma RemoteIP_JoinHostPort:
  assumes "\<forall>c\<in>set sp. asciiSpace c" "\<forall>c\<in>set sp'. asciiSpace c"
    and "\<forall>c\<in>set h. ascii_graphic c" "\<forall>c\<in>set p. ascii_graphic c"
    and "CHR ''['' \<notin> set h" "CHR '']'' \<notin> set h"
    and "CHR '':'' \<notin> set p" "CHR ''['' \<notin> set p" "CHR '']'' \<notin> set p"
  shows "RemoteIP (sp @ JoinHostPort h p @ sp') = h"
proof -
  have "JoinHostPort h p \<noteq> []" "\<forall>c\<in>set (JoinHostPort h p). ascii_graphic c"
    using JoinHostPort_graphic assms(3,4) by blast+
  then have "TrimSpace (sp @ JoinHostPort h p @ sp') = JoinHostPort h p"
    using TrimSpace_padding assms(1,2) by simp
  then show ?thesis
    using SplitHostPort_JoinHostPort assms(5-9) by (simp add: RemoteIP_def)
qed

text \<open>An address without a port (no colon) has no remote IP, and the client IP is then
  whatever \<open>ParseIP\<close> makes of the empty string.\<close>

lemma RemoteIP_missing_port:
  "CHR '':'' \<notin> set remoteAddr \<Longrightarrow> RemoteIP remoteAddr = []"
proof -
  assume "CHR '':'' \<notin> set remoteAddr"
  then have "last_byte (TrimSpace remoteAddr) CHR '':'' = None"
    using set_TrimSpace[of remoteAddr] by (auto simp: last_byte_None_iff)
  then show ?thesis by (simp add: RemoteIP_def SplitHostPort_def)
qed

text \<open>Claim C29.  \<open>ClientIP\<close> is the parsed host of \<open>Request.RemoteAddr\<close>: for an address
  \<open>host:port\<close>, or \<open>[host]:port\<close> for a host with colons such as an IPv6 address, padded
  with white space, it is what \<open>ParseIP\<close> makes of the host; no header of the request is
  read, although the comment of \<open>ClientIP\<close> says the trusted-proxy headers are.\<close>

theorem ClientIP_JoinHostPort:
  assumes "\<forall>c\<in>set sp. asciiSpace c" "\<forall>c\<in>set sp'. asciiSpace c"
    and "\<forall>c\<in>set h. ascii_graphic c" "\<forall>c\<in>set p. ascii_graphic c"
    and "CHR ''['' \<notin> set h" "CHR '']'' \<notin> set h"
    and "CHR '':'' \<notin> set p" "CHR ''['' \<notin> set p" "CHR '']'' \<notin> set p"
  shows "ClientIP parseIP (sp @ JoinHostPort h p @ sp') = (case parseIP h of None \<Rightarrow> [] | Some ip \<Rightarrow> ip)"
  using RemoteIP_JoinHostPort[OF assms] by (simp add: ClientIP_def)

theorem ClientIP_JoinHostPort_witness:
  "list_all asciiSpace '' '' \<and> list_all asciiSpace ''\<newline>'' \<and>
   list_all ascii_graphic ''::1'' \<and> list_all ascii_graphic ''8080'' \<and>
   CHR ''['' \<notin> set ''::1'' \<and> CHR '']'' \<notin> set ''::1'' \<and>
   CHR '':'' \<notin> set ''8080'' \<and> CHR ''['' \<notin> set ''8080'' \<and> CHR '']'' \<notin> set ''8080'' \<and>
   ClientIP (\<lambda>x. if x = ''::1'' then Some ''::1'' else None) ('' '' @ JoinHostPort ''::1'' ''8080'' @ ''\<newline>'')
     = ''::1'' \<and>
   '' '' @ JoinHostPort ''::1'' ''8080'' @ ''\<newline>'' = '' [::1]:8080\<newline>''"
proof -
  have "JoinHostPort ''::1'' ''8080'' = ''[::1]:8080''" by (simp add: JoinHostPort_def)
  then show ?thesis
    using ClientIP_JoinHostPort [of "'' ''" "''\<newline>''" "''::1''" "''8080''"
                                   "\<lambda>x. if x = ''::1'' then Some ''::1'' else None"]
    by (simp add: asciiSpace_def ascii_graphic_def)
qed

end
