(* ===== verification/Mode.thy ===== *)
theory Mode
  imports Prelude
begin

text \<open>
  The run mode of the framework (\<open>src/unnamed/part_003\<close> lines 10--82): the package globals
  \<open>Mode\<close> and \<open>modeName\<close> as a record passed explicitly, \<open>SetMode\<close> returning the updated
  globals or the panic it raises, \<open>init\<close> reading the \<open>MODE\<close> environment variable, and
  \<open>debugPrint\<close> returning the line it writes to standard output (None when it writes nothing).
  The formatting verbs of \<open>debugPrint\<close> are applied by a caller-supplied \<open>render\<close> function,
  standing for \<open>fmt.Fprintf\<close> with the call's values.
\<close>

section \<open>Constants and globals\<close>

definition EnvMode :: string where "EnvMode = ''MODE''"

definition debugCode :: int where "debugCode = 0"
definition releaseCode :: int where "releaseCode = 1"
definition testCode :: int where "testCode = 2"

definition DebugMode :: string where "DebugMode = ''debug''"
definition ReleaseMode :: string where "ReleaseMode = ''release''"
definition TestMode :: string where "TestMode = ''test''"

record mode_globals =
  Mode :: int
  modeName :: string

definition mode_globals_init :: mode_globals where
  "mode_globals_init = \<lparr>Mode = debugCode, modeName = DebugMode\<rparr>"

text \<open>The globals agree: the mode code and the mode name name the same mode.\<close>

definition mode_ok :: "mode_globals \<Rightarrow> bool" where
  "mode_ok g = ((Mode g = debugCode \<and> modeName g = DebugMode)
               \<or> (Mode g = releaseCode \<and> modeName g = ReleaseMode)
               \<or> (Mode g = testCode \<and> modeName g = TestMode))"

section \<open>Operations\<close>

definition IsDebugging :: "mode_globals \<Rightarrow> bool" where
  "IsDebugging g = (Mode g = debugCode)"

definition SetMode :: "mode_globals \<Rightarrow> string \<Rightarrow> go_panic + mode_globals" where
  "SetMode g value =
     (let value = (if value = [] then DebugMode else value) in
      if value = DebugMode then Inr (g\<lparr>Mode := debugCode, modeName := value\<rparr>)
      else if value = ReleaseMode then Inr (g\<lparr>Mode := releaseCode, modeName := value\<rparr>)
      else if value = TestMode then Inr (g\<lparr>Mode := testCode, modeName := value\<rparr>)
      else Inl (Panic (''hapi mode unknown: '' @ value @ '' (available mode: debug release test)'')))"

text \<open>\<open>os.Getenv\<close> returns the empty string for an unset variable.\<close>

definition Getenv :: "(string \<rightharpoonup> string) \<Rightarrow> string \<Rightarrow> string" where
  "Getenv env k = (case env k of Some v \<Rightarrow> v | None \<Rightarrow> [])"

definition mode_init :: "(string \<rightharpoonup> string) \<Rightarrow> go_panic + mode_globals" where
  "mode_init env = SetMode mode_globals_init (Getenv env EnvMode)"

definition HasSuffix :: "string \<Rightarrow> string \<Rightarrow> bool" where
  "HasSuffix s suf = (length suf \<le> length s \<and> drop (length s - length suf) s = suf)"

definition debugPrint :: "mode_globals \<Rightarrow> (string \<Rightarrow> string) \<Rightarrow> string \<Rightarrow> string option" where
  "debugPrint g render format =
     (if IsDebugging g then
        (let format = (if \<not> HasSuffix format ''\<newline>'' then format @ ''\<newline>'' else format) in
         Some (render (''[hapi-debug] '' @ format)))
      else None)"

section \<open>Properties\<close>

lemmas mode_names = DebugMode_def ReleaseMode_def TestMode_def
lemmas mode_codes = debugCode_def releaseCode_def testCode_def

lemma SetMode_cases:
  "SetMode g v =
     (if v \<in> {[], ''debug''} then Inr (g\<lparr>Mode := 0, modeName := ''debug''\<rparr>)
      else if v = ''release'' then Inr (g\<lparr>Mode := 1, modeName := v\<rparr>)
      else if v = ''test'' then Inr (g\<lparr>Mode := 2, modeName := v\<rparr>)
      else Inl (Panic (''hapi mode unknown: '' @ v @ '' (available mode: debug release test)'')))"
  by (auto simp: SetMode_def Let_def mode_names mode_codes)

text \<open>Claim C30.  \<open>SetMode\<close> panics exactly on a name other than the empty string,
  \<open>debug\<close>, \<open>release\<close> and \<open>test\<close>, with the message naming it; otherwise it records the
  name (\<open>debug\<close> for the empty string) and turns debugging on exactly for \<open>debug\<close>.\<close>
theorem SetMode_panics_iff_unknown:
  "(SetMode g v = Inl e \<longleftrightarrow>
      v \<notin> {[], ''debug'', ''release'', ''test''}
      \<and> e = Panic (''hapi mode unknown: '' @ v @ '' (available mode: debug release test)''))
   \<and> (SetMode g v = Inr g' \<longrightarrow>
      modeName g' = (if v = [] then ''debug'' else v) \<and> (IsDebugging g' \<longleftrightarrow> v \<in> {[], ''debug''}))"
  by (auto simp: SetMode_cases IsDebugging_def debugCode_def)

theorem SetMode_panics_iff_unknown_witness:
  "(SetMode mode_globals_init ''prod'' = Inl (Panic ''hapi mode unknown: prod (available mode: debug release test)'')
      \<longleftrightarrow> ''prod'' \<notin> {[], ''debug'', ''release'', ''test''}
          \<and> Panic ''hapi mode unknown: prod (available mode: debug release test)''
            = Panic (''hapi mode unknown: '' @ ''prod'' @ '' (available mode: debug release test)''))
   \<and> SetMode mode_globals_init [] = Inr mode_globals_init
   \<and> modeName mode_globals_init = ''debug'' \<and> IsDebugging mode_globals_init"
proof -
  have "SetMode mode_globals_init [] = Inr mode_globals_init"
    by (simp add: SetMode_cases mode_globals_init_def mode_names mode_codes)
  then show ?thesis
    using SetMode_panics_iff_unknown [of mode_globals_init "''prod''"
        "Panic ''hapi mode unknown: prod (available mode: debug release test)''" mode_globals_init]
      SetMode_panics_iff_unknown [of mode_globals_init "[]" "Panic []" mode_globals_init]
    by simp
qed

text \<open>Claim C31.  The globals start consistent and every successful \<open>SetMode\<close>, hence
  \<open>init\<close> whatever the environment, leaves the mode code and the mode name naming the same
  mode; \<open>debugPrint\<close> writes a line exactly in debug mode, with a newline appended when
  the format lacks one.\<close>
theorem SetMode_keeps_mode_ok:
  "mode_ok mode_globals_init
   \<and> (SetMode g v = Inr g' \<longrightarrow> mode_ok g')
   \<and> (mode_init env = Inr g' \<longrightarrow> mode_ok g')
   \<and> (debugPrint g render fmt \<noteq> None \<longleftrightarrow> IsDebugging g)
   \<and> (debugPrint g render ''x'' \<in> {None, Some (render ''[hapi-debug] x\<newline>'')})"
proof -
  have ok: "SetMode g v = Inr g' \<Longrightarrow> mode_ok g'" for g v g'
    by (simp add: SetMode_cases mode_ok_def mode_names mode_codes split: if_splits) auto
  have "mode_ok mode_globals_init"
    by (simp add: mode_ok_def mode_globals_init_def)
  moreover have "debugPrint g render fmt \<noteq> None \<longleftrightarrow> IsDebugging g"
    by (simp add: debugPrint_def)
  moreover have "debugPrint g render ''x'' \<in> {None, Some (render ''[hapi-debug] x\<newline>'')}"
    by (simp add: debugPrint_def HasSuffix_def)
  ultimately show ?thesis
    using ok by (auto simp: mode_init_def)
qed

theorem SetMode_keeps_mode_ok_witness:
  "mode_ok mode_globals_init
   \<and> (mode_init [EnvMode \<mapsto> ''release''] = Inr \<lparr>Mode = 1, modeName = ''release''\<rparr>)
   \<and> mode_ok \<lparr>Mode = 1, modeName = ''release''\<rparr>
   \<and> debugPrint \<lparr>Mode = 1, modeName = ''release''\<rparr> id ''x'' = None"
proof -
  have init: "mode_init [EnvMode \<mapsto> ''release''] = Inr \<lparr>Mode = 1, modeName = ''release''\<rparr>"
    by (simp add: mode_init_def Getenv_def SetMode_cases mode_globals_init_def mode_names mode_codes)
  moreover have "debugPrint \<lparr>Mode = 1, modeName = ''release''\<rparr> id ''x'' = None"
    by (simp add: debugPrint_def IsDebugging_def debugCode_def)
  ultimately show ?thesis
    using SetMode_keeps_mode_ok [of mode_globals_init "''release''" "\<lparr>Mode = 1, modeName = ''release''\<rparr>"
        "[EnvMode \<mapsto> ''release'']" id "''x''"]
    by simp
qed

end
