(* ===== verification/Run_Engine.thy ===== *)
theory Run_Engine
  imports Group Mode
begin

text \<open>
  Starting the server (\<open>src/unnamed/part_000\<close> lines 58--62, 97--103 and 123--130):
  \<open>Default\<close> is \<open>New\<close> (the default middleware is commented out); \<open>Handler\<close> serves the
  engine directly or wrapped in the HTTP/2 cleartext handler of \<open>h2c\<close>; \<open>Run\<close> resolves
  the address, prints it in debug mode and calls \<open>http.ListenAndServe\<close>, which blocks while
  it serves.  The model of \<open>Run\<close> returns what it hands to \<open>ListenAndServe\<close> (the address
  and the handler) and the debug output; serving itself is \<open>Server\<close>.  \<open>fmt\<close> is applied
  to the one \<open>%s\<close> verb of the message.
\<close>

definition Default :: "'h Engine" where
  "Default = New"

datatype httpHandler = EngineHandler | H2CHandler

definition Handler :: "'h Engine \<Rightarrow> httpHandler" where
  "Handler engine = (if \<not> UseH2C engine then EngineHandler else H2CHandler)"

text \<open>\<open>fmt.Sprintf\<close> of a format whose only verb is \<open>%s\<close>, with one string argument.\<close>

fun sprintf_s :: "string \<Rightarrow> string \<Rightarrow> string" where
  "sprintf_s [] a = []"
| "sprintf_s (c # cs) a =
     (if c = CHR ''%'' \<and> cs \<noteq> [] \<and> hd cs = CHR ''s'' then a @ tl cs else c # sprintf_s cs a)"

record listenCall =
  lc_address :: string
  lc_handler :: httpHandler

definition listenMessage :: string where
  "listenMessage = ''Listening and serving HTTP on %s\<newline>''"

definition Run :: "mode_globals \<Rightarrow> 'h Engine \<Rightarrow> string \<Rightarrow> string option \<times> listenCall" where
  "Run g engine addr =
     (let address = resolveAddress addr in
      (debugPrint g (\<lambda>f. sprintf_s f address) listenMessage,
       \<lparr>lc_address = address, lc_handler = Handler engine\<rparr>))"

section \<open>Properties\<close>

text \<open>\<open>Run\<close> with no address listens on port 8080, and an engine from \<open>New\<close> or
  \<open>Default\<close> is served through \<open>h2c\<close>.\<close>

lemma Run_Default:
  "snd (Run g (Default :: 'h Engine) []) = \<lparr>lc_address = '':8080'', lc_handler = H2CHandler\<rparr>"
  by (simp add: Run_def Default_def New_def Handler_def resolveAddress_def Let_def)

lemma Run_address: "addr \<noteq> [] \<Longrightarrow> lc_address (snd (Run g engine addr)) = addr"
  by (simp add: Run_def resolveAddress_def Let_def)

text \<open>The debug line names the address, and only debug mode prints it.\<close>

lemma Run_debug_output:
  "fst (Run g engine addr) =
     (if IsDebugging g
      then Some (''[hapi-debug] Listening and serving HTTP on '' @ resolveAddress addr @ ''\<newline>'')
      else None)"
  by (simp add: Run_def debugPrint_def listenMessage_def HasSuffix_def Let_def)

end
