(* ===== verification/Strconv.thy ===== *)
theory Strconv
  imports Prelude
begin

text \<open>
  The parts of Go's \<open>strconv\<close> package that the reflection setters of \<open>src/utils.go\<close>
  call, modelled from the package documentation and its reference implementation:
  \<open>ParseUint\<close>, \<open>ParseInt\<close> and \<open>ParseBool\<close> in base 10, the \<open>NumError\<close> they return and
  its \<open>Error\<close> string, and the decimal printers \<open>FormatUint\<close> and \<open>FormatInt\<close> (Go's
  \<open>strconv.Itoa\<close> family) used to state the round trip.  Values are unbounded
  \<open>nat\<close>/\<open>int\<close>; the width of the target is the \<open>bitSize\<close> argument, 0 meaning Go's
  \<open>int\<close> (64 bits).  Every \<open>bitSize\<close> this code passes is 0, 8, 16, 32 or 64, so the
  \<open>bitSizeError\<close> branch of Go is not modelled.
\<close>

section \<open>Errors\<close>

datatype numErr = ErrSyntax | ErrRange

text \<open>
  Go errors as values: a \<open>*strconv.NumError\<close> (function, input, cause), a string error
  built by \<open>fmt.Errorf\<close> or \<open>errors.New\<close>, and an error returned by a library function
  the model takes as a parameter (float parsing, JSON decoding).
\<close>

datatype goerr = NumError string string numErr | Errorf string | LibError string

fun numErr_Error :: "numErr \<Rightarrow> string" where
  "numErr_Error ErrSyntax = ''invalid syntax''"
| "numErr_Error ErrRange = ''value out of range''"

text \<open>\<open>strconv.Quote\<close> on the inputs considered here: a backslash before a quote or a
  backslash, the other bytes unchanged (Go also escapes non-printable bytes).\<close>

fun quote_body :: "string \<Rightarrow> string" where
  "quote_body [] = []"
| "quote_body (c # cs) =
     (if c = CHR ''\"'' \<or> c = CHR 0x5C then CHR 0x5C # c # quote_body cs else c # quote_body cs)"

definition Quote :: "string \<Rightarrow> string" where
  "Quote s = CHR ''\"'' # quote_body s @ ''\"''"

fun Error :: "goerr \<Rightarrow> string" where
  "Error (NumError fn num e) = ''strconv.'' @ fn @ '': parsing '' @ Quote num @ '': '' @ numErr_Error e"
| "Error (Errorf s) = s"
| "Error (LibError s) = s"

section \<open>Decimal digits\<close>

definition is_digit :: "char \<Rightarrow> bool" where
  "is_digit c = (48 \<le> (of_char c :: nat) \<and> (of_char c :: nat) \<le> 57)"

definition digit_val :: "char \<Rightarrow> nat" where
  "digit_val c = of_char c - 48"

definition digit_char :: "nat \<Rightarrow> char" where
  "digit_char d = char_of (48 + d)"

section \<open>Parsing\<close>

text \<open>\<open>maxUint64/10 + 1\<close>: the smallest \<open>n\<close> with \<open>n * 10\<close> beyond 64 bits.\<close>

definition cutoff10 :: nat where
  "cutoff10 = (2 ^ 64 - 1) div 10 + 1"

definition bit_width :: "nat \<Rightarrow> nat" where
  "bit_width bitSize = (if bitSize = 0 then 64 else bitSize)"

text \<open>
  The digit loop of \<open>ParseUint\<close>: a byte that is not a digit is a syntax error; an
  accumulator at the cutoff, or a next value above \<open>maxVal\<close>, is a range error with the
  value \<open>maxVal\<close>.  Go also tests \<open>n1 < n\<close> (wrap-around of the 64-bit accumulator);
  on unbounded \<open>nat\<close> that case is the test \<open>n1 > maxVal\<close>, since \<open>maxVal < 2^64\<close>.
\<close>

fun pu_loop :: "nat \<Rightarrow> nat \<Rightarrow> string \<Rightarrow> nat \<times> numErr option" where
  "pu_loop maxVal n [] = (n, None)"
| "pu_loop maxVal n (c # cs) =
     (if \<not> is_digit c then (0, Some ErrSyntax)
      else if cutoff10 \<le> n then (maxVal, Some ErrRange)
      else (let n1 = n * 10 + digit_val c in
            if maxVal < n1 then (maxVal, Some ErrRange) else pu_loop maxVal n1 cs))"

definition ParseUint :: "string \<Rightarrow> nat \<Rightarrow> nat \<times> goerr option" where
  "ParseUint s bitSize =
     (if s = [] then (0, Some (NumError ''ParseUint'' s ErrSyntax))
      else (let maxVal = 2 ^ bit_width bitSize - 1;
                (n, e) = pu_loop maxVal 0 s
            in (n, map_option (NumError ''ParseUint'' s) e)))"

fun err_cause :: "goerr \<Rightarrow> numErr option" where
  "err_cause (NumError _ _ e) = Some e"
| "err_cause _ = None"

definition split_sign :: "string \<Rightarrow> bool \<times> string" where
  "split_sign s =
     (if hd s = CHR ''+'' then (False, tl s)
      else if hd s = CHR ''-'' then (True, tl s) else (False, s))"

text \<open>The range checks of \<open>ParseInt\<close> after the unsigned parse, with its cutoff
  \<open>1 << (bitSize - 1)\<close>.\<close>

definition ParseInt_range :: "string \<Rightarrow> bool \<Rightarrow> nat \<Rightarrow> nat \<Rightarrow> int \<times> goerr option" where
  "ParseInt_range s neg un bitSize =
     (let cutoff = 2 ^ (bit_width bitSize - 1) in
      if \<not> neg \<and> cutoff \<le> un then (int cutoff - 1, Some (NumError ''ParseInt'' s ErrRange))
      else if neg \<and> cutoff < un then (- int cutoff, Some (NumError ''ParseInt'' s ErrRange))
      else (if neg then - int un else int un, None))"

definition ParseInt :: "string \<Rightarrow> nat \<Rightarrow> int \<times> goerr option" where
  "ParseInt s bitSize =
     (if s = [] then (0, Some (NumError ''ParseInt'' s ErrSyntax))
      else (let (neg, s') = split_sign s;
                (un, err) = ParseUint s' bitSize
            in case err of
                 Some e \<Rightarrow>
                   (case err_cause e of
                      Some ErrRange \<Rightarrow> ParseInt_range s neg un bitSize
                    | c \<Rightarrow> (0, Some (NumError ''ParseInt'' s (case c of Some k \<Rightarrow> k | None \<Rightarrow> ErrSyntax))))
               | None \<Rightarrow> ParseInt_range s neg un bitSize))"

definition ParseBool :: "string \<Rightarrow> bool \<times> goerr option" where
  "ParseBool str =
     (if str \<in> set [''1'', ''t'', ''T'', ''TRUE'', ''true'', ''True''] then (True, None)
      else if str \<in> set [''0'', ''f'', ''F'', ''FALSE'', ''false'', ''False''] then (False, None)
      else (False, Some (NumError ''ParseBool'' str ErrSyntax)))"

section \<open>Printing\<close>

fun FormatUint :: "nat \<Rightarrow> string" where
  "FormatUint n = (if n < 10 then [digit_char n] else FormatUint (n div 10) @ [digit_char (n mod 10)])"

definition FormatInt :: "int \<Rightarrow> string" where
  "FormatInt i = (if i < 0 then CHR ''-'' # FormatUint (nat (- i)) else FormatUint (nat i))"

declare FormatUint.simps [simp del]

section \<open>Properties\<close>

subsection \<open>Digits\<close>

lemma digit_char_digit [simp]: "d < 10 \<Longrightarrow> is_digit (digit_char d)"
  by (simp add: is_digit_def digit_char_def)

lemma digit_val_char [simp]: "d < 10 \<Longrightarrow> digit_val (digit_char d) = d"
  by (simp add: digit_val_def digit_char_def)

lemma digit_val_lt: "is_digit c \<Longrightarrow> digit_val c < 10"
  unfolding is_digit_def digit_val_def by linarith

lemma digit_char_not_sign: "d < 10 \<Longrightarrow> digit_char d \<noteq> CHR ''+'' \<and> digit_char d \<noteq> CHR ''-''"
  by (auto simp: digit_char_def dest: arg_cong [where f = "of_char :: char \<Rightarrow> nat"])

definition dec_value :: "nat \<Rightarrow> string \<Rightarrow> nat" where
  "dec_value k cs = foldl (\<lambda>n c. n * 10 + digit_val c) k cs"

lemma dec_value_simps [simp]:
  "dec_value k [] = k" "dec_value k (c # cs) = dec_value (k * 10 + digit_val c) cs"
  "dec_value k (cs @ [c]) = dec_value k cs * 10 + digit_val c"
  by (simp_all add: dec_value_def)

lemma dec_value_ge: "k \<le> dec_value k cs"
proof (induction cs arbitrary: k)
  case (Cons c cs)
  have "k \<le> k * 10 + digit_val c" by simp
  then show ?case using le_trans Cons.IH [of "k * 10 + digit_val c"] by simp
qed simp

subsection \<open>The printers\<close>

lemma FormatUint_digits: "\<forall>c\<in>set (FormatUint n). is_digit c"
  by (induction n rule: FormatUint.induct) (subst FormatUint.simps, simp)

lemma FormatUint_value: "dec_value 0 (FormatUint n) = n"
  by (induction n rule: FormatUint.induct) (subst FormatUint.simps, simp)

lemma FormatUint_hd: "\<exists>d<10. hd (FormatUint n) = digit_char d"
proof (induction n rule: FormatUint.induct)
  case (1 n)
  show ?case
  proof (cases "n < 10")
    case True
    then show ?thesis by (subst FormatUint.simps) auto
  next
    case False
    have "FormatUint (n div 10) \<noteq> []" by (subst FormatUint.simps) simp
    with 1 False show ?thesis by (subst FormatUint.simps) simp
  qed
qed

lemma FormatUint_nonempty [simp]: "FormatUint n \<noteq> []"
  by (subst FormatUint.simps) simp

lemma split_sign_FormatUint: "split_sign (FormatUint n) = (False, FormatUint n)"
proof -
  obtain d where "d < 10" "hd (FormatUint n) = digit_char d" using FormatUint_hd by blast
  then have "hd (FormatUint n) \<noteq> CHR ''+''" "hd (FormatUint n) \<noteq> CHR ''-''"
    using digit_char_not_sign by simp_all
  then show ?thesis by (simp add: split_sign_def)
qed

lemma split_sign_minus: "split_sign (CHR ''-'' # s) = (True, s)"
  by (simp add: split_sign_def)

subsection \<open>The digit loop\<close>

lemma pu_loop_le: "k \<le> M \<Longrightarrow> pu_loop M k cs = (n, None) \<Longrightarrow> n \<le> M"
  by (induction M k cs rule: pu_loop.induct) (auto simp: Let_def split: if_splits)

lemma pu_loop_value:
  assumes "\<forall>c\<in>set cs. is_digit c" "dec_value k cs \<le> M" "M < 2 ^ 64"
  shows "pu_loop M k cs = (dec_value k cs, None)"
  using assms
proof (induction cs arbitrary: k)
  case (Cons c cs)
  let ?n1 = "k * 10 + digit_val c"
  have le: "?n1 \<le> M" using dec_value_ge [of ?n1 cs] Cons.prems(2) by simp
  then have "k < cutoff10" using Cons.prems(3) by (simp add: cutoff10_def)
  then show ?case using Cons le by (simp add: Let_def)
qed simp

subsection \<open>Bounds and round trips\<close>

lemma ParseUint_le: "ParseUint s b = (n, None) \<Longrightarrow> n \<le> 2 ^ bit_width b - 1"
  by (auto simp: ParseUint_def Let_def split: if_splits prod.splits intro: pu_loop_le)

lemma ParseUint_FormatUint:
  assumes "n \<le> 2 ^ bit_width b - 1" "bit_width b \<le> 64"
  shows "ParseUint (FormatUint n) b = (n, None)"
proof -
  have "(2::nat) ^ bit_width b \<le> 2 ^ 64" by (rule power_increasing [OF assms(2)]) simp
  then have "(2::nat) ^ bit_width b - 1 < 2 ^ 64" by (simp add: less_imp_diff_less)
  then show ?thesis using assms pu_loop_value [of "FormatUint n" 0 "2 ^ bit_width b - 1"]
    by (simp add: ParseUint_def FormatUint_digits FormatUint_value)
qed

lemma ParseInt_range_bounds:
  assumes "ParseInt_range s neg un b = (i, None)"
  shows "- (2 ^ (bit_width b - 1)) \<le> i \<and> i < 2 ^ (bit_width b - 1)"
proof -
  have pos: "(0::int) < 2 ^ (bit_width b - Suc 0)" by simp
  show ?thesis using assms
    by (auto simp: ParseInt_range_def Let_def split: if_splits) (use pos in linarith)+
qed

lemma ParseInt_None_range:
  "ParseInt s b = (i, None) \<Longrightarrow> \<exists>neg un. ParseInt_range s neg un b = (i, None)"
  by (auto simp: ParseInt_def split: if_splits prod.splits option.splits numErr.splits)

lemma ParseInt_bounds:
  "ParseInt s b = (i, None) \<Longrightarrow> - (2 ^ (bit_width b - 1)) \<le> i \<and> i < 2 ^ (bit_width b - 1)"
  using ParseInt_None_range ParseInt_range_bounds by blast

lemma ParseInt_FormatInt:
  assumes w: "bit_width b \<le> 64" and lo: "- (2 ^ (bit_width b - 1)) \<le> i"
    and hi: "i < 2 ^ (bit_width b - 1)"
  shows "ParseInt (FormatInt i) b = (i, None)"
proof -
  have wpos: "0 < bit_width b" by (simp add: bit_width_def)
  have half: "(2::nat) ^ (bit_width b - 1) \<le> 2 ^ bit_width b - 1"
  proof -
    have "(2::nat) ^ bit_width b = 2 * 2 ^ (bit_width b - 1)"
      using wpos by (metis Suc_diff_1 power_Suc)
    then show ?thesis by simp
  qed
  have cut: "int (2 ^ (bit_width b - 1)) = 2 ^ (bit_width b - 1)" by simp
  show ?thesis
  proof (cases "i < 0")
    case True
    have "nat (- i) \<le> 2 ^ (bit_width b - 1)" using lo cut by linarith
    then have "ParseUint (FormatUint (nat (- i))) b = (nat (- i), None)"
      using half w le_trans by (intro ParseUint_FormatUint) blast+
    with True \<open>nat (- i) \<le> 2 ^ (bit_width b - 1)\<close> show ?thesis
      by (simp add: ParseInt_def FormatInt_def split_sign_minus ParseInt_range_def Let_def)
  next
    case False
    have "nat i < 2 ^ (bit_width b - 1)" using hi False cut by linarith
    then have "ParseUint (FormatUint (nat i)) b = (nat i, None)"
      using half w less_imp_le le_trans by (intro ParseUint_FormatUint) blast+
    with False \<open>nat i < 2 ^ (bit_width b - 1)\<close> show ?thesis
      by (simp add: ParseInt_def FormatInt_def split_sign_FormatUint ParseInt_range_def Let_def)
  qed
qed

end
