(* ===== verification/Reflect.thy ===== *)
theory Reflect
  imports Prelude
begin

text \<open>
  The part of Go's \<open>reflect\<close> package the request binding uses, and the two traversals
  of \<open>src/unnamed/part_002\<close>.  A type is an \<open>rtype\<close>: the kinds the code distinguishes,
  pointers, slices, arrays, structs with their fields (name, parsed tag, whether embedded,
  type), and \<open>TNamed\<close> for the types the code only passes on (interfaces, maps, functions,
  \<open>Context\<close>), with their method names.  A value is an \<open>rval\<close>; a struct value is the
  list of its field values, a nil pointer is \<open>RPtr None\<close>.  \<open>reflect.Value\<close> is a reference
  into a value: the model passes the value and returns it updated.  Named types with a basic
  underlying type are represented by that type, since \<open>Kind()\<close> only sees the underlying type.
\<close>

section \<open>Types and values\<close>

datatype rtype =
    TBool | TInt | TInt8 | TInt16 | TInt32 | TInt64
  | TUint | TUint8 | TUint16 | TUint32 | TUint64
  | TFloat32 | TFloat64 | TString
  | TPtr rtype | TSlice rtype | TArray nat rtype
  | TStruct "sfield list"
  | TNamed string "string list"
and sfield = SField (sf_name: string) (sf_tag: "(string \<times> string) list") (sf_anon: bool) (sf_type: rtype)

datatype rval =
    RBool bool | RInt int | RUint nat | RFloat "64 word" | RString string
  | RPtr "rval option" | RSlice "rval list" | RArray "rval list" | RStruct "rval list"
  | ROpaque string

text \<open>The value \<open>reflect.New(t).Elem()\<close>: the zero value of \<open>t\<close>.  A nil slice and an
  empty one are identified; the code only takes their length and elements.\<close>

primrec zero :: "rtype \<Rightarrow> rval" and zero_field :: "sfield \<Rightarrow> rval" where
  "zero TBool = RBool False"
| "zero TInt = RInt 0" | "zero TInt8 = RInt 0" | "zero TInt16 = RInt 0"
| "zero TInt32 = RInt 0" | "zero TInt64 = RInt 0"
| "zero TUint = RUint 0" | "zero TUint8 = RUint 0" | "zero TUint16 = RUint 0"
| "zero TUint32 = RUint 0" | "zero TUint64 = RUint 0"
| "zero TFloat32 = RFloat 0" | "zero TFloat64 = RFloat 0"
| "zero TString = RString []"
| "zero (TPtr t) = RPtr None"
| "zero (TSlice t) = RSlice []"
| "zero (TArray n t) = RArray (replicate n (zero t))"
| "zero (TStruct fs) = RStruct (map zero_field fs)"
| "zero (TNamed n ms) = ROpaque []"
| "zero_field (SField n tg a t) = zero t"

text \<open>Bit widths of the integer kinds; \<open>int\<close> and \<open>uint\<close> are 64 bits wide.\<close>

fun int_width :: "rtype \<Rightarrow> nat option" where
  "int_width TInt = Some 64" | "int_width TInt8 = Some 8" | "int_width TInt16 = Some 16"
| "int_width TInt32 = Some 32" | "int_width TInt64 = Some 64" | "int_width _ = None"

fun uint_width :: "rtype \<Rightarrow> nat option" where
  "uint_width TUint = Some 64" | "uint_width TUint8 = Some 8" | "uint_width TUint16 = Some 16"
| "uint_width TUint32 = Some 32" | "uint_width TUint64 = Some 64" | "uint_width _ = None"

text \<open>Well-typed values: an integer of a kind lies in the range of its width.\<close>

fun has_type :: "rval \<Rightarrow> rtype \<Rightarrow> bool"
  and all_type :: "rval list \<Rightarrow> rtype \<Rightarrow> bool"
  and fields_type :: "rval list \<Rightarrow> sfield list \<Rightarrow> bool" where
  "has_type (RBool b) t = (t = TBool)"
| "has_type (RInt i) t =
     (case int_width t of Some w \<Rightarrow> - (2 ^ (w - 1)) \<le> i \<and> i < 2 ^ (w - 1) | None \<Rightarrow> False)"
| "has_type (RUint n) t = (case uint_width t of Some w \<Rightarrow> n < 2 ^ w | None \<Rightarrow> False)"
| "has_type (RFloat x) t = (t = TFloat32 \<or> t = TFloat64)"
| "has_type (RString s) t = (t = TString)"
| "has_type (RPtr p) t =
     (case t of TPtr t' \<Rightarrow> (case p of None \<Rightarrow> True | Some v \<Rightarrow> has_type v t') | _ \<Rightarrow> False)"
| "has_type (RSlice vs) t = (case t of TSlice t' \<Rightarrow> all_type vs t' | _ \<Rightarrow> False)"
| "has_type (RArray vs) t = (case t of TArray n t' \<Rightarrow> length vs = n \<and> all_type vs t' | _ \<Rightarrow> False)"
| "has_type (RStruct vs) t = (case t of TStruct fs \<Rightarrow> fields_type vs fs | _ \<Rightarrow> False)"
| "has_type (ROpaque x) t = (case t of TNamed n ms \<Rightarrow> True | _ \<Rightarrow> False)"
| "all_type [] t = True"
| "all_type (v # vs) t = (has_type v t \<and> all_type vs t)"
| "fields_type [] fs = (fs = [])"
| "fields_type (v # vs) fs = (case fs of [] \<Rightarrow> False | f # fs' \<Rightarrow> has_type v (sf_type f) \<and> fields_type vs fs')"

section \<open>Traversals\<close>

text \<open>\<open>field.Name[0] >= 'A' && field.Name[0] <= 'Z'\<close>; field names are never empty.\<close>

definition is_exported :: "string \<Rightarrow> bool" where
  "is_exported name = (case name of c # _ \<Rightarrow> 65 \<le> (of_char c :: nat) \<and> (of_char c :: nat) \<le> 90 | [] \<Rightarrow> False)"

definition deref :: "rtype \<Rightarrow> rtype" where
  "deref t = (case t of TPtr t' \<Rightarrow> t' | _ \<Rightarrow> t)"

text \<open>The fields \<open>TraverseType\<close> passes to its callback, in order: embedded structs and
  pointers to structs are flattened, other fields are passed when exported.  The callbacks
  of this code never stop the traversal, so the traversal is the list it visits.\<close>

text \<open>An embedded field whose type is a struct or a pointer to a struct: whether it is a
  pointer, and the struct's fields.\<close>

fun embedded :: "sfield \<Rightarrow> (bool \<times> sfield list) option" where
  "embedded (SField n tg True (TStruct fs')) = Some (False, fs')"
| "embedded (SField n tg True (TPtr (TStruct fs'))) = Some (True, fs')"
| "embedded _ = None"

lemma embedded_size: "embedded f = Some (p, fs') \<Longrightarrow> size_list size fs' < size f"
  by (induction f rule: embedded.induct) auto

function tt_fields :: "sfield list \<Rightarrow> sfield list" where
  "tt_fields [] = []"
| "tt_fields (f # fs) =
     (case embedded f of
        Some (p, fs') \<Rightarrow> tt_fields fs' @ tt_fields fs
      | None \<Rightarrow> (if is_exported (sf_name f) then [f] else []) @ tt_fields fs)"
  by pat_completeness auto
termination
  by (relation "measure (size_list size)") (auto dest: embedded_size)

definition numField_panic :: go_panic where
  "numField_panic = Panic ''reflect: NumField of non-struct type''"

definition TraverseType :: "rtype \<Rightarrow> go_panic + sfield list" where
  "TraverseType typ = (case deref typ of TStruct fs \<Rightarrow> Inr (tt_fields fs) | _ \<Rightarrow> Inl numField_panic)"

text \<open>
  \<open>Traverse\<close> with a callback that updates the field's value and the state \<open>'s\<close> of the
  variables it captures, and returns whether to go on.  A nil embedded pointer to a struct
  is allocated before it is traversed; \<open>reflect\<close> refuses that \<open>Set\<close> when the embedded
  type is unexported, so it panics there.
\<close>

definition unexported_set_panic :: go_panic where
  "unexported_set_panic = Panic ''reflect: reflect.Value.Set using value obtained using unexported field''"

fun struct_vals :: "rval \<Rightarrow> rval list" where
  "struct_vals (RStruct xs) = xs"
| "struct_vals _ = []"

type_synonym 's visitor = "'s \<Rightarrow> rval \<Rightarrow> sfield \<Rightarrow> rval \<times> 's \<times> bool"

text \<open>An embedded field's value as a struct, after allocating a nil pointer, and the
  struct written back in the field's shape.\<close>

definition embed_inner :: "bool \<Rightarrow> sfield list \<Rightarrow> rval \<Rightarrow> rval" where
  "embed_inner isPtr fs' v = (if isPtr then (case v of RPtr (Some x) \<Rightarrow> x | _ \<Rightarrow> zero (TStruct fs')) else v)"

definition embed_wrap :: "bool \<Rightarrow> rval list \<Rightarrow> rval" where
  "embed_wrap isPtr xs = (if isPtr then RPtr (Some (RStruct xs)) else RStruct xs)"

function trav :: "'s visitor \<Rightarrow> 's \<Rightarrow> sfield list \<Rightarrow> rval list \<Rightarrow> go_panic + rval list \<times> 's \<times> bool" where
  "trav fn s [] vs = Inr (vs, s, True)"
| "trav fn s (f # fs) [] = Inr ([], s, True)"
| "trav fn s (f # fs) (v # vs) =
     (case embedded f of
        Some (isPtr, fs') \<Rightarrow>
          (if isPtr \<and> v = RPtr None \<and> \<not> is_exported (sf_name f) then Inl unexported_set_panic
           else (case trav fn s fs' (struct_vals (embed_inner isPtr fs' v)) of
                   Inl p \<Rightarrow> Inl p
                 | Inr (xs, s1, ok) \<Rightarrow>
                     (if \<not> ok then Inr (embed_wrap isPtr xs # vs, s1, False)
                      else (case trav fn s1 fs vs of
                              Inl p \<Rightarrow> Inl p
                            | Inr (vs', s2, ok2) \<Rightarrow> Inr (embed_wrap isPtr xs # vs', s2, ok2)))))
      | None \<Rightarrow>
          (if is_exported (sf_name f) then
             (let (v', s1, ok) = fn s v f in
              if \<not> ok then Inr (v' # vs, s1, False)
              else (case trav fn s1 fs vs of
                      Inl p \<Rightarrow> Inl p
                    | Inr (vs', s2, ok2) \<Rightarrow> Inr (v' # vs', s2, ok2)))
           else (case trav fn s fs vs of
                   Inl p \<Rightarrow> Inl p
                 | Inr (vs', s2, ok2) \<Rightarrow> Inr (v # vs', s2, ok2))))"
  by pat_completeness auto
termination
  by (relation "measure (\<lambda>(fn, s, fs, vs). size_list size fs)") (auto dest: embedded_size)

text \<open>A pointer argument is dereferenced first; \<open>Elem\<close> of a nil pointer is the zero
  \<open>Value\<close>, on which \<open>FieldByIndex\<close> panics in the first iteration of the field loop;
  a struct without fields has no iteration, and \<open>Traverse\<close> returns \<open>true\<close>.\<close>

definition zero_value_panic :: go_panic where
  "zero_value_panic = Panic ''reflect: call of reflect.Value.FieldByIndex on zero Value''"

definition Traverse :: "'s visitor \<Rightarrow> 's \<Rightarrow> rtype \<Rightarrow> rval \<Rightarrow> go_panic + rval \<times> 's \<times> bool" where
  "Traverse fn s typ val =
     (case typ of
        TPtr (TStruct fs) \<Rightarrow>
          (case val of
             RPtr (Some x) \<Rightarrow>
               (case trav fn s fs (struct_vals x) of
                  Inl p \<Rightarrow> Inl p
                | Inr (xs, s', ok) \<Rightarrow> Inr (RPtr (Some (RStruct xs)), s', ok))
           | _ \<Rightarrow> (if fs = [] then Inr (val, s, True) else Inl zero_value_panic))
      | TStruct fs \<Rightarrow>
          (case trav fn s fs (struct_vals val) of
             Inl p \<Rightarrow> Inl p
           | Inr (xs, s', ok) \<Rightarrow> Inr (RStruct xs, s', ok))
      | _ \<Rightarrow> Inl numField_panic)"

section \<open>Properties\<close>

lemma has_type_struct_iff: "has_type v (TStruct fs) \<longleftrightarrow> (\<exists>xs. v = RStruct xs \<and> fields_type xs fs)"
  by (cases v) auto

lemma has_type_ptr_iff:
  "has_type v (TPtr t) \<longleftrightarrow> v = RPtr None \<or> (\<exists>x. v = RPtr (Some x) \<and> has_type x t)"
  by (cases v) (auto split: option.splits)

lemma fields_type_Cons [simp]:
  "fields_type (v # vs) (f # fs) \<longleftrightarrow> has_type v (sf_type f) \<and> fields_type vs fs"
  "fields_type vs (f # fs) \<Longrightarrow> vs \<noteq> []"
  by (cases vs; simp)+

lemma all_type_replicate: "has_type v t \<Longrightarrow> all_type (replicate n v) t"
  by (induction n) simp_all

lemma zero_has_type: "has_type (zero t) t" "has_type (zero_field f) (sf_type f)"
proof (induction t and f)
  case (TStruct fs)
  then show ?case by (induction fs) simp_all
qed (simp_all add: all_type_replicate)

lemma struct_vals_zero: "struct_vals (zero (TStruct fs)) = map zero_field fs"
  by simp

lemma fields_type_zero: "fields_type (map zero_field fs) fs"
  using zero_has_type(1) [of "TStruct fs"] by simp

lemma embedded_type:
  "embedded f = Some (p, fs') \<Longrightarrow> sf_type f = (if p then TPtr (TStruct fs') else TStruct fs')"
  by (induction f rule: embedded.induct) auto

lemma embed_inner_typed:
  "embedded f = Some (p, fs') \<Longrightarrow> has_type v (sf_type f) \<Longrightarrow> fields_type (struct_vals (embed_inner p fs' v)) fs'"
  using fields_type_zero
  by (auto simp: embedded_type embed_inner_def has_type_ptr_iff has_type_struct_iff split: if_splits)

lemma embed_wrap_typed:
  "embedded f = Some (p, fs') \<Longrightarrow> fields_type xs fs' \<Longrightarrow> has_type (embed_wrap p xs) (sf_type f)"
  by (simp add: embedded_type embed_wrap_def)

lemma fields_type_Cons_nonempty: "fields_type vs (f # fs) \<Longrightarrow> \<exists>v vs'. vs = v # vs'"
  by (cases vs) auto

subsection \<open>Inversion of one traversal step\<close>

lemma trav_plain_Inr:
  assumes "embedded f = None" "is_exported (sf_name f)" "fn s v f = (v', s1, ok1)"
    "trav fn s (f # fs) (v # vs) = Inr (vs', s', ok)"
  shows "if ok1 then \<exists>vs''. trav fn s1 fs vs = Inr (vs'', s', ok) \<and> vs' = v' # vs''
         else vs' = v' # vs \<and> s' = s1 \<and> \<not> ok"
  using assms by (auto split: sum.splits)

lemma trav_hidden_Inr:
  assumes "embedded f = None" "\<not> is_exported (sf_name f)" "trav fn s (f # fs) (v # vs) = Inr (vs', s', ok)"
  shows "\<exists>vs''. trav fn s fs vs = Inr (vs'', s', ok) \<and> vs' = v # vs''"
  using assms by (auto split: sum.splits)

lemma trav_embedded_Inr:
  assumes "embedded f = Some (p, fs')" "trav fn s (f # fs) (v # vs) = Inr (vs', s', ok)"
  shows "\<exists>xs s1 ok1. trav fn s fs' (struct_vals (embed_inner p fs' v)) = Inr (xs, s1, ok1)
       \<and> (if ok1 then \<exists>vs''. trav fn s1 fs vs = Inr (vs'', s', ok) \<and> vs' = embed_wrap p xs # vs''
          else vs' = embed_wrap p xs # vs \<and> s' = s1 \<and> \<not> ok)"
  using assms by (auto split: if_splits sum.splits prod.splits)

subsection \<open>Typing and visited fields\<close>

definition visitor_ok :: "'s visitor \<Rightarrow> bool" where
  "visitor_ok fn = (\<forall>s v f. has_type v (sf_type f) \<longrightarrow> has_type (fst (fn s v f)) (sf_type f))"

lemma trav_typed:
  assumes fn: "visitor_ok fn"
  shows "fields_type vs fs \<Longrightarrow> trav fn s fs vs = Inr (vs', s', ok) \<Longrightarrow> fields_type vs' fs"
proof (induction "size_list size fs" arbitrary: fs vs s vs' s' ok rule: less_induct)
  case less
  show ?case
  proof (cases fs)
    case Nil
    then show ?thesis using less.prems by simp
  next
    case (Cons f fs0)
    then obtain v vs0 where vs: "vs = v # vs0" using less.prems(1) fields_type_Cons_nonempty by blast
    have v: "has_type v (sf_type f)" and vs0: "fields_type vs0 fs0" using less.prems(1) Cons vs by simp_all
    have tr: "trav fn s (f # fs0) (v # vs0) = Inr (vs', s', ok)" using less.prems(2) Cons vs by simp
    have ih0: "\<And>s1 vs'' s'' ok'. trav fn s1 fs0 vs0 = Inr (vs'', s'', ok') \<Longrightarrow> fields_type vs'' fs0"
      using less.hyps [of fs0] vs0 Cons by simp
    show ?thesis
    proof (cases "embedded f")
      case None
      show ?thesis
      proof (cases "is_exported (sf_name f)")
        case True
        obtain v' s1 ok1 where fv: "fn s v f = (v', s1, ok1)" by (cases "fn s v f") auto
        have "has_type (fst (fn s v f)) (sf_type f)" using fn v unfolding visitor_ok_def by blast
        then have "has_type v' (sf_type f)" using fv by simp
        then show ?thesis using trav_plain_Inr [OF None True fv tr] ih0 vs0 Cons
          by (auto split: if_splits)
      next
        case False
        then show ?thesis using trav_hidden_Inr [OF None False tr] ih0 v Cons by auto
      qed
    next
      case (Some a)
      then obtain p fs' where e: "embedded f = Some (p, fs')" by (cases a) auto
      obtain xs s1 ok1 where inner: "trav fn s fs' (struct_vals (embed_inner p fs' v)) = Inr (xs, s1, ok1)"
        and rest: "if ok1 then \<exists>vs''. trav fn s1 fs0 vs0 = Inr (vs'', s', ok) \<and> vs' = embed_wrap p xs # vs''
                   else vs' = embed_wrap p xs # vs0 \<and> s' = s1 \<and> \<not> ok"
        using trav_embedded_Inr [OF e tr] by blast
      have "size_list size fs' < size_list size fs" using embedded_size [OF e] Cons by simp
      then have "fields_type xs fs'" using less.hyps inner embed_inner_typed [OF e v] by blast
      then have "has_type (embed_wrap p xs) (sf_type f)" using embed_wrap_typed [OF e] by blast
      then show ?thesis using rest ih0 vs0 Cons by (auto split: if_splits)
    qed
  qed
qed

definition collect :: "sfield list visitor" where
  "collect s v f = (v, s @ [f], True)"

lemma trav_collect:
  "fields_type vs fs \<Longrightarrow> trav collect s fs vs = Inr (vs', s', ok) \<Longrightarrow> s' = s @ tt_fields fs \<and> ok"
proof (induction "size_list size fs" arbitrary: fs vs s vs' s' ok rule: less_induct)
  case less
  show ?case
  proof (cases fs)
    case Nil
    then show ?thesis using less.prems by simp
  next
    case (Cons f fs0)
    then obtain v vs0 where vs: "vs = v # vs0" using less.prems(1) fields_type_Cons_nonempty by blast
    have v: "has_type v (sf_type f)" and vs0: "fields_type vs0 fs0" using less.prems(1) Cons vs by simp_all
    have tr: "trav collect s (f # fs0) (v # vs0) = Inr (vs', s', ok)" using less.prems(2) Cons vs by simp
    have lt: "size_list size fs0 < size_list size fs" using Cons by simp
    have ih0: "\<And>s1 vs'' s'' ok'. trav collect s1 fs0 vs0 = Inr (vs'', s'', ok') \<Longrightarrow> s'' = s1 @ tt_fields fs0 \<and> ok'"
      by (rule less.hyps [OF lt vs0])
    show ?thesis
    proof (cases "embedded f")
      case None
      show ?thesis
      proof (cases "is_exported (sf_name f)")
        case True
        have fv: "collect s v f = (v, s @ [f], True)" by (simp add: collect_def)
        show ?thesis using trav_plain_Inr [OF None True fv tr] None True Cons by (auto dest!: ih0)
      next
        case False
        then show ?thesis using trav_hidden_Inr [OF None False tr] None Cons by (auto dest!: ih0)
      qed
    next
      case (Some a)
      then obtain p fs' where e: "embedded f = Some (p, fs')" by (cases a) auto
      obtain xs s1 ok1 where inner: "trav collect s fs' (struct_vals (embed_inner p fs' v)) = Inr (xs, s1, ok1)"
        and rest: "if ok1 then \<exists>vs''. trav collect s1 fs0 vs0 = Inr (vs'', s', ok) \<and> vs' = embed_wrap p xs # vs''
                   else vs' = embed_wrap p xs # vs0 \<and> s' = s1 \<and> \<not> ok"
        using trav_embedded_Inr [OF e tr] by blast
      have "size_list size fs' < size_list size fs" using embedded_size [OF e] Cons by simp
      then have "s1 = s @ tt_fields fs' \<and> ok1" using less.hyps inner embed_inner_typed [OF e v] by blast
      then show ?thesis using rest e Cons by (auto dest!: ih0 split: if_splits)
    qed
  qed
qed

subsection \<open>Traverse\<close>

lemma Traverse_Inr:
  assumes "Traverse fn s t v = Inr (v', s', ok)" "has_type v t"
  shows "\<exists>fs xs xs'. fields_type xs fs \<and> trav fn s fs xs = Inr (xs', s', ok)
     \<and> ((t = TStruct fs \<and> v = RStruct xs \<and> v' = RStruct xs')
        \<or> (t = TPtr (TStruct fs) \<and> v = RPtr (Some (RStruct xs)) \<and> v' = RPtr (Some (RStruct xs')))
        \<or> (t = TPtr (TStruct fs) \<and> fs = [] \<and> v = RPtr None \<and> v' = v))"
proof (cases "t = TPtr (TStruct []) \<and> v = RPtr None")
  case True
  then have "v' = v" "s' = s" "ok" using assms(1) by (auto simp: Traverse_def)
  then show ?thesis using True
    by (intro exI[of _ "[]"]) simp
next
  case False
  then show ?thesis using assms
    by (auto simp: Traverse_def has_type_struct_iff has_type_ptr_iff
        split: rtype.splits rval.splits option.splits sum.splits prod.splits if_splits)
qed

lemma visitor_ok_collect: "visitor_ok collect"
  by (simp add: visitor_ok_def collect_def)

text \<open>Claim C32.  \<open>Traverse\<close>, run over a well-typed value with a callback that never stops
  it, calls the callback on exactly the fields \<open>TraverseType\<close> visits for the value's type,
  in the same order: the value traversal and the type traversal agree.\<close>
theorem Traverse_visits_TraverseType:
  assumes "TraverseType t = Inr fs" "has_type v t" "Traverse collect [] t v = Inr (v', vis, ok)"
  shows "vis = fs \<and> ok"
proof -
  obtain fs0 xs xs' where ft: "fields_type xs fs0" and tr: "trav collect [] fs0 xs = Inr (xs', vis, ok)"
    and t: "t = TStruct fs0 \<or> t = TPtr (TStruct fs0)"
    using Traverse_Inr [OF assms(3,2)] by blast
  have "fs = tt_fields fs0" using assms(1) t by (auto simp: TraverseType_def deref_def)
  then show ?thesis using trav_collect [OF ft tr] by simp
qed

theorem Traverse_visits_TraverseType_witness:
  "TraverseType (TStruct [SField ''Inner'' [] True (TStruct [SField ''A'' [] False TInt]), SField ''b'' [] False TBool,
       SField ''C'' [] False TString])
     = Inr [SField ''A'' [] False TInt, SField ''C'' [] False TString]
   \<and> has_type (RStruct [RStruct [RInt 1], RBool True, RString ''x''])
       (TStruct [SField ''Inner'' [] True (TStruct [SField ''A'' [] False TInt]), SField ''b'' [] False TBool,
          SField ''C'' [] False TString])
   \<and> Traverse collect [] (TStruct [SField ''Inner'' [] True (TStruct [SField ''A'' [] False TInt]),
          SField ''b'' [] False TBool, SField ''C'' [] False TString])
        (RStruct [RStruct [RInt 1], RBool True, RString ''x''])
     = Inr (RStruct [RStruct [RInt 1], RBool True, RString ''x''],
            [SField ''A'' [] False TInt, SField ''C'' [] False TString], True)
   \<and> [SField ''A'' [] False TInt, SField ''C'' [] False TString]
       = [SField ''A'' [] False TInt, SField ''C'' [] False TString]"
proof -
  have tt: "TraverseType (TStruct [SField ''Inner'' [] True (TStruct [SField ''A'' [] False TInt]), SField ''b'' [] False TBool,
       SField ''C'' [] False TString])
     = Inr [SField ''A'' [] False TInt, SField ''C'' [] False TString]"
    by (simp add: TraverseType_def deref_def is_exported_def)
  have tr: "Traverse collect [] (TStruct [SField ''Inner'' [] True (TStruct [SField ''A'' [] False TInt]),
          SField ''b'' [] False TBool, SField ''C'' [] False TString])
        (RStruct [RStruct [RInt 1], RBool True, RString ''x''])
     = Inr (RStruct [RStruct [RInt 1], RBool True, RString ''x''],
            [SField ''A'' [] False TInt, SField ''C'' [] False TString], True)"
    by (simp add: Traverse_def is_exported_def collect_def embed_inner_def embed_wrap_def)
  have ty: "has_type (RStruct [RStruct [RInt 1], RBool True, RString ''x''])
       (TStruct [SField ''Inner'' [] True (TStruct [SField ''A'' [] False TInt]), SField ''b'' [] False TBool,
          SField ''C'' [] False TString])" by simp
  show ?thesis using Traverse_visits_TraverseType [OF tt ty tr] tt ty tr by simp
qed

text \<open>A callback that keeps each field's value of the field's type makes
  \<open>Traverse\<close> keep the whole value of its type, the embedded pointers it allocates included.\<close>
lemma Traverse_preserves_type:
  assumes "visitor_ok fn" "has_type v t" "Traverse fn s t v = Inr (v', s', ok)"
  shows "has_type v' t"
proof -
  obtain fs xs xs' where ft: "fields_type xs fs" and tr: "trav fn s fs xs = Inr (xs', s', ok)"
    and shape: "(t = TStruct fs \<and> v = RStruct xs \<and> v' = RStruct xs')
        \<or> (t = TPtr (TStruct fs) \<and> v = RPtr (Some (RStruct xs)) \<and> v' = RPtr (Some (RStruct xs')))
        \<or> (t = TPtr (TStruct fs) \<and> fs = [] \<and> v = RPtr None \<and> v' = v)"
    using Traverse_Inr [OF assms(3,2)] by blast
  have "fields_type xs' fs" using trav_typed [OF assms(1) ft tr] .
  then show ?thesis using shape assms(2) by auto
qed

subsection \<open>A callback that always stops\<close>

lemma Traverse_trav: "Traverse fn s t v = Inr (v', s', ok) \<Longrightarrow> \<exists>fs xs xs'. trav fn s fs xs = Inr (xs', s', ok)"
  by (auto simp: Traverse_def split: rtype.splits rval.splits option.splits sum.splits prod.splits if_splits)
     (metis trav.simps(1))+

text \<open>When the callback returns \<open>false\<close> every time, the traversal calls it at most once:
  the final state is the initial one, or the state of one call.\<close>

lemma trav_stops:
  assumes stop: "\<And>s v f. snd (snd (fn s v f)) = False"
  shows "trav fn s fs vs = Inr (vs', s', ok) \<Longrightarrow> (ok \<and> s' = s) \<or> (\<not> ok \<and> (\<exists>v f. s' = fst (snd (fn s v f))))"
proof (induction "size_list size fs" arbitrary: fs vs s vs' s' ok rule: less_induct)
  case less
  show ?case
  proof (cases fs)
    case Nil
    then show ?thesis using less.prems by simp
  next
    case (Cons f fs0)
    have lt: "size_list size fs0 < size_list size fs" using Cons by simp
    show ?thesis
    proof (cases vs)
      case Nil
      then show ?thesis using less.prems Cons by simp
    next
      case (Cons v vs0)
      have tr: "trav fn s (f # fs0) (v # vs0) = Inr (vs', s', ok)" using less.prems \<open>fs = f # fs0\<close> Cons by simp
      show ?thesis
      proof (cases "embedded f")
        case None
        show ?thesis
        proof (cases "is_exported (sf_name f)")
          case True
          obtain v' s1 ok1 where fv: "fn s v f = (v', s1, ok1)" by (cases "fn s v f") auto
          have "\<not> ok1" using stop [of s v f] fv by simp
          then have "\<not> ok \<and> s' = s1" using trav_plain_Inr [OF None True fv tr] by simp
          moreover have "s1 = fst (snd (fn s v f))" using fv by simp
          ultimately show ?thesis by blast
        next
          case False
          then obtain vs'' where "trav fn s fs0 vs0 = Inr (vs'', s', ok)" using trav_hidden_Inr [OF None False tr] by blast
          then show ?thesis using less.hyps [OF lt] by blast
        qed
      next
        case (Some a)
        then obtain p fs' where e: "embedded f = Some (p, fs')" by (cases a) auto
        obtain xs s1 ok1 where inner: "trav fn s fs' (struct_vals (embed_inner p fs' v)) = Inr (xs, s1, ok1)"
          and rest: "if ok1 then \<exists>vs''. trav fn s1 fs0 vs0 = Inr (vs'', s', ok) \<and> vs' = embed_wrap p xs # vs''
                     else vs' = embed_wrap p xs # vs0 \<and> s' = s1 \<and> \<not> ok"
          using trav_embedded_Inr [OF e tr] by blast
        have "size_list size fs' < size_list size fs" using embedded_size [OF e] \<open>fs = f # fs0\<close> by simp
        then have ih: "(ok1 \<and> s1 = s) \<or> (\<not> ok1 \<and> (\<exists>v f. s1 = fst (snd (fn s v f))))"
          using less.hyps inner by blast
        show ?thesis
        proof (cases ok1)
          case True
          then obtain vs'' where "trav fn s fs0 vs0 = Inr (vs'', s', ok)" using rest ih by auto
          then show ?thesis using less.hyps [OF lt] by blast
        next
          case False
          then show ?thesis using rest ih by auto
        qed
      qed
    qed
  qed
qed

subsection \<open>Unexported embedded pointers\<close>

text \<open>The comment of \<open>TraverseType\<close> says pointers to anonymous unexported structs are
  always traversed; \<open>TraverseType\<close> does visit their fields, but \<open>Traverse\<close> on a value
  where such a pointer is nil panics, since it must allocate the pointer through an
  unexported field.\<close>

lemma Traverse_unexported_nil_panics:
  "TraverseType (TStruct [SField ''inner'' [] True (TPtr (TStruct [SField ''A'' [] False TInt]))])
     = Inr [SField ''A'' [] False TInt]
   \<and> Traverse fn s (TStruct [SField ''inner'' [] True (TPtr (TStruct [SField ''A'' [] False TInt]))])
       (RStruct [RPtr None]) = Inl unexported_set_panic"
  by (simp add: TraverseType_def deref_def Traverse_def is_exported_def)

end
