(* ===== verification/Bind.thy ===== *)
theory Bind
  imports Strconv Reflect
begin

text \<open>
  Setting reflected values from request strings (\<open>src/utils.go\<close> lines 48--171):
  \<open>SetArray\<close>, \<open>Set\<close> (here \<open>Set_reflect\<close>, as \<open>Set\<close> names the context's method),
  \<open>SetInt\<close>, \<open>SetUint\<close> and \<open>SetFloat\<close>.  A \<open>reflect.Value\<close> is passed as the field's
  type and value and returned updated together with the error.  Go mutates through the
  \<open>Value\<close>, so a setter that fails may already have changed the value (an allocated pointer,
  a new slice); the model returns that value as well.  Float parsing and JSON decoding are
  library functions the code only calls; they are parameters, collected in \<open>lib\<close>.
\<close>

record lib =
  parseFloat :: "string \<Rightarrow> nat \<Rightarrow> 64 word \<times> goerr option"
  unmarshalJSON :: "rtype \<Rightarrow> rval \<Rightarrow> string \<Rightarrow> rval \<times> goerr option"

section \<open>Scalar setters\<close>

definition SetInt :: "rtype \<Rightarrow> rval \<Rightarrow> string \<Rightarrow> rval \<times> goerr option" where
  "SetInt t v s =
     (let bits = (case t of TInt \<Rightarrow> 0 | TInt8 \<Rightarrow> 8 | TInt16 \<Rightarrow> 16 | TInt32 \<Rightarrow> 32 | TInt64 \<Rightarrow> 64 | _ \<Rightarrow> 0) in
      case ParseInt s bits of
        (i, Some err) \<Rightarrow> (v, Some err)
      | (i, None) \<Rightarrow> (RInt i, None))"

definition SetUint :: "rtype \<Rightarrow> rval \<Rightarrow> string \<Rightarrow> rval \<times> goerr option" where
  "SetUint t v s =
     (let bits = (case t of TUint \<Rightarrow> 0 | TUint8 \<Rightarrow> 8 | TUint16 \<Rightarrow> 16 | TUint32 \<Rightarrow> 32 | TUint64 \<Rightarrow> 64 | _ \<Rightarrow> 0) in
      case ParseUint s bits of
        (u, Some err) \<Rightarrow> (v, Some err)
      | (u, None) \<Rightarrow> (RUint u, None))"

definition SetFloat :: "lib \<Rightarrow> rtype \<Rightarrow> rval \<Rightarrow> string \<Rightarrow> rval \<times> goerr option" where
  "SetFloat L t v s =
     (let bits = (case t of TFloat32 \<Rightarrow> 32 | TFloat64 \<Rightarrow> 64 | _ \<Rightarrow> 0) in
      case parseFloat L s bits of
        (f, Some err) \<Rightarrow> (v, Some err)
      | (f, None) \<Rightarrow> (RFloat f, None))"

text \<open>\<open>for v.Kind() == reflect.Ptr\<close>: the pointee, allocated when the pointer is nil.\<close>

definition ptr_elem :: "rtype \<Rightarrow> rval \<Rightarrow> rval" where
  "ptr_elem t v = (case v of RPtr (Some x) \<Rightarrow> x | _ \<Rightarrow> zero t)"

fun Set_reflect :: "lib \<Rightarrow> rtype \<Rightarrow> rval \<Rightarrow> string \<Rightarrow> rval \<times> goerr option" where
  "Set_reflect L (TPtr t) v s = (let (x, e) = Set_reflect L t (ptr_elem t v) s in (RPtr (Some x), e))"
| "Set_reflect L TString v s = (RString s, None)"
| "Set_reflect L TBool v s = (case ParseBool s of (b, Some err) \<Rightarrow> (v, Some err) | (b, None) \<Rightarrow> (RBool b, None))"
| "Set_reflect L TInt v s = SetInt TInt v s"
| "Set_reflect L TInt8 v s = SetInt TInt8 v s"
| "Set_reflect L TInt16 v s = SetInt TInt16 v s"
| "Set_reflect L TInt32 v s = SetInt TInt32 v s"
| "Set_reflect L TInt64 v s = SetInt TInt64 v s"
| "Set_reflect L TUint v s = SetUint TUint v s"
| "Set_reflect L TUint8 v s = SetUint TUint8 v s"
| "Set_reflect L TUint16 v s = SetUint TUint16 v s"
| "Set_reflect L TUint32 v s = SetUint TUint32 v s"
| "Set_reflect L TUint64 v s = SetUint TUint64 v s"
| "Set_reflect L TFloat32 v s = SetFloat L TFloat32 v s"
| "Set_reflect L TFloat64 v s = SetFloat L TFloat64 v s"
| "Set_reflect L t v s = unmarshalJSON L t v s"

section \<open>Arrays and slices\<close>

text \<open>The loop \<open>for i := 0; i < length; i++\<close> of \<open>SetArray\<close>: element \<open>i\<close> is set from
  \<open>array[i]\<close>, stopping at the first error; elements past the strings are left alone.\<close>

fun set_elems :: "lib \<Rightarrow> rtype \<Rightarrow> rval list \<Rightarrow> string list \<Rightarrow> rval list \<times> goerr option" where
  "set_elems L t (x # xs) (s # ss) =
     (let (x', e) = Set_reflect L t x s in
      if e \<noteq> None then (x' # xs, e)
      else (let (xs', e') = set_elems L t xs ss in (x' # xs', e')))"
| "set_elems L t xs ss = (xs, None)"

fun array_vals :: "rval \<Rightarrow> rval list" where
  "array_vals (RArray xs) = xs"
| "array_vals _ = []"

fun SetArray :: "lib \<Rightarrow> rtype \<Rightarrow> rval \<Rightarrow> string list \<Rightarrow> rval \<times> goerr option" where
  "SetArray L (TPtr t) v array = (let (x, e) = SetArray L t (ptr_elem t v) array in (RPtr (Some x), e))"
| "SetArray L (TSlice t) v array =
     (let (xs, e) = set_elems L t (replicate (length array) (zero t)) array in (RSlice xs, e))"
| "SetArray L (TArray n t) v array =
     (let len = min (length array) n;
          (xs, e) = set_elems L t (array_vals v) (take len array)
      in (RArray xs, e))"
| "SetArray L t v array =
     (if 0 < length array \<and> array ! 0 \<noteq> [] then Set_reflect L t v (array ! 0) else (v, None))"

section \<open>Properties\<close>

text \<open>A JSON decoder that keeps the target's type.\<close>

definition lib_ok :: "lib \<Rightarrow> bool" where
  "lib_ok L = (\<forall>t v s. has_type v t \<longrightarrow> has_type (fst (unmarshalJSON L t v s)) t)"

definition int_bits :: "rtype \<Rightarrow> nat" where
  "int_bits t = (case t of TInt \<Rightarrow> 0 | TInt8 \<Rightarrow> 8 | TInt16 \<Rightarrow> 16 | TInt32 \<Rightarrow> 32 | TInt64 \<Rightarrow> 64 | _ \<Rightarrow> 0)"

definition uint_bits :: "rtype \<Rightarrow> nat" where
  "uint_bits t = (case t of TUint \<Rightarrow> 0 | TUint8 \<Rightarrow> 8 | TUint16 \<Rightarrow> 16 | TUint32 \<Rightarrow> 32 | TUint64 \<Rightarrow> 64 | _ \<Rightarrow> 0)"

lemma SetInt_bits: "SetInt t v s = (case ParseInt s (int_bits t) of (i, Some err) \<Rightarrow> (v, Some err) | (i, None) \<Rightarrow> (RInt i, None))"
  by (simp add: SetInt_def int_bits_def)

lemma SetUint_bits: "SetUint t v s = (case ParseUint s (uint_bits t) of (u, Some err) \<Rightarrow> (v, Some err) | (u, None) \<Rightarrow> (RUint u, None))"
  by (simp add: SetUint_def uint_bits_def)

lemma int_bits_width: "int_width t = Some w \<Longrightarrow> bit_width (int_bits t) = w \<and> w \<le> 64"
  by (cases t) (auto simp: int_bits_def bit_width_def)

lemma uint_bits_width: "uint_width t = Some w \<Longrightarrow> bit_width (uint_bits t) = w \<and> w \<le> 64"
  by (cases t) (auto simp: uint_bits_def bit_width_def)

lemma SetInt_typed:
  assumes "int_width t = Some w" "has_type v t"
  shows "has_type (fst (SetInt t v s)) t"
proof (cases "ParseInt s (int_bits t)")
  case (Pair i e)
  then show ?thesis
    using assms ParseInt_bounds [of s "int_bits t" i] int_bits_width [OF assms(1)]
    by (cases e) (simp_all add: SetInt_bits)
qed

lemma ParseUint_lt: assumes "ParseUint s b = (n, None)" shows "n < 2 ^ bit_width b"
proof -
  have "n \<le> 2 ^ bit_width b - 1" using ParseUint_le assms by blast
  moreover have "(0::nat) < 2 ^ bit_width b" by simp
  ultimately show ?thesis by linarith
qed

lemma SetUint_typed:
  assumes "uint_width t = Some w" "has_type v t"
  shows "has_type (fst (SetUint t v s)) t"
proof (cases "ParseUint s (uint_bits t)")
  case (Pair u e)
  then show ?thesis
    using assms ParseUint_lt [of s "uint_bits t" u] uint_bits_width [OF assms(1)]
    by (cases e) (auto simp: SetUint_bits)
qed

lemma SetFloat_typed: "t = TFloat32 \<or> t = TFloat64 \<Longrightarrow> has_type v t \<Longrightarrow> has_type (fst (SetFloat L t v s)) t"
  by (auto simp: SetFloat_def split: prod.splits option.splits)

lemma ptr_elem_typed: "has_type v (TPtr t) \<Longrightarrow> has_type (ptr_elem t v) t"
  using zero_has_type(1) by (auto simp: ptr_elem_def has_type_ptr_iff)

lemma Set_reflect_typed: "lib_ok L \<Longrightarrow> has_type v t \<Longrightarrow> has_type (fst (Set_reflect L t v s)) t"
proof (induction L t v s rule: Set_reflect.induct)
  case (1 L t v s)
  then show ?case using ptr_elem_typed by (cases "Set_reflect L t (ptr_elem t v) s") auto
qed (auto simp: lib_ok_def intro: SetInt_typed SetUint_typed SetFloat_typed split: prod.splits option.splits)

lemma set_elems_typed:
  "lib_ok L \<Longrightarrow> all_type xs t \<Longrightarrow> all_type (fst (set_elems L t xs ss)) t \<and> length (fst (set_elems L t xs ss)) = length xs"
proof (induction L t xs ss rule: set_elems.induct)
  case (1 L t x xs s ss)
  obtain x' e where xe: "Set_reflect L t x s = (x', e)" by (cases "Set_reflect L t x s") auto
  have "has_type x' t" using Set_reflect_typed [of L x t s] 1(2,3) xe by simp
  then show ?case using 1 xe by (auto split: prod.splits)
qed auto

lemma SetArray_typed: "lib_ok L \<Longrightarrow> has_type v t \<Longrightarrow> has_type (fst (SetArray L t v array)) t"
proof (induction L t v array rule: SetArray.induct)
  case (1 L t v array)
  then show ?case using ptr_elem_typed by (cases "SetArray L t (ptr_elem t v) array") auto
next
  case (2 L t v array)
  then show ?case using set_elems_typed [of L "replicate (length array) (zero t)" t array]
    by (cases "set_elems L t (replicate (length array) (zero t)) array")
      (simp add: all_type_replicate zero_has_type)
next
  case (3 L n t v array)
  then obtain xs where "v = RArray xs" "length xs = n" "all_type xs t" by (cases v) auto
  then show ?case using 3 set_elems_typed [of L xs t "take (min (length array) n) array"]
    by (cases "set_elems L t xs (take (min (length array) n) array)") simp
qed (simp_all del: Set_reflect.simps add: Set_reflect_typed)

definition L_demo :: lib where
  "L_demo = \<lparr>parseFloat = (\<lambda>s b. (0, None)), unmarshalJSON = (\<lambda>t v s. (v, Some (LibError ''json: cannot unmarshal'')))\<rparr>"

lemma lib_ok_L_demo: "lib_ok L_demo"
  by (simp add: lib_ok_def L_demo_def)

text \<open>Claim C33.  Binding request strings with \<open>SetArray\<close> (and so with \<open>Set\<close>) keeps the
  target value of its type whatever the strings are: every integer stored fits the width of its
  kind (an \<open>int8\<close> field never receives 300 or a wrapped value), every array keeps its length,
  and pointers are allocated with values of the pointee type.\<close>
theorem SetArray_preserves_type:
  assumes "lib_ok L" "has_type v t"
  shows "has_type (fst (SetArray L t v array)) t"
  using SetArray_typed [OF assms] .

theorem SetArray_preserves_type_witness:
  "lib_ok L_demo \<and> has_type (RArray [RInt 0, RInt 0]) (TArray 2 TInt8)
   \<and> SetArray L_demo (TArray 2 TInt8) (RArray [RInt 0, RInt 0]) [''-128'', ''300'', ''1'']
       = (RArray [RInt (-128), RInt 0], Some (NumError ''ParseInt'' ''300'' ErrRange))
   \<and> has_type (RArray [RInt (-128), RInt 0]) (TArray 2 TInt8)"
proof -
  have ty: "has_type (RArray [RInt 0, RInt 0]) (TArray 2 TInt8)" by simp
  have run: "SetArray L_demo (TArray 2 TInt8) (RArray [RInt 0, RInt 0]) [''-128'', ''300'', ''1'']
       = (RArray [RInt (-128), RInt 0], Some (NumError ''ParseInt'' ''300'' ErrRange))"
    by (simp add: SetInt_def ParseInt_def ParseUint_def ParseInt_range_def split_sign_def bit_width_def
        cutoff10_def is_digit_def digit_val_def)
  show ?thesis using SetArray_preserves_type [OF lib_ok_L_demo ty, of "[''-128'', ''300'', ''1'']"]
      lib_ok_L_demo ty run by simp
qed

text \<open>Claim C34.  Every integer in the range of a signed kind survives the trip through its
  decimal form: \<open>SetInt\<close> of \<open>strconv.FormatInt(i)\<close> stores exactly \<open>i\<close>, for \<open>int\<close>,
  \<open>int8\<close>, \<open>int16\<close>, \<open>int32\<close> and \<open>int64\<close>.\<close>
theorem SetInt_FormatInt_round_trip:
  assumes "int_width t = Some w" "- (2 ^ (w - 1)) \<le> i" "i < 2 ^ (w - 1)"
  shows "SetInt t v (FormatInt i) = (RInt i, None)"
proof -
  have "bit_width (int_bits t) = w" "w \<le> 64" using int_bits_width [OF assms(1)] by simp_all
  then have "ParseInt (FormatInt i) (int_bits t) = (i, None)"
    using assms(2,3) by (intro ParseInt_FormatInt) simp_all
  then show ?thesis by (simp add: SetInt_bits)
qed

theorem SetInt_FormatInt_round_trip_witness:
  "int_width TInt16 = Some 16 \<and> - (2 ^ (16 - 1)) \<le> (-32768::int) \<and> (-32768::int) < 2 ^ (16 - 1)
   \<and> SetInt TInt16 (RInt 0) (FormatInt (-32768)) = (RInt (-32768), None)"
  using SetInt_FormatInt_round_trip [of TInt16 16 "-32768" "RInt 0"] by simp

definition scalar :: "rtype \<Rightarrow> bool" where
  "scalar t = (t = TBool \<or> int_width t \<noteq> None \<or> uint_width t \<noteq> None)"

text \<open>Claim C35.  On a scalar field a failed \<open>Set\<close> leaves the value as it was, but a
  failed \<open>Set\<close> through a nil pointer has already allocated the pointer, and a failed
  \<open>SetArray\<close> on a slice has already replaced the slice by a new one, filled up to the bad
  element and zero after it: the error path changes the target.\<close>
theorem Set_error_changes_target:
  "(scalar t \<longrightarrow> snd (Set_reflect L t v s) \<noteq> None \<longrightarrow> fst (Set_reflect L t v s) = v)
   \<and> Set_reflect L (TPtr TInt) (RPtr None) ''x'' = (RPtr (Some (RInt 0)), Some (NumError ''ParseInt'' ''x'' ErrSyntax))
   \<and> SetArray L (TSlice TInt) (RSlice [RInt 5, RInt 6, RInt 7]) [''1'', ''x'']
       = (RSlice [RInt 1, RInt 0], Some (NumError ''ParseInt'' ''x'' ErrSyntax))"
proof -
  have "scalar t \<Longrightarrow> snd (Set_reflect L t v s) \<noteq> None \<Longrightarrow> fst (Set_reflect L t v s) = v"
    by (cases t) (auto simp: scalar_def SetInt_def SetUint_def split: prod.splits option.splits)
  moreover have "Set_reflect L (TPtr TInt) (RPtr None) ''x'' = (RPtr (Some (RInt 0)), Some (NumError ''ParseInt'' ''x'' ErrSyntax))"
    by (simp add: ptr_elem_def SetInt_def ParseInt_def ParseUint_def split_sign_def is_digit_def)
  moreover have "SetArray L (TSlice TInt) (RSlice [RInt 5, RInt 6, RInt 7]) [''1'', ''x'']
       = (RSlice [RInt 1, RInt 0], Some (NumError ''ParseInt'' ''x'' ErrSyntax))"
    by (simp add: SetInt_def ParseInt_def ParseUint_def ParseInt_range_def split_sign_def bit_width_def
        cutoff10_def is_digit_def digit_val_def)
  ultimately show ?thesis by blast
qed

theorem Set_error_changes_target_witness:
  "scalar TInt8 \<and> snd (Set_reflect L_demo TInt8 (RInt 3) ''300'') \<noteq> None
   \<and> fst (Set_reflect L_demo TInt8 (RInt 3) ''300'') = RInt 3"
proof -
  have "scalar TInt8 \<and> snd (Set_reflect L_demo TInt8 (RInt 3) ''300'') \<noteq> None"
    by (simp add: scalar_def SetInt_def ParseInt_def ParseUint_def ParseInt_range_def split_sign_def
        bit_width_def cutoff10_def is_digit_def digit_val_def)
  then show ?thesis using Set_error_changes_target [of TInt8 L_demo "RInt 3" "''300''"] by blast
qed

end
