(* ===== verification/Convert.thy ===== *)
theory Convert
  imports Bind
begin

text \<open>
  The reflection-based request binding of \<open>src/convert.go\<close>: the names under which a
  query parameter is looked up (\<open>queryParamName\<close>, \<open>queryParamValues\<close>), binding the
  query and the header into a struct (\<open>Query\<close>, \<open>Header\<close>), the validation of request
  and response types, and the conversion of a request into the handler's argument.  A
  \<open>map[string][]string\<close> (\<open>url.Values\<close>, \<open>http.Header\<close>) is an association list with
  distinct keys, listed in the order a \<open>range\<close> loop visits it; Go randomises that order
  on every loop, so a property that depends on it holds for every order.  Struct tags are
  given parsed, as key/value pairs; \<open>StructTag.Get\<close> and \<open>struct_tag.Lookup\<close> read them.
\<close>

section \<open>Library helpers\<close>

type_synonym values_map = "(string \<times> string list) list"

definition Tag_Get :: "(string \<times> string) list \<Rightarrow> string \<Rightarrow> string" where
  "Tag_Get tag key = (case map_of tag key of Some v \<Rightarrow> v | None \<Rightarrow> [])"

text \<open>\<open>strings.Index(s, ",")\<close>: the first position of the byte, or -1.\<close>

fun strIndex :: "string \<Rightarrow> char \<Rightarrow> int" where
  "strIndex [] c = -1"
| "strIndex (x # xs) c = (if x = c then 0 else (let r = strIndex xs c in if r < 0 then -1 else r + 1))"

text \<open>\<open>strings.ToLower\<close> on ASCII letters; other bytes are kept.\<close>

definition lower_char :: "char \<Rightarrow> char" where
  "lower_char c = (if 65 \<le> (of_char c :: nat) \<and> (of_char c :: nat) \<le> 90 then char_of (of_char c + (32::nat)) else c)"

definition ToLower :: "string \<Rightarrow> string" where
  "ToLower s = map lower_char s"

definition lookup_values :: "values_map \<Rightarrow> string \<Rightarrow> string list option" where
  "lookup_values m k = map_of m k"

section \<open>Query parameters\<close>

definition is_list_kind :: "rtype \<Rightarrow> bool" where
  "is_list_kind t = (case t of TSlice _ \<Rightarrow> True | TArray _ _ \<Rightarrow> True | _ \<Rightarrow> False)"

definition queryParamName :: "sfield \<Rightarrow> string \<times> string" where
  "queryParamName field =
     (let tag = Tag_Get (sf_tag field) ''json'' in
      if tag = ''-'' then ([], [])
      else (let name = (if tag \<noteq> [] then
                          (let idx = strIndex tag (CHR '','') in
                           if 0 < idx then take (nat idx) tag else if idx < 0 then tag else sf_name field)
                        else sf_name field) in
            if is_list_kind (sf_type field) then (name, name @ ''[]'') else (name, [])))"

definition queryParamValues :: "values_map \<Rightarrow> string \<Rightarrow> string \<Rightarrow> string list" where
  "queryParamValues map2strs paramName arrayParamName =
     (case lookup_values map2strs paramName of
        Some values \<Rightarrow> values
      | None \<Rightarrow>
          (case (if arrayParamName \<noteq> [] then lookup_values map2strs arrayParamName else None) of
             Some values \<Rightarrow> values
           | None \<Rightarrow>
               (let paramName = ToLower paramName; arrayParamName = ToLower arrayParamName in
                case find (\<lambda>(key, values). ToLower key = paramName
                               \<or> arrayParamName \<noteq> [] \<and> ToLower key = arrayParamName) map2strs of
                  Some (key, values) \<Rightarrow> values
                | None \<Rightarrow> [])))"

text \<open>The callback of \<open>Query\<close>; its state is the captured \<open>err\<close>.\<close>

definition query_visitor :: "lib \<Rightarrow> values_map \<Rightarrow> goerr option visitor" where
  "query_visitor L map2strs err v f =
     (let (paramName, arrayParamName) = queryParamName f in
      if paramName = [] then (v, err, True)
      else (let values = queryParamValues map2strs paramName arrayParamName in
            if values \<noteq> [] then
              (let (v', e) = SetArray L (sf_type f) v values;
                   err = map_option (\<lambda>e. Errorf (''req.Query.'' @ sf_name f @ '': '' @ Error e)) e
               in (v', err, err = None))
            else (v, err, True)))"

definition Query :: "lib \<Rightarrow> rtype \<Rightarrow> rval \<Rightarrow> values_map \<Rightarrow> go_panic + rval \<times> goerr option" where
  "Query L t value map2strs =
     (if map2strs = [] then Inr (value, None)
      else (case Traverse (query_visitor L map2strs) None t value of
              Inl p \<Rightarrow> Inl p
            | Inr (value', err, _) \<Rightarrow> Inr (value', err)))"

section \<open>Header\<close>

definition header_key :: "sfield \<Rightarrow> string" where
  "header_key f = (let key = Tag_Get (sf_tag f) ''header'' in if key = [] then sf_name f else key)"

definition header_visitor :: "lib \<Rightarrow> values_map \<Rightarrow> goerr option visitor" where
  "header_visitor L map2strs err v f =
     (let values = (case lookup_values map2strs (header_key f) of Some vs \<Rightarrow> vs | None \<Rightarrow> []) in
      if values \<noteq> [] \<and> hd values \<noteq> [] then
        (let (v', e) = Set_reflect L (sf_type f) v (hd values);
             err = map_option (\<lambda>e. Errorf (''req.Header.'' @ sf_name f @ '': '' @ Error e)) e
         in (v', err, err = None))
      else (v, err, err = None))"

definition Header :: "lib \<Rightarrow> rtype \<Rightarrow> rval \<Rightarrow> values_map \<Rightarrow> go_panic + rval \<times> goerr option" where
  "Header L t value map2strs =
     (case Traverse (header_visitor L map2strs) None t value of
        Inl p \<Rightarrow> Inl p
      | Inr (value', err, _) \<Rightarrow> Inr (value', err))"

section \<open>Request body\<close>

text \<open>\<open>convertReqBody\<close>, with the result of \<open>ctx.RequestBody()\<close> given: an error or the
  body's bytes.\<close>

definition convertReqBody :: "lib \<Rightarrow> rtype \<Rightarrow> rval \<Rightarrow> goerr + string \<Rightarrow> rval \<times> goerr option" where
  "convertReqBody L t value body =
     (case body of
        Inl err \<Rightarrow> (value, Some err)
      | Inr b \<Rightarrow>
          (if b = [] then (value, None)
           else (let (value', e) = unmarshalJSON L t value b
                 in (value', map_option (\<lambda>e. Errorf (''req.Body: '' @ Error e)) e))))"

section \<open>Validating the request type\<close>

record todoReqFields =
  todoParam :: bool
  todoQuery :: bool
  todoHeader :: bool
  todoBody :: bool
  todoCtx :: bool

definition todo0 :: todoReqFields where
  "todo0 = \<lparr>todoParam = False, todoQuery = False, todoHeader = False, todoBody = False, todoCtx = False\<rparr>"

definition typeContextPtr :: rtype where
  "typeContextPtr = TPtr (TNamed ''hapi.Context'' [])"

definition isEmptyStruct :: "rtype \<Rightarrow> bool" where
  "isEmptyStruct typ = (case deref typ of TStruct fs \<Rightarrow> fs = [] | _ \<Rightarrow> False)"

definition isStructOrStructPtr :: "rtype \<Rightarrow> bool" where
  "isStructOrStructPtr typ = (case deref typ of TStruct fs \<Rightarrow> True | _ \<Rightarrow> False)"

definition ValidateHeader :: "rtype \<Rightarrow> go_panic + unit" where
  "ValidateHeader typ =
     (if \<not> isStructOrStructPtr typ then Inl (Panic ''req.Header must be struct or pointer to struct.'') else Inr ())"

definition ValidateQuery :: "rtype \<Rightarrow> go_panic + unit" where
  "ValidateQuery typ =
     (if \<not> isStructOrStructPtr typ then Inl (Panic ''req.Query must be struct or pointer to struct.'') else Inr ())"

definition convertNilPtr :: "rtype \<Rightarrow> rval \<Rightarrow> rval" where
  "convertNilPtr t v = (case t of TPtr t' \<Rightarrow> (if v = RPtr None then RPtr (Some (zero t')) else v) | _ \<Rightarrow> v)"

text \<open>A loop whose body may panic, as an early exit of the sum type.\<close>

fun foldE :: "('s \<Rightarrow> 'a \<Rightarrow> go_panic + 's) \<Rightarrow> 'a list \<Rightarrow> 's \<Rightarrow> go_panic + 's" where
  "foldE f [] s = Inr s"
| "foldE f (x # xs) s = (case f s x of Inl p \<Rightarrow> Inl p | Inr s' \<Rightarrow> foldE f xs s')"

definition ctx_field_panic :: go_panic where
  "ctx_field_panic = Panic (''Ctx field of req parameter must be of type '' @ [CHR 0x27] @ ''*goa.Context''
                            @ [CHR 0x27] @ ''.'')"

text \<open>The switch on the field name in the callback of \<open>validateReqFields\<close>.\<close>

definition validate_req_field :: "todoReqFields \<Rightarrow> sfield \<Rightarrow> go_panic + todoReqFields" where
  "validate_req_field todo f =
     (if sf_name f = ''Query'' then
        (if \<not> isEmptyStruct (sf_type f) then
           (case ValidateQuery (sf_type f) of Inl p \<Rightarrow> Inl p | Inr _ \<Rightarrow> Inr (todo\<lparr>todoQuery := True\<rparr>))
         else Inr todo)
      else if sf_name f = ''Header'' then
        (if \<not> isEmptyStruct (sf_type f) then
           (case ValidateHeader (sf_type f) of Inl p \<Rightarrow> Inl p | Inr _ \<Rightarrow> Inr (todo\<lparr>todoHeader := True\<rparr>))
         else Inr todo)
      else if sf_name f = ''Ctx'' then
        (if sf_type f \<noteq> typeContextPtr then Inl ctx_field_panic else Inr (todo\<lparr>todoCtx := True\<rparr>))
      else if sf_name f = ''Body'' then
        (if \<not> isEmptyStruct (sf_type f) then Inr (todo\<lparr>todoBody := True\<rparr>) else Inr todo)
      else Inl (Panic (''Unknown field: req.'' @ sf_name f)))"

definition validateReqFields :: "rtype \<Rightarrow> string \<Rightarrow> go_panic + todoReqFields" where
  "validateReqFields typ path =
     (case typ of
        TStruct _ \<Rightarrow>
          (case TraverseType typ of Inl p \<Rightarrow> Inl p | Inr fs \<Rightarrow> foldE validate_req_field fs todo0)
      | _ \<Rightarrow> Inl (Panic ''req parameter of handler func must be a struct or struct pointer.''))"

section \<open>Converting a request\<close>

text \<open>What the conversion reads from the context: the URL query, the request header, the
  result of \<open>RequestBody()\<close>, and the \<open>*Context\<close> itself as a value.\<close>

record reqIn =
  rq_query :: values_map
  rq_header :: values_map
  rq_body :: "goerr + string"
  rq_ctx :: rval

text \<open>The callback of the \<open>Traverse\<close> in the closure of \<open>newReqConvertFunc\<close>; its state is
  the captured \<open>err\<close>, or the panic that unwinds out of the traversal.\<close>

definition req_visitor :: "lib \<Rightarrow> todoReqFields \<Rightarrow> reqIn \<Rightarrow> (go_panic + goerr option) visitor" where
  "req_visitor L todo rq st value f =
     (case st of
        Inl p \<Rightarrow> (value, st, False)
      | Inr err \<Rightarrow>
          (if sf_name f = ''Query'' then
             (if todoQuery todo then
                (let value = convertNilPtr (sf_type f) value in
                 case Query L (sf_type f) value (rq_query rq) of
                   Inl p \<Rightarrow> (value, Inl p, False)
                 | Inr (value', err) \<Rightarrow> (value', Inr err, err = None))
              else (value, Inr err, err = None))
           else if sf_name f = ''Header'' then
             (if todoHeader todo then
                (let value = convertNilPtr (sf_type f) value in
                 case Header L (sf_type f) value (rq_header rq) of
                   Inl p \<Rightarrow> (value, Inl p, False)
                 | Inr (value', err) \<Rightarrow> (value', Inr err, err = None))
              else (value, Inr err, err = None))
           else if sf_name f = ''Body'' then
             (if todoBody todo then
                (let (value', err) = convertReqBody L (sf_type f) value (rq_body rq) in (value', Inr err, err = None))
              else (value, Inr err, err = None))
           else if sf_name f = ''Ctx'' then
             (if todoCtx todo then (rq_ctx rq, Inr err, err = None) else (value, Inr err, err = None))
           else (value, Inr err, err = None)))"

text \<open>The closure: a fresh \<open>reflect.New(typ)\<close>, its fields filled by the traversal; the
  error, or the value (the pointer when the handler takes a pointer).\<close>

definition reqConvert :: "lib \<Rightarrow> rtype \<Rightarrow> bool \<Rightarrow> todoReqFields \<Rightarrow> reqIn \<Rightarrow> go_panic + (goerr + rval)" where
  "reqConvert L typ isPtr todo rq =
     (case Traverse (req_visitor L todo rq) (Inr None) typ (zero typ) of
        Inl p \<Rightarrow> Inl p
      | Inr (req, Inl p, _) \<Rightarrow> Inl p
      | Inr (req, Inr (Some err), _) \<Rightarrow> Inr (Inl err)
      | Inr (req, Inr None, _) \<Rightarrow> Inr (Inr (if isPtr then RPtr (Some req) else req)))"

definition newReqConvertFunc ::
  "lib \<Rightarrow> rtype \<Rightarrow> string \<Rightarrow> go_panic + (reqIn \<Rightarrow> go_panic + (goerr + rval)) \<times> bool" where
  "newReqConvertFunc L typ path =
     (let isPtr = (case typ of TPtr _ \<Rightarrow> True | _ \<Rightarrow> False); typ = deref typ in
      case validateReqFields typ path of
        Inl p \<Rightarrow> Inl p
      | Inr todo \<Rightarrow> Inr (reqConvert L typ isPtr todo, todoCtx todo))"

section \<open>The response side\<close>

text \<open>\<open>Implements(errorType)\<close>: a type with methods is a \<open>TNamed\<close> carrying its method set.\<close>

definition implements_error :: "rtype \<Rightarrow> bool" where
  "implements_error t = (case t of TNamed n ms \<Rightarrow> ''Error'' \<in> set ms | _ \<Rightarrow> False)"

definition resp_header_check :: "go_panic option visitor" where
  "resp_header_check st v f =
     (if sf_type f \<noteq> TString then (v, Some (Panic (''resp.Header.'' @ sf_name f @ '': type must be string.'')), False)
      else (v, st, True))"

definition ValidateRespHeader :: "rtype \<Rightarrow> go_panic + unit" where
  "ValidateRespHeader typ =
     (let typ = deref typ in
      case typ of
        TStruct _ \<Rightarrow>
          (case Traverse resp_header_check None typ (zero typ) of
             Inl p \<Rightarrow> Inl p
           | Inr (_, Some p, _) \<Rightarrow> Inl p
           | Inr (_, None, _) \<Rightarrow> Inr ())
      | _ \<Rightarrow> Inl (Panic ''resp.Header must be struct or pointer to struct.''))"

definition validate_resp_field :: "unit \<Rightarrow> sfield \<Rightarrow> go_panic + unit" where
  "validate_resp_field u f =
     (if sf_name f = ''Data'' then Inr ()
      else if sf_name f = ''Error'' then
        (if \<not> implements_error (sf_type f) then Inl (Panic ''resp.Error must be of \"error\" type.'') else Inr ())
      else if sf_name f = ''Header'' then ValidateRespHeader (sf_type f)
      else Inl (Panic (''Unknown field: resp.'' @ sf_name f)))"

text \<open>\<open>validateRespFields\<close> returns whether the struct has no field at all (\<open>empty\<close>).\<close>

definition validateRespFields :: "rtype \<Rightarrow> go_panic + bool" where
  "validateRespFields typ =
     (case TraverseType typ of
        Inl p \<Rightarrow> Inl p
      | Inr fs \<Rightarrow> (case foldE validate_resp_field fs () of Inl p \<Rightarrow> Inl p | Inr _ \<Rightarrow> Inr (fs = [])))"

text \<open>\<open>http.Header.Set\<close> stores the value under the canonical form of the key
  (\<open>textproto.CanonicalMIMEHeaderKey\<close>: the first letter and every letter after a hyphen in
  upper case, the others in lower case; a key with a byte that is not a token byte is kept).\<close>

definition upper_char :: "char \<Rightarrow> char" where
  "upper_char c = (if 97 \<le> (of_char c :: nat) \<and> (of_char c :: nat) \<le> 122 then char_of (of_char c - (32::nat)) else c)"

definition token_char :: "char \<Rightarrow> bool" where
  "token_char c = (let n = (of_char c :: nat) in
     (48 \<le> n \<and> n \<le> 57) \<or> (65 \<le> n \<and> n \<le> 90) \<or> (97 \<le> n \<and> n \<le> 122) \<or> c \<in> set ''!#$%&*+-.^_|~'' \<or> n = 39 \<or> n = 96)"

fun canon_from :: "bool \<Rightarrow> string \<Rightarrow> string" where
  "canon_from up [] = []"
| "canon_from up (c # cs) = (if up then upper_char c else lower_char c) # canon_from (c = CHR ''-'') cs"

definition CanonicalMIMEHeaderKey :: "string \<Rightarrow> string" where
  "CanonicalMIMEHeaderKey s = (if (\<forall>c\<in>set s. token_char c) then canon_from True s else s)"

definition header_Set :: "values_map \<Rightarrow> string \<Rightarrow> string \<Rightarrow> values_map" where
  "header_Set h key value =
     (let k = CanonicalMIMEHeaderKey key in filter (\<lambda>(k', _). k' \<noteq> k) h @ [(k, [value])])"

text \<open>\<open>v.String()\<close>: the string of a string value; other kinds print as
  \<open><T Value>\<close>, never empty (the type is elided here).\<close>

fun rval_String :: "rval \<Rightarrow> string" where
  "rval_String (RString s) = s"
| "rval_String _ = ''<Value>''"

definition write_header_visitor :: "values_map visitor" where
  "write_header_visitor header v f =
     (let value = rval_String v in
      if value \<noteq> [] then (v, header_Set header (header_key f) value, False) else (v, header, False))"

definition WriteRespHeader :: "rtype \<Rightarrow> rval \<Rightarrow> values_map \<Rightarrow> go_panic + values_map" where
  "WriteRespHeader typ value header =
     (case Traverse write_header_visitor header typ value of
        Inl p \<Rightarrow> Inl p
      | Inr (_, header', _) \<Rightarrow> Inr header')"

section \<open>Properties\<close>

lemma write_header_visitor_stops: "snd (snd (write_header_visitor h v f)) = False"
  by (simp add: write_header_visitor_def Let_def)

text \<open>Claim C36.  \<open>WriteRespHeader\<close> writes at most one response header: its callback
  returns \<open>false\<close> after the first field it visits, whether or not it wrote it, so the header
  it returns is the given one or the given one with one key set.  A response \<open>Header\<close>
  struct whose first field is empty writes nothing, whatever its other fields hold.\<close>
theorem WriteRespHeader_writes_one:
  "(WriteRespHeader t v h = Inr h' \<longrightarrow> h' = h \<or> (\<exists>k x. h' = header_Set h k x))
   \<and> WriteRespHeader (TStruct [SField ''A'' [] False TString, SField ''B'' [] False TString])
       (RStruct [RString [], RString ''2'']) [] = Inr []"
proof -
  have "WriteRespHeader t v h = Inr h' \<Longrightarrow> h' = h \<or> (\<exists>k x. h' = header_Set h k x)"
  proof -
    assume w: "WriteRespHeader t v h = Inr h'"
    then obtain v' ok where "Traverse write_header_visitor h t v = Inr (v', h', ok)"
      by (auto simp: WriteRespHeader_def split: sum.splits prod.splits)
    from Traverse_trav [OF this] obtain fs xs xs' where "trav write_header_visitor h fs xs = Inr (xs', h', ok)"
      by blast
    then have "h' = h \<or> (\<exists>v f. h' = fst (snd (write_header_visitor h v f)))"
      using trav_stops [where fn = write_header_visitor, OF write_header_visitor_stops] by blast
    then show ?thesis by (auto simp: write_header_visitor_def Let_def split: if_splits)
  qed
  moreover have "WriteRespHeader (TStruct [SField ''A'' [] False TString, SField ''B'' [] False TString])
       (RStruct [RString [], RString ''2'']) [] = Inr []"
    by (simp add: WriteRespHeader_def Traverse_def write_header_visitor_def is_exported_def)
  ultimately show ?thesis by blast
qed

theorem WriteRespHeader_writes_one_witness:
  "WriteRespHeader (TStruct [SField ''A'' [(''header'', ''x-a'')] False TString, SField ''B'' [] False TString])
     (RStruct [RString ''1'', RString ''2'']) [] = Inr [(''X-A'', [''1''])]
   \<and> [(''X-A'', [''1''])] = header_Set [] ''x-a'' ''1''"
proof -
  have w: "WriteRespHeader (TStruct [SField ''A'' [(''header'', ''x-a'')] False TString, SField ''B'' [] False TString])
     (RStruct [RString ''1'', RString ''2'']) [] = Inr [(''X-A'', [''1''])]"
    by code_simp
  have "[(''X-A'', [''1''])] = header_Set [] ''x-a'' ''1''"
    by code_simp
  then show ?thesis using WriteRespHeader_writes_one [of _ _ _ "[(''X-A'', [''1''])]"] w by simp
qed

text \<open>The case-insensitive fallback of \<open>queryParamValues\<close> returns the first matching key
  in the map's iteration order, which Go randomises: the same query map, visited in two
  orders, binds two different values.\<close>

lemma queryParamValues_order_dependent:
  "map_of [(''NAME'', [''a'']), (''Name'', [''b''])] = map_of [(''Name'', [''b'']), (''NAME'', [''a''])]
   \<and> queryParamValues [(''NAME'', [''a'']), (''Name'', [''b''])] ''name'' [] = [''a'']
   \<and> queryParamValues [(''Name'', [''b'']), (''NAME'', [''a''])] ''name'' [] = [''b'']"
proof -
  have "map_of [(''NAME'', [''a'']), (''Name'', [''b''])] = map_of [(''Name'', [''b'']), (''NAME'', [''a''])]"
    by (auto simp: fun_eq_iff)
  moreover have "queryParamValues [(''NAME'', [''a'']), (''Name'', [''b''])] ''name'' [] = [''a'']"
    by code_simp
  moreover have "queryParamValues [(''Name'', [''b'']), (''NAME'', [''a''])] ''name'' [] = [''b'']"
    by code_simp
  ultimately show ?thesis by blast
qed

end
