(* ===== verification/Resp_Write.thy ===== *)
theory Resp_Write
  imports Convert Context_Response
begin

text \<open>
  The conversion of a handler (\<open>src/convert.go\<close> lines 20--55) and the response side
  of a converted handler (lines 266--300):
  \<open>newRespWriteFunc\<close> checks that the handler's second parameter is a pointer to a struct,
  validates its fields, and returns a closure unless the struct is empty.  The closure skips
  the response when the handler takes a \<open>*Context\<close> and the writer has already written a
  body; otherwise it traverses the response struct, collects \<open>Error\<close> and \<open>Data\<close>, copies
  \<open>Header\<close> into the response header with \<open>WriteRespHeader\<close>, and answers with
  \<open>ctx.Data(data, err)\<close>.

  \<open>v.Interface()\<close> turns a field into an interface value; the model of reflect values does
  not say which slices, maps or interfaces are nil, so the conversion is a parameter
  (\<open>ifc\<close> for the \<open>Data\<close> field, \<open>errc\<close> for the \<open>Error\<close> field, \<open>None\<close> for a nil
  error).  \<open>ResponseBodySize\<close> reads the field \<open>written\<close> of the writer by reflection; the
  writer of \<open>Server\<close> has no such field (it counts the bytes in \<open>size\<close>), so the lookup is
  invalid and the size is 0, as for \<open>wroteHeader\<close> in \<open>StatusJson\<close>.  A panic raised in
  the callback (by \<open>WriteRespHeader\<close>) unwinds the traversal: the callback records it and
  stops, and the closure returns it.

  \<open>convertHandler\<close> keeps a \<open>func(*Context)\<close>, checks that any other handler is a
  function of two parameters and no results, and builds the closure from
  \<open>newReqConvertFunc\<close> and \<open>newRespWriteFunc\<close>.  The user's function, called through
  \<open>reflect.Value.Call\<close>, is given by its body: the response it leaves, from the request and
  the fresh response.
\<close>

section \<open>Building the closure\<close>

definition resp_type_panic :: go_panic where
  "resp_type_panic = Panic ''resp parameter of handler func must be a struct pointer.''"

text \<open>The element type of the response and whether there is a closure (the struct is not
  empty).\<close>

definition newRespWriteFunc :: "rtype \<Rightarrow> go_panic + rtype \<times> bool" where
  "newRespWriteFunc typ =
     (case typ of
        TPtr t \<Rightarrow>
          (case t of
             TStruct _ \<Rightarrow>
               (case validateRespFields t of Inl p \<Rightarrow> Inl p | Inr isEmpty \<Rightarrow> Inr (t, \<not> isEmpty))
           | _ \<Rightarrow> Inl resp_type_panic)
      | _ \<Rightarrow> Inl resp_type_panic)"

section \<open>The closure\<close>

definition ResponseBodySize :: "responseWriter \<Rightarrow> int" where
  "ResponseBodySize w = 0"

text \<open>What the callback captures: \<open>data\<close>, \<open>err\<close>, the response header and a panic.\<close>

record respState =
  rs_data :: iface
  rs_err :: "appErr option"
  rs_header :: values_map
  rs_panic :: "go_panic option"

definition resp_visitor :: "(rtype \<Rightarrow> rval \<Rightarrow> iface) \<Rightarrow> (rval \<Rightarrow> appErr option) \<Rightarrow> respState visitor" where
  "resp_visitor ifc errc st v f =
     (if sf_name f = ''Error'' then
        (v, (case errc v of Some e \<Rightarrow> st\<lparr>rs_err := Some e\<rparr> | None \<Rightarrow> st), True)
      else if sf_name f = ''Data'' then (v, st\<lparr>rs_data := ifc (sf_type f) v\<rparr>, True)
      else if sf_name f = ''Header'' then
        (case WriteRespHeader (sf_type f) v (rs_header st) of
           Inl p \<Rightarrow> (v, st\<lparr>rs_panic := Some p\<rparr>, False)
         | Inr h \<Rightarrow> (v, st\<lparr>rs_header := h\<rparr>, True))
      else (v, st, True))"

text \<open>The closure on the handler's response \<open>resp\<close> of type \<open>typ\<close>: the response header,
  the writer and the events on the connection, or the panic.\<close>

definition respWrite ::
  "(rtype \<Rightarrow> rval \<Rightarrow> iface) \<Rightarrow> (rval \<Rightarrow> appErr option) \<Rightarrow> (jsonBody \<Rightarrow> string option) \<Rightarrow> nat
   \<Rightarrow> bool \<Rightarrow> values_map \<Rightarrow> responseWriter \<Rightarrow> wire_event list \<Rightarrow> rtype \<Rightarrow> rval
   \<Rightarrow> go_panic + values_map \<times> responseWriter \<times> wire_event list" where
  "respWrite ifc errc enc ServerErr hasCtx header w ws typ resp =
     (if hasCtx \<and> 0 < ResponseBodySize w then Inr (header, w, ws)
      else
        (case Traverse (resp_visitor ifc errc)
                \<lparr>rs_data = INil, rs_err = None, rs_header = header, rs_panic = None\<rparr> typ resp of
           Inl p \<Rightarrow> Inl p
         | Inr (_, st, _) \<Rightarrow>
             (case rs_panic st of
                Some p \<Rightarrow> Inl p
              | None \<Rightarrow>
                  (case Data enc ServerErr w ws (rs_data st) (rs_err st) of
                     (w', ws') \<Rightarrow> Inr (rs_header st, w', ws')))))"

section \<open>Converting a handler\<close>

text \<open>A handler given to the router: a \<open>func(*Context)\<close>, another function with its
  parameter types, its number of results and its body (the user's code, which takes the
  request and the zero response and returns the response it leaves), or a value that is no
  function.\<close>

datatype handlerVal =
    HContextFunc
  | HFunc "rtype list" nat "rval \<Rightarrow> rval \<Rightarrow> rval"
  | HNonFunc

definition argsErrPanic :: go_panic where "argsErrPanic = Panic ''args-err''"

text \<open>The closure of \<open>convertHandler\<close>: convert the request (an error panics with
  \<open>args-err\<close>), call the function on the request and a fresh response, and write the
  response if there is a writer for it.\<close>

definition runConverted ::
  "(rtype \<Rightarrow> rval \<Rightarrow> iface) \<Rightarrow> (rval \<Rightarrow> appErr option) \<Rightarrow> (jsonBody \<Rightarrow> string option) \<Rightarrow> nat
   \<Rightarrow> (rval \<Rightarrow> rval \<Rightarrow> rval) \<Rightarrow> (reqIn \<Rightarrow> go_panic + (goerr + rval)) \<Rightarrow> bool \<Rightarrow> rtype \<Rightarrow> bool
   \<Rightarrow> reqIn \<Rightarrow> values_map \<Rightarrow> responseWriter \<Rightarrow> wire_event list
   \<Rightarrow> go_panic + values_map \<times> responseWriter \<times> wire_event list" where
  "runConverted ifc errc enc ServerErr call reqConv hasCtx respTyp hasWriter rq header w ws =
     (case reqConv rq of
        Inl p \<Rightarrow> Inl p
      | Inr (Inl err) \<Rightarrow> Inl argsErrPanic
      | Inr (Inr req) \<Rightarrow>
          (let resp = call req (zero respTyp) in
           if hasWriter then respWrite ifc errc enc ServerErr hasCtx header w ws respTyp resp
           else Inr (header, w, ws)))"

text \<open>\<open>convertHandler\<close>: \<open>None\<close> when the handler is a \<open>func(*Context)\<close>, returned as it
  is; otherwise the closure, after the checks on the function's type.\<close>

definition convertHandler ::
  "lib \<Rightarrow> (rtype \<Rightarrow> rval \<Rightarrow> iface) \<Rightarrow> (rval \<Rightarrow> appErr option) \<Rightarrow> (jsonBody \<Rightarrow> string option) \<Rightarrow> nat
   \<Rightarrow> handlerVal \<Rightarrow> string
   \<Rightarrow> go_panic + (reqIn \<Rightarrow> values_map \<Rightarrow> responseWriter \<Rightarrow> wire_event list
                    \<Rightarrow> go_panic + values_map \<times> responseWriter \<times> wire_event list) option" where
  "convertHandler L ifc errc enc ServerErr h rpath =
     (case h of
        HContextFunc \<Rightarrow> Inr None
      | HNonFunc \<Rightarrow> Inl (Panic ''handler must be a func.'')
      | HFunc ins nout call \<Rightarrow>
          (if length ins \<noteq> 2 then Inl (Panic ''handler func must have exactly two parameters.'')
           else if nout \<noteq> 0 then Inl (Panic ''handler func must have no return values.'')
           else
             (case newReqConvertFunc L (ins ! 0) rpath of
                Inl p \<Rightarrow> Inl p
              | Inr (reqConv, hasCtx) \<Rightarrow>
                  (case newRespWriteFunc (ins ! 1) of
                     Inl p \<Rightarrow> Inl p
                   | Inr (respTyp, hasWriter) \<Rightarrow>
                       Inr (Some (runConverted ifc errc enc ServerErr call reqConv hasCtx respTyp hasWriter))))))"

section \<open>Properties\<close>

text \<open>The guard for handlers that take a \<open>*Context\<close> never fires: \<open>ResponseBodySize\<close>
  is 0 for the writer, so the closure answers whether or not the handler takes the context.\<close>

lemma respWrite_guard_inert:
  "respWrite ifc errc enc SE True header w ws typ resp = respWrite ifc errc enc SE False header w ws typ resp"
  by (simp add: respWrite_def ResponseBodySize_def)

text \<open>So when the handler has already written the response through the context, the
  closure still appends a JSON body to it (the status is not sent again).\<close>

lemma respWrite_writes_again:
  assumes "Written w" "respWrite ifc errc enc SE hasCtx header w ws typ resp = Inr (h', w', ws')"
  shows "\<exists>d. ws' = ws @ [WireBody (rw_conn w) d]"
proof -
  obtain v st ok where tr: "Traverse (resp_visitor ifc errc)
        \<lparr>rs_data = INil, rs_err = None, rs_header = header, rs_panic = None\<rparr> typ resp = Inr (v, st, ok)"
    and np: "rs_panic st = None"
    and d: "Data enc SE w ws (rs_data st) (rs_err st) = (w', ws')"
    using assms(2)
    by (auto simp: respWrite_def ResponseBodySize_def split: sum.splits option.splits prod.splits)
  obtain sc b where "Data_body SE (rs_data st) (rs_err st) = (sc, b)" by fastforce
  then have "ws' = snd (StatusJson enc w ws sc (JData b))"
    using d by (simp add: Data_def)
  then show ?thesis using StatusJson_written[OF assms(1)] by blast
qed

text \<open>A response type whose \<open>Header\<close> is a pointer to a struct is accepted, but the
  zero response (what \<open>reflect.New\<close> gives, and what a handler that does not set the
  header leaves) panics: \<open>WriteRespHeader\<close> traverses the nil pointer.\<close>

lemma respWrite_zero_Header_panics:
  "newRespWriteFunc (TPtr (TStruct [SField ''Data'' [] False TInt, SField ''Header'' [] False (TPtr (TStruct [SField ''X'' [] False TString]))]))
     = Inr (TStruct [SField ''Data'' [] False TInt, SField ''Header'' [] False (TPtr (TStruct [SField ''X'' [] False TString]))], True)
   \<and> respWrite ifc errc enc SE hasCtx header w ws
       (TStruct [SField ''Data'' [] False TInt, SField ''Header'' [] False (TPtr (TStruct [SField ''X'' [] False TString]))])
       (zero (TStruct [SField ''Data'' [] False TInt, SField ''Header'' [] False (TPtr (TStruct [SField ''X'' [] False TString]))]))
     = Inl zero_value_panic"
proof
  show "newRespWriteFunc (TPtr (TStruct [SField ''Data'' [] False TInt, SField ''Header'' [] False (TPtr (TStruct [SField ''X'' [] False TString]))]))
     = Inr (TStruct [SField ''Data'' [] False TInt, SField ''Header'' [] False (TPtr (TStruct [SField ''X'' [] False TString]))], True)"
    by code_simp
  show "respWrite ifc errc enc SE hasCtx header w ws
       (TStruct [SField ''Data'' [] False TInt, SField ''Header'' [] False (TPtr (TStruct [SField ''X'' [] False TString]))])
       (zero (TStruct [SField ''Data'' [] False TInt, SField ''Header'' [] False (TPtr (TStruct [SField ''X'' [] False TString]))]))
     = Inl zero_value_panic"
    by (simp add: respWrite_def ResponseBodySize_def Traverse_def resp_visitor_def WriteRespHeader_def
                  is_exported_def)
qed

text \<open>A response with only a \<open>Data\<close> field answers \<open>ctx.Data(data, nil)\<close>; with an
  \<open>Error\<close> field too, the error is passed along (\<open>nil\<close> when the field holds none).\<close>

lemma respWrite_Data_only:
  "respWrite ifc errc enc SE hasCtx header w ws (TStruct [SField ''Data'' tg False t]) (RStruct [v]) =
     (case Data enc SE w ws (ifc t v) None of (w', ws') \<Rightarrow> Inr (header, w', ws'))"
  by (simp add: respWrite_def ResponseBodySize_def Traverse_def resp_visitor_def is_exported_def)

lemma respWrite_Error_Data:
  "respWrite ifc errc enc SE hasCtx header w ws
      (TStruct [SField ''Error'' tg False te, SField ''Data'' tg' False t]) (RStruct [ev, v]) =
     (case Data enc SE w ws (ifc t v) (errc ev) of (w', ws') \<Rightarrow> Inr (header, w', ws'))"
  by (simp add: respWrite_def ResponseBodySize_def Traverse_def resp_visitor_def is_exported_def
           split: option.splits)


subsection \<open>Converting a handler\<close>

text \<open>The definitions that a conversion of a concrete handler type unfolds.\<close>

lemmas convertHandler_unfold = convertHandler_def newReqConvertFunc_def validateReqFields_def TraverseType_def deref_def
    validate_req_field_def isEmptyStruct_def newRespWriteFunc_def validateRespFields_def validate_resp_field_def
    runConverted_def reqConvert_def Traverse_def req_visitor_def convertReqBody_def is_exported_def

text \<open>The checks on the handler's type: a \<open>func(*Context)\<close> is kept, anything else must
  be a function of two parameters and no results.\<close>

lemma convertHandler_type_checks:
  "convertHandler L ifc errc enc SE HContextFunc rp = Inr None
   \<and> convertHandler L ifc errc enc SE HNonFunc rp = Inl (Panic ''handler must be a func.'')
   \<and> (length ins \<noteq> 2 \<longrightarrow>
        convertHandler L ifc errc enc SE (HFunc ins n call) rp
          = Inl (Panic ''handler func must have exactly two parameters.''))
   \<and> (length ins = 2 \<longrightarrow> n \<noteq> 0 \<longrightarrow>
        convertHandler L ifc errc enc SE (HFunc ins n call) rp = Inl (Panic ''handler func must have no return values.''))"
  by (simp add: convertHandler_def)

text \<open>A request that does not convert (a query, header or body that does not bind) makes
  the closure panic with \<open>args-err\<close>; the deferred handler of \<open>ServeHTTP\<close> then answers
  500, not an error of the client.\<close>

lemma runConverted_args_err:
  "reqConv rq = Inr (Inl err) \<Longrightarrow>
   runConverted ifc errc enc SE call reqConv hasCtx respTyp hasWriter rq header w ws = Inl argsErrPanic"
  by (simp add: runConverted_def)

lemma convertHandler_args_err_panics:
  "\<exists>f. convertHandler L_demo ifc errc enc SE
          (HFunc [TStruct [SField ''Body'' [] False (TStruct [SField ''A'' [] False TString])],
                  TPtr (TStruct [SField ''Data'' [] False TString])] 0 call) ''/x'' = Inr (Some f)
     \<and> f \<lparr>rq_query = [], rq_header = [], rq_body = Inr ''{}'', rq_ctx = ROpaque []\<rparr> header w ws
         = Inl argsErrPanic"
  by (simp add: convertHandler_unfold L_demo_def)

text \<open>End to end: a handler whose request converts answers \<open>ctx.Data\<close> with the
  \<open>Data\<close> field its body leaves in the response.\<close>

lemma convertHandler_answers_Data:
  "\<exists>f. convertHandler L_demo ifc errc enc SE
          (HFunc [TStruct [SField ''Body'' [] False (TStruct [SField ''A'' [] False TString])],
                  TPtr (TStruct [SField ''Data'' [] False TString])] 0 (\<lambda>req resp. RStruct [RString ''hi''])) ''/x''
          = Inr (Some f)
     \<and> f \<lparr>rq_query = [], rq_header = [], rq_body = Inr [], rq_ctx = ROpaque []\<rparr> header w ws
         = (case Data enc SE w ws (ifc TString (RString ''hi'')) None of (w', ws') \<Rightarrow> Inr (header, w', ws'))"
  by (simp add: convertHandler_unfold respWrite_def ResponseBodySize_def resp_visitor_def)

end
