(* ===== verification/Spec2Isabelle.thy ===== *)
theory Spec2Isabelle
  imports Tree_Test Group Server Context_Keys Context_Response Net_Addr Mode Run_Engine Convert Resp_Write
begin

text \<open>
  A verification development of hapi, a small Go HTTP framework whose router is a radix tree
  derived from httprouter.  The program's parts and how they interact: the engine keeps one
  radix tree per HTTP method; route groups join paths and handler chains and register them
  with the engine; \<open>ServeHTTP\<close> takes a context from a pool, finds the chain for the request
  in the trees and runs it with \<open>Next\<close>/\<open>Abort\<close>; handlers written as typed functions are
  converted by reflection, binding the query, header and body of the request into a struct.
  Each theory opens with a text saying what it models; in order of the imports:

  \<^item> \<open>Prelude\<close>: Go's string and integer types, the panics of the code (\<open>go_panic\<close>), Go's
    dynamic values (\<open>anyval\<close>), and shared lemmas on lists, association lists and \<open>int8\<close>.
  \<^item> \<open>Tree\<close>, \<open>Tree_Lookup\<close>, \<open>Tree_Insert\<close>, \<open>Tree_Test\<close>: the \<open>node\<close> of
    \<open>src/unnamed/part_003\<close> (lines 110--287) as a nested datatype with \<open>longestCommonPrefix\<close>,
    \<open>incrementChildPrio\<close>, \<open>insertChild\<close>, \<open>addChild\<close>, the walk loop of \<open>addRoute\<close>
    (\<open>walk\<close>) and \<open>getValue\<close>; the invariant \<open>wf_node\<close>/\<open>root_ok\<close>; the abstraction
    \<open>route_map\<close> to the map from full paths to chains.  The lemmas show that \<open>getValue\<close>
    is the lookup of \<open>route_map\<close>, \<open>longestCommonPrefix\<close> equals a reference definition,
    \<open>addRoute\<close> refines a map update and panics exactly on duplicates, every step keeps the
    invariant, and the slash shortcut of the walk loop hangs on \<open>/users/list\<close> followed
    by \<open>/user/profile\<close>.  \<open>Tree_Test\<close> evaluates \<open>Test_node_addRoute\<close> of
    \<open>src/tree_test.go\<close>.
  \<^item> \<open>Engine\<close>: \<open>methodTrees.get\<close>, \<open>New\<close>, \<open>Engine.addRoute\<close> and the route-finding
    loop of \<open>handleHTTPRequest\<close> (\<open>src/unnamed/part_000\<close>); registration refines an update
    of the per-method route table, lookups find what was registered.
  \<^item> \<open>Group\<close>: \<open>RouterGroup\<close> (\<open>src/unnamed/part_001\<close> lines 80--179), \<open>handle\<close>, \<open>Use\<close>,
    \<open>Group\<close>, the verb shortcuts, and \<open>joinPaths\<close>/\<open>lastChar\<close> of \<open>src/utils.go\<close> with
    Go's \<open>path.Join\<close> modelled from its documentation.
  \<^item> \<open>Request_Context\<close>, \<open>Context_Keys\<close>: the context (\<open>part_001\<close> lines 196--279 and
    476--607): the \<open>int8\<close> cursor, \<open>Next\<close>, \<open>Abort\<close>, \<open>IsAborted\<close>, \<open>reset\<close>,
    \<open>Copy\<close>, the key store and its typed getters.  Handlers are lists of context operations.
    The lemmas show that \<open>Next\<close> runs a chain in order, that \<open>Abort\<close> stops short chains but
    hangs or runs later handlers in long ones, that the \<open>int8\<close> cursor skips chains of 128
    handlers or more, and that typed getters invert \<open>Set\<close> on their own type only.
  \<^item> \<open>Server\<close>: \<open>ServeHTTP\<close>, \<open>handleHTTPRequest\<close> and \<open>serveError\<close> (\<open>part_000\<close>) as
    goroutine phases over an explicit heap of pooled contexts; \<open>runSched\<close> runs any
    interleaving.  The lemmas show the 404 path, that keys leak from one request to the
    next through the pool, and that in every state where a request has put its context back
    and another request has taken it, the first request's deferred error handler sends a 500
    to the second client.
  \<^item> \<open>Context_Response\<close>: \<open>RequestBody\<close>, \<open>Data\<close>, \<open>getData\<close>,
    \<open>isNilValue\<close>, \<open>Ok\<close>, \<open>Json\<close>, \<open>StatusJson\<close> and \<open>Value\<close> (\<open>part_001\<close> lines
    281--398 and 454--470), writing through the writer of \<open>Server\<close>; JSON encoding and
    \<open>ServerErr\<close> are parameters.  The lemmas show that the body is read once, put back
    readable and then served from the cache, the three outcomes of \<open>Data\<close> (success, coded error, server
    error, which still carries the handler's data), what \<open>StatusJson\<close> puts on the wire,
    and that the reserved keys of \<open>Value\<close> shadow the keys set with \<open>Set\<close>.
  \<^item> \<open>Net_Addr\<close>: \<open>RemoteIP\<close> and \<open>ClientIP\<close> (\<open>part_001\<close> lines 403--421),
    with \<open>strings.TrimSpace\<close> and \<open>net.SplitHostPort\<close> translated from the Go standard
    library on bytes (UTF-8 white space included); \<open>ParseIP\<close> with \<open>String\<close> is a parameter.
    The lemmas show that \<open>SplitHostPort\<close> inverts \<open>JoinHostPort\<close>, that trimming keeps
    an address padded with white space, and that the client IP is the host of
    \<open>RemoteAddr\<close>: the proxy headers that the comment of \<open>ClientIP\<close> names are never read.
  \<^item> \<open>Mode\<close>: \<open>SetMode\<close>, \<open>init\<close>, \<open>IsDebugging\<close>, \<open>debugPrint\<close> (\<open>part_003\<close>
    lines 10--82).
  \<^item> \<open>Run_Engine\<close>: \<open>Default\<close>, \<open>Handler\<close> and \<open>Run\<close> (\<open>part_000\<close>): the address
    and handler given to \<open>http.ListenAndServe\<close> and the debug line; a new engine is served
    through \<open>h2c\<close> on \<open>:8080\<close> by default.
  \<^item> \<open>Strconv\<close>: Go's \<open>ParseInt\<close>, \<open>ParseUint\<close>, \<open>ParseBool\<close> and decimal printing,
    modelled from the Go documentation, with their bounds and the parse/print round trip.
  \<^item> \<open>Reflect\<close>: reflect types and values and \<open>TraverseType\<close>/\<open>Traverse\<close> of
    \<open>src/unnamed/part_002\<close>; the two traversals agree, and \<open>Traverse\<close> keeps values well
    typed.
  \<^item> \<open>Bind\<close>: \<open>SetArray\<close>, \<open>Set\<close>, \<open>SetInt\<close>, \<open>SetUint\<close>, \<open>SetFloat\<close> of
    \<open>src/utils.go\<close>: binding keeps values well typed (integers within their width), decimal
    integers round-trip, and a failed set may already have modified its target.
  \<^item> \<open>Convert\<close>: the request binding of \<open>src/convert.go\<close> (\<open>newReqConvertFunc\<close>,
    \<open>validateReqFields\<close>, \<open>Query\<close>, \<open>Header\<close>, \<open>convertReqBody\<close>, the query parameter
    names) and the response checks and \<open>WriteRespHeader\<close>, which writes at most one header.
  \<^item> \<open>Resp_Write\<close>: \<open>convertHandler\<close> and \<open>newRespWriteFunc\<close> of
    \<open>src/convert.go\<close>; the user's function is given by its body.  The closure
    collects \<open>Error\<close>, \<open>Data\<close> and \<open>Header\<close> of the handler's response with
    \<open>Traverse\<close> and answers with \<open>Data\<close> of \<open>Context_Response\<close>; \<open>v.Interface()\<close> is a
    parameter.  The lemmas show the checks on the handler's type, that a request that does
    not bind panics with \<open>args-err\<close>, the answer for \<open>Data\<close> and \<open>Error\<close> fields, that the
    guard on \<open>ResponseBodySize\<close> never fires, so a response already written gets a second
    body, and that a response whose \<open>Header\<close> pointer is left nil panics.
  \<^item> This theory: registering a list of routes and reading them back, and the isolation of
    the per-method trees, across the tree, the engine and the groups.

  Fuel: the walk loop of \<open>addRoute\<close> has no bound, so \<open>walk\<close> takes fuel and returns
  \<open>None\<close> when it runs out; each continuing iteration consumes a byte of the path, so
  \<open>length path\<close> is enough for every run that ends (\<open>addRoute_fuel\<close>), and \<open>handle\<close>
  passes that much.  \<open>Next\<close> and handlers run with fuel too; the chain lemmas give the fuel
  that suffices, and the divergence lemmas hold for every fuel.  The traversals and setters
  recurse on the structure of the type and need none; the trimming loop of
  \<open>TrimSpace\<close> removes a non-empty encoding at each step and terminates by the length.

  Not modelled: the example \<open>main\<close> (\<open>part_001\<close> lines 1--48); the body of the user's
  functions, which \<open>convertHandler\<close> calls through \<open>reflect.Value.Call\<close> (a parameter); the
  \<open>Deadline\<close>/\<open>Done\<close>/\<open>Err\<close> methods, which only forward to the request's
  \<open>context.Context\<close>; \<open>net.ParseIP\<close> and the printing of IP addresses, a parameter of
  \<open>ClientIP\<close>; the writer's own type, which is not part of the sources
  (\<open>ResponseBodySize\<close> and \<open>StatusJson\<close> look up its fields \<open>written\<close> and
  \<open>wroteHeader\<close> by reflection; the writer modelled in \<open>Server\<close> has neither);
  \<open>http.ListenAndServe\<close> and the HTTP/2 cleartext server themselves; \<open>debugPrintRoute\<close>,
  which names functions through the runtime.  Float parsing and JSON decoding are parameters of the setters;
  \<open>sync.Pool\<close> is modelled by one of the behaviours it allows.
\<close>

section \<open>Registering a sequence of routes\<close>

text \<open>
  Route registration at start-up, as the spec describes it: a sequence of
  \<open>Engine.addRoute\<close> calls, each with as much fuel as its path has bytes; the first
  panic stops the sequence.
\<close>

fun registerAll :: "'h Engine \<Rightarrow> (string \<times> string \<times> 'h list) list \<Rightarrow> (go_panic + 'h Engine) option" where
  "registerAll e [] = Some (Inr e)"
| "registerAll e ((m, p, hs) # rs) =
     (case Engine_addRoute (length p) e m p hs of Some (Inr e') \<Rightarrow> registerAll e' rs | r \<Rightarrow> r)"

definition route_keys :: "(string \<times> string \<times> 'h list) list \<Rightarrow> (string \<times> string) list" where
  "route_keys rs = map (\<lambda>(m, p, hs). (m, p)) rs"

definition route_table :: "(string \<times> string \<times> 'h list) list \<Rightarrow> string \<times> string \<rightharpoonup> 'h list" where
  "route_table rs = map_of (map (\<lambda>(m, p, hs). ((m, p), hs)) rs)"

lemma route_table_None: "(route_table rs k = None) = (k \<notin> set (route_keys rs))"
  by (induction rs) (auto simp: route_table_def route_keys_def)

lemma Engine_addRoute_Inr_valid:
  "Engine_addRoute f e m p hs = Some (Inr e') \<Longrightarrow> p \<noteq> [] \<and> hd p = CHR ''/'' \<and> m \<noteq> [] \<and> hs \<noteq> []"
  by (auto simp: Engine_addRoute_def split: if_splits)

text \<open>
  A sequence that ends without a panic registers pairs that are distinct and new, and
  the routes after it are the routes before it overridden by the sequence.
\<close>

lemma registerAll_routes:
  "engine_ok e \<Longrightarrow> registerAll e rs = Some (Inr e') \<Longrightarrow>
   engine_ok e' \<and> distinct (route_keys rs) \<and> (\<forall>(m, p) \<in> set (route_keys rs). engine_routes e m p = None) \<and>
   (\<forall>m p. engine_routes e' m p = (case route_table rs (m, p) of None \<Rightarrow> engine_routes e m p | Some hs \<Rightarrow> Some hs))"
proof (induction rs arbitrary: e)
  case Nil
  then show ?case by (simp add: route_keys_def route_table_def)
next
  case (Cons r rs)
  obtain m p hs where r: "r = (m, p, hs)" by (cases r)
  from Cons.prems(2) obtain e1 where e1: "Engine_addRoute (length p) e m p hs = Some (Inr e1)"
    and rest: "registerAll e1 rs = Some (Inr e')"
    by (auto simp: r split: option.splits sum.splits)
  note v = Engine_addRoute_Inr_valid [OF e1]
  have u: "engine_ok e1" "engine_routes e m p = None"
    "engine_routes e1 = (engine_routes e)(m := (engine_routes e m)(p \<mapsto> hs))"
    using Engine_addRoute_update [OF Cons.prems(1) _ _ _ _ e1] v by simp_all
  note ih = Cons.IH [OF u(1) rest]
  have fresh: "(m, p) \<notin> set (route_keys rs)"
    using ih u(3) by auto
  show ?case
  proof (intro conjI allI)
    show "engine_ok e'" using ih by simp
    show "distinct (route_keys (r # rs))" using ih fresh by (simp add: r route_keys_def)
    show "\<forall>(m', p') \<in> set (route_keys (r # rs)). engine_routes e m' p' = None"
      using ih u(2,3) by (auto simp: r route_keys_def split: if_splits)
  next
    fix m' p'
    show "engine_routes e' m' p' =
            (case route_table (r # rs) (m', p') of None \<Rightarrow> engine_routes e m' p' | Some hs' \<Rightarrow> Some hs')"
      using ih u(3) fresh route_table_None [of rs "(m, p)"] by (auto simp: r route_table_def split: option.splits)
  qed
qed

lemma route_table_Some: "distinct (route_keys rs) \<Longrightarrow> (m, p, hs) \<in> set rs \<Longrightarrow> route_table rs (m, p) = Some hs"
  by (induction rs) (auto simp: route_table_def route_keys_def rev_image_eqI)

text \<open>
  Claim C20.  The round trip of the spec: after a sequence of registrations on a
  well-formed engine ends without a panic, the lookup of \<open>handleHTTPRequest\<close> finds,
  for every registered method and path, exactly the chain registered there.
\<close>

theorem registerAll_round_trip:
  assumes "engine_ok e" "registerAll e rs = Some (Inr e')" "(m, p, hs) \<in> set rs"
  shows "findHandlers (trees e') m p = Inr (Some hs)"
proof -
  note r = registerAll_routes [OF assms(1,2)]
  have "route_table rs (m, p) = Some hs" using r assms(3) by (intro route_table_Some) simp_all
  then show ?thesis using r findHandlers_routes [of e' m p] by simp
qed

theorem registerAll_round_trip_witness:
  "engine_ok (New :: nat Engine) \<and>
   registerAll (New :: nat Engine) [(''GET'', ''/a'', [1]), (''POST'', ''/a'', [2]), (''GET'', ''/ab'', [3::nat])] = Some (Inr (New\<lparr>trees := [\<lparr>httpMethod = ''GET'', root = Node ''/a'' ''b'' 2 [Node ''b'' [] 1 [] (Some [3]) ''/ab''] (Some [1]) ''/a''\<rparr>,
                    \<lparr>httpMethod = ''POST'', root = Node ''/a'' [] 1 [] (Some [2]) ''/a''\<rparr>]\<rparr> :: nat Engine)) \<and>
   findHandlers (trees (New\<lparr>trees := [\<lparr>httpMethod = ''GET'', root = Node ''/a'' ''b'' 2 [Node ''b'' [] 1 [] (Some [3]) ''/ab''] (Some [1]) ''/a''\<rparr>,
                    \<lparr>httpMethod = ''POST'', root = Node ''/a'' [] 1 [] (Some [2]) ''/a''\<rparr>]\<rparr> :: nat Engine)) ''GET'' ''/ab'' = Inr (Some [3])"
proof -
  have ok: "engine_ok (New :: nat Engine)" by (simp add: engine_ok_def New_def)
  have run: "registerAll (New :: nat Engine) [(''GET'', ''/a'', [1]), (''POST'', ''/a'', [2]), (''GET'', ''/ab'', [3::nat])] = Some (Inr (New\<lparr>trees := [\<lparr>httpMethod = ''GET'', root = Node ''/a'' ''b'' 2 [Node ''b'' [] 1 [] (Some [3]) ''/ab''] (Some [1]) ''/a''\<rparr>,
                    \<lparr>httpMethod = ''POST'', root = Node ''/a'' [] 1 [] (Some [2]) ''/a''\<rparr>]\<rparr> :: nat Engine))" by code_simp
  show ?thesis using registerAll_round_trip [OF ok run, of "''GET''" "''/ab''" "[3]"] ok run by simp
qed

text \<open>
  Claim C21.  Method isolation, as the spec states it: after a sequence of registrations
  on a new engine ends, a lookup finds no chain for a method and a path exactly when that
  pair was not registered; a path registered under one method is not found under another.
\<close>

theorem method_isolation:
  assumes "registerAll New rs = Some (Inr e')"
  shows "(findHandlers (trees e') m p = Inr None) = ((m, p) \<notin> set (route_keys rs))"
proof -
  have ok: "engine_ok (New :: 'h Engine)" by (simp add: engine_ok_def New_def)
  note r = registerAll_routes [OF ok assms]
  have "engine_routes (New :: 'h Engine) m p = None" by (simp add: engine_routes_def New_def)
  then show ?thesis using r findHandlers_routes [of e' m p] route_table_None [of rs "(m, p)"]
    by (auto split: option.splits)
qed

theorem method_isolation_witness:
  "registerAll (New :: nat Engine) [(''GET'', ''/a'', [1]), (''POST'', ''/a'', [2]), (''GET'', ''/ab'', [3::nat])] = Some (Inr (New\<lparr>trees := [\<lparr>httpMethod = ''GET'', root = Node ''/a'' ''b'' 2 [Node ''b'' [] 1 [] (Some [3]) ''/ab''] (Some [1]) ''/a''\<rparr>,
                    \<lparr>httpMethod = ''POST'', root = Node ''/a'' [] 1 [] (Some [2]) ''/a''\<rparr>]\<rparr> :: nat Engine)) \<and>
   findHandlers (trees (New\<lparr>trees := [\<lparr>httpMethod = ''GET'', root = Node ''/a'' ''b'' 2 [Node ''b'' [] 1 [] (Some [3]) ''/ab''] (Some [1]) ''/a''\<rparr>,
                    \<lparr>httpMethod = ''POST'', root = Node ''/a'' [] 1 [] (Some [2]) ''/a''\<rparr>]\<rparr> :: nat Engine)) ''POST'' ''/ab'' = Inr None \<and> (''POST'', ''/ab'') \<notin> set (route_keys [(''GET'', ''/a'', [1]), (''POST'', ''/a'', [2]), (''GET'', ''/ab'', [3::nat])])"
proof -
  have run: "registerAll (New :: nat Engine) [(''GET'', ''/a'', [1]), (''POST'', ''/a'', [2]), (''GET'', ''/ab'', [3::nat])] = Some (Inr (New\<lparr>trees := [\<lparr>httpMethod = ''GET'', root = Node ''/a'' ''b'' 2 [Node ''b'' [] 1 [] (Some [3]) ''/ab''] (Some [1]) ''/a''\<rparr>,
                    \<lparr>httpMethod = ''POST'', root = Node ''/a'' [] 1 [] (Some [2]) ''/a''\<rparr>]\<rparr> :: nat Engine))" by code_simp
  have "(''POST'', ''/ab'') \<notin> set (route_keys [(''GET'', ''/a'', [1]), (''POST'', ''/a'', [2]), (''GET'', ''/ab'', [3::nat])])" by (simp add: route_keys_def)
  then show ?thesis using method_isolation [OF run, of "''POST''" "''/ab''"] run by simp
qed

end
